(* ===== verification/Fits_Error.thy ===== *)
theory Fits_Error
  imports Fits_Prelude
begin

text \<open>
  The exception hierarchy of EleFits (\<^verbatim>\<open>EleFitsData/FitsError.h\<close>, \<^verbatim>\<open>FitsError.cpp\<close> and the
  exception classes declared beside the handlers that throw them).  One datatype has a constructor
  per exception type; \<open>Undefined\<close> is not an exception but marks the runs whose behaviour C++ leaves
  undefined (an access outside of a container), so that a theorem can exclude them.
\<close>

section \<open>Exceptions\<close>

datatype checksum_status = Incorrect | Missing | Correct

datatype fits_error =
    FitsError string
  | OutOfBoundsError string int "int \<times> int"
  | ChecksumError checksum_status checksum_status
  | IncompatibleTrits
  | KeywordExistsError string
  | KeywordNotFoundError string
  | ReadOnlyError string
  | CfitsioError int string
  | BadAnyCast
  | BadCast
  | StdException string
  | Undefined

type_synonym 'a result = "fits_error + 'a"

text \<open>The message a \<^verbatim>\<open>FitsError\<close> carries: a prefix, then lines appended by handlers.\<close>

definition m_prefix :: string where
  "m_prefix = ''EleFits error: ''"

definition newline :: char where
  "newline = char_of (10::nat)"

definition fits_error_init :: "string \<Rightarrow> string" where
  "fits_error_init message = m_prefix @ message"

definition fits_error_append :: "string \<Rightarrow> nat \<Rightarrow> string \<Rightarrow> string" where
  "fits_error_append txt indent m_message =
     m_message @ [newline] @ concat (replicate indent ''  '') @ txt"

definition out_of_bounds_message :: "string \<Rightarrow> int \<Rightarrow> int \<times> int \<Rightarrow> string" where
  "out_of_bounds_message prefix v bounds =
     fits_error_init (prefix @ '': '' @ to_string v @ '' not in ('' @ to_string (fst bounds) @ '', '' @
       to_string (snd bounds) @ '')'')"

definition checksum_message :: "checksum_status \<Rightarrow> checksum_status \<Rightarrow> string" where
  "checksum_message hdu data =
     (let m0 = fits_error_init ''Checksum error: '';
          m1 = (if hdu = Missing then fits_error_append ''Missing HDU checksum record. '' 0 m0
                else if hdu = Incorrect then fits_error_append ''Incorrect HDU checksum. '' 0 m0
                else m0)
      in if data = Missing then fits_error_append ''Missing data checksum record. '' 0 m1
         else if data = Incorrect then fits_error_append ''Incorrect data checksum. '' 0 m1
         else m1)"

section \<open>Conditional throws\<close>

definition out_of_bounds_may_throw :: "string \<Rightarrow> int \<Rightarrow> int \<times> int \<Rightarrow> unit result" where
  "out_of_bounds_may_throw prefix v bounds =
     (if v < fst bounds \<or> v > snd bounds then Inl (OutOfBoundsError prefix v bounds) else Inr ())"

definition checksum_missing :: "checksum_status \<Rightarrow> checksum_status \<Rightarrow> bool" where
  "checksum_missing hdu data \<longleftrightarrow> hdu = Missing \<or> data = Missing"

definition checksum_incorrect :: "checksum_status \<Rightarrow> checksum_status \<Rightarrow> bool" where
  "checksum_incorrect hdu data \<longleftrightarrow> hdu = Incorrect \<or> data = Incorrect"

definition checksum_may_throw :: "checksum_status \<Rightarrow> checksum_status \<Rightarrow> unit result" where
  "checksum_may_throw hdu data =
     (if hdu \<noteq> Correct \<or> data \<noteq> Correct then Inl (ChecksumError hdu data) else Inr ())"

lemma out_of_bounds_may_throw_Inr [simp]:
  "out_of_bounds_may_throw prefix v (lo, hi) = Inr u \<longleftrightarrow> lo \<le> v \<and> v \<le> hi"
  by (auto simp: out_of_bounds_may_throw_def)

lemma out_of_bounds_may_throw_in [simp]:
  "lo \<le> v \<Longrightarrow> v \<le> hi \<Longrightarrow> out_of_bounds_may_throw prefix v (lo, hi) = Inr ()"
  by (simp add: out_of_bounds_may_throw_def)

lemma out_of_bounds_may_throw_out [simp]:
  "v < lo \<or> hi < v \<Longrightarrow> out_of_bounds_may_throw prefix v (lo, hi) = Inl (OutOfBoundsError prefix v (lo, hi))"
  by (auto simp: out_of_bounds_may_throw_def)

lemma checksum_may_throw_cases:
  "checksum_may_throw hdu data = Inr () \<longleftrightarrow>
   \<not> checksum_missing hdu data \<and> \<not> checksum_incorrect hdu data"
  by (cases hdu; cases data)
     (simp_all add: checksum_may_throw_def checksum_missing_def checksum_incorrect_def)

section \<open>Contiguous memory\<close>

text \<open>
  \<^verbatim>\<open>*(data + index)\<close> on a container of known size.  C++ does not check the index: an access outside
  of the container is undefined behaviour.
\<close>

definition rd :: "'a list \<Rightarrow> int \<Rightarrow> 'a result" where
  "rd xs i = (if 0 \<le> i \<and> i < int (length xs) then Inr (xs ! nat i) else Inl Undefined)"

definition wr :: "'a list \<Rightarrow> int \<Rightarrow> 'a \<Rightarrow> 'a list result" where
  "wr xs i v = (if 0 \<le> i \<and> i < int (length xs) then Inr (xs[nat i := v]) else Inl Undefined)"

lemma rd_in [simp]: "0 \<le> i \<Longrightarrow> i < int (length xs) \<Longrightarrow> rd xs i = Inr (xs ! nat i)"
  by (simp add: rd_def)

lemma wr_in [simp]: "0 \<le> i \<Longrightarrow> i < int (length xs) \<Longrightarrow> wr xs i v = Inr (xs[nat i := v])"
  by (simp add: wr_def)

lemma rd_wr_same: "wr xs i v = Inr ys \<Longrightarrow> rd ys i = Inr v"
  by (auto simp: wr_def rd_def split: if_splits)

lemma rd_wr_other: "wr xs i v = Inr ys \<Longrightarrow> i \<noteq> j \<Longrightarrow> rd ys j = rd xs j"
  by (auto simp: wr_def rd_def split: if_splits)

lemma rd_nat [simp]: "i < length xs \<Longrightarrow> rd xs (int i) = Inr (xs ! i)"
  by (simp add: rd_def)

end
