(* ===== verification/Fits_Record.thy ===== *)
theory Fits_Record
  imports Complex_Main Fits_Error
begin

text \<open>
  Header records (\<^verbatim>\<open>EleFitsData/Record.h\<close>, \<^verbatim>\<open>RecordVec.h\<close> and their implementations): values of the
  sixteen supported types, the casts of \<^verbatim>\<open>VariantValue\<close>, raw comments, and lookup in record sequences.
  Floating point values are real numbers; the rounding of a conversion to \<^verbatim>\<open>float\<close> or \<^verbatim>\<open>double\<close> is a
  parameter of the casts.
\<close>

section \<open>Values\<close>

datatype value_type =
    TBool | TChar | TShort | TInt | TLong | TLongLong | TFloat | TDouble | TComplexFloat | TComplexDouble
  | TString | TUChar | TUShort | TUInt | TULong | TULongLong | TCStr

datatype payload = IntVal int | RealVal real | ComplexVal real real | StrVal string

text \<open>A \<^verbatim>\<open>boost::any\<close>: the type of the value it holds, and the value.\<close>

datatype variant = Variant (vtype: value_type) (vload: payload)

text \<open>The range of the integral types of the LP64 data model, \<^verbatim>\<open>bool\<close> excepted.\<close>

fun int_range :: "value_type \<Rightarrow> (int \<times> int) option" where
  "int_range TChar = Some (- (2 ^ 7), 2 ^ 7 - 1)"
| "int_range TShort = Some (- (2 ^ 15), 2 ^ 15 - 1)"
| "int_range TInt = Some (- (2 ^ 31), 2 ^ 31 - 1)"
| "int_range TLong = Some (- (2 ^ 63), 2 ^ 63 - 1)"
| "int_range TLongLong = Some (- (2 ^ 63), 2 ^ 63 - 1)"
| "int_range TUChar = Some (0, 2 ^ 8 - 1)"
| "int_range TUShort = Some (0, 2 ^ 16 - 1)"
| "int_range TUInt = Some (0, 2 ^ 32 - 1)"
| "int_range TULong = Some (0, 2 ^ 64 - 1)"
| "int_range TULongLong = Some (0, 2 ^ 64 - 1)"
| "int_range t = None"

definition wrap_range :: "int \<times> int \<Rightarrow> int \<Rightarrow> int" where
  "wrap_range = (\<lambda>(lo, hi) v. lo + (v - lo) mod (hi - lo + 1))"

definition trunc_real :: "real \<Rightarrow> int" where
  "trunc_real x = (if x < 0 then \<lceil>x\<rceil> else \<lfloor>x\<rfloor>)"

definition is_real_type :: "value_type \<Rightarrow> bool" where
  "is_real_type t \<longleftrightarrow> t = TFloat \<or> t = TDouble"

definition is_complex_type :: "value_type \<Rightarrow> bool" where
  "is_complex_type t \<longleftrightarrow> t = TComplexFloat \<or> t = TComplexDouble"

definition is_scalar_type :: "value_type \<Rightarrow> bool" where
  "is_scalar_type t \<longleftrightarrow> t = TBool \<or> int_range t \<noteq> None \<or> is_real_type t"

text \<open>
  \<^verbatim>\<open>static_cast\<close> between scalars: integers wrap around, a real number is truncated, and is undefined
  when the truncated value does not fit.
\<close>

definition cast_int :: "(value_type \<Rightarrow> real \<Rightarrow> real) \<Rightarrow> value_type \<Rightarrow> int \<Rightarrow> payload result" where
  "cast_int rnd t v =
     (if t = TBool then Inr (IntVal (if v = 0 then 0 else 1))
      else case int_range t of
        Some r \<Rightarrow> Inr (IntVal (wrap_range r v))
      | None \<Rightarrow> if is_real_type t then Inr (RealVal (rnd t (real_of_int v))) else Inl Undefined)"

definition cast_real :: "(value_type \<Rightarrow> real \<Rightarrow> real) \<Rightarrow> value_type \<Rightarrow> real \<Rightarrow> payload result" where
  "cast_real rnd t x =
     (if t = TBool then Inr (IntVal (if x = 0 then 0 else 1))
      else case int_range t of
        Some r \<Rightarrow> if fst r \<le> trunc_real x \<and> trunc_real x \<le> snd r then Inr (IntVal (trunc_real x)) else Inl Undefined
      | None \<Rightarrow> if is_real_type t then Inr (RealVal (rnd t x)) else Inl Undefined)"

definition static_cast :: "(value_type \<Rightarrow> real \<Rightarrow> real) \<Rightarrow> value_type \<Rightarrow> payload \<Rightarrow> payload result" where
  "static_cast rnd t v =
     (case v of IntVal i \<Rightarrow> cast_int rnd t i | RealVal x \<Rightarrow> cast_real rnd t x | _ \<Rightarrow> Inl Undefined)"

text \<open>\<^verbatim>\<open>CasterImpl<VariantValue, TTo>\<close> for a scalar, a complex and a string destination.\<close>

definition cast_variant_scalar :: "(value_type \<Rightarrow> real \<Rightarrow> real) \<Rightarrow> value_type \<Rightarrow> variant \<Rightarrow> payload result" where
  "cast_variant_scalar rnd t v =
     (if vtype v = t then Inr (vload v)
      else if is_scalar_type (vtype v) then static_cast rnd t (vload v)
      else Inl BadAnyCast)"

definition component_type :: "value_type \<Rightarrow> value_type" where
  "component_type t = (if t = TComplexFloat then TFloat else TDouble)"

definition cast_complex :: "(value_type \<Rightarrow> real \<Rightarrow> real) \<Rightarrow> value_type \<Rightarrow> payload \<Rightarrow> payload result" where
  "cast_complex rnd t v =
     (case v of
        ComplexVal re im \<Rightarrow> Inr (ComplexVal (rnd (component_type t) re) (rnd (component_type t) im))
      | _ \<Rightarrow> Inl Undefined)"

definition cast_variant_complex :: "(value_type \<Rightarrow> real \<Rightarrow> real) \<Rightarrow> value_type \<Rightarrow> variant \<Rightarrow> payload result" where
  "cast_variant_complex rnd t v =
     (if vtype v = t then Inr (vload v)
      else if is_complex_type (vtype v) then cast_complex rnd t (vload v)
      else Inl BadAnyCast)"

definition cast_variant_string :: "variant \<Rightarrow> payload result" where
  "cast_variant_string v = (if vtype v = TString then Inr (vload v) else Inl BadAnyCast)"

definition cast_variant :: "(value_type \<Rightarrow> real \<Rightarrow> real) \<Rightarrow> value_type \<Rightarrow> variant \<Rightarrow> payload result" where
  "cast_variant rnd t v =
     (if is_scalar_type t then cast_variant_scalar rnd t v
      else if is_complex_type t then cast_variant_complex rnd t v
      else if t = TString then cast_variant_string v
      else Inl Undefined)"

section \<open>Records\<close>

record 'v fits_record =
  rec_keyword :: string
  rec_value :: 'v
  rec_unit :: string
  rec_comment :: string

definition record_init :: "string \<Rightarrow> 'v \<Rightarrow> string \<Rightarrow> string \<Rightarrow> 'v fits_record" where
  "record_init k v u c = \<lparr>rec_keyword = k, rec_value = v, rec_unit = u, rec_comment = c\<rparr>"

definition record_convert :: "('a \<Rightarrow> 'b result) \<Rightarrow> 'a fits_record \<Rightarrow> 'b fits_record result" where
  "record_convert cast other =
     rbind (cast (rec_value other)) (\<lambda>v. Inr (record_init (rec_keyword other) v (rec_unit other) (rec_comment other)))"

definition record_assign ::
  "('a \<Rightarrow> 'b result) \<Rightarrow> string \<Rightarrow> 'a \<Rightarrow> string \<Rightarrow> string \<Rightarrow> 'b fits_record \<Rightarrow> 'b fits_record result" where
  "record_assign cast k v u c r =
     rbind (cast v) (\<lambda>v'. Inr (r\<lparr>rec_keyword := k, rec_value := v', rec_unit := u, rec_comment := c\<rparr>))"

definition raw_comment :: "'v fits_record \<Rightarrow> string" where
  "raw_comment r =
     (if rec_unit r = [] then rec_comment r else ''['' @ rec_unit r @ ''] '' @ rec_comment r)"

definition has_long_keyword :: "'v fits_record \<Rightarrow> bool" where
  "has_long_keyword r \<longleftrightarrow> length (rec_keyword r) > 8"

definition max_short_value_length :: nat where
  "max_short_value_length = 68"

definition has_long_string_value :: "variant fits_record \<Rightarrow> bool" where
  "has_long_string_value r =
     (if vtype (rec_value r) = TString \<or> vtype (rec_value r) = TCStr
      then case vload (rec_value r) of StrVal s \<Rightarrow> length s > max_short_value_length | _ \<Rightarrow> False
      else False)"

definition record_eq :: "'v fits_record \<Rightarrow> 'v fits_record \<Rightarrow> bool" where
  "record_eq lhs rhs =
     (if rec_keyword lhs \<noteq> rec_keyword rhs then False
      else if rec_value lhs \<noteq> rec_value rhs then False
      else if rec_unit lhs \<noteq> rec_unit rhs then False
      else if rec_comment lhs \<noteq> rec_comment rhs then False
      else True)"

definition record_neq :: "'v fits_record \<Rightarrow> 'v fits_record \<Rightarrow> bool" where
  "record_neq lhs rhs \<longleftrightarrow> \<not> record_eq lhs rhs"

text \<open>\<^verbatim>\<open>operator<<\<close>, for a value already printed.\<close>

definition show_record :: "string fits_record \<Rightarrow> string" where
  "show_record r =
     rec_keyword r @ '' = '' @ rec_value r @
     (let rc = raw_comment r in if rc \<noteq> [] then '' / '' @ rc else [])"

section \<open>Sequences of records\<close>

definition recordvec_has :: "'v fits_record list \<Rightarrow> string \<Rightarrow> bool" where
  "recordvec_has rs keyword \<longleftrightarrow> find (\<lambda>r. rec_keyword r = keyword) rs \<noteq> None"

definition recordvec_subscript :: "'v fits_record list \<Rightarrow> string \<Rightarrow> 'v fits_record result" where
  "recordvec_subscript rs keyword =
     (case find (\<lambda>r. rec_keyword r = keyword) rs of
        None \<Rightarrow> Inl (FitsError (''Cannot find record: '' @ keyword))
      | Some r \<Rightarrow> Inr r)"

definition recordvec_as :: "('v \<Rightarrow> 'w result) \<Rightarrow> 'v fits_record list \<Rightarrow> string \<Rightarrow> 'w fits_record result" where
  "recordvec_as cast rs keyword = rbind (recordvec_subscript rs keyword) (record_convert cast)"

section \<open>Laws\<close>

definition well_typed :: "variant \<Rightarrow> bool" where
  "well_typed v =
     (case vload v of
        IntVal i \<Rightarrow> (vtype v = TBool \<and> (i = 0 \<or> i = 1)) \<or>
          (case int_range (vtype v) of Some (lo, hi) \<Rightarrow> lo \<le> i \<and> i \<le> hi | None \<Rightarrow> False)
      | RealVal x \<Rightarrow> is_real_type (vtype v)
      | ComplexVal re im \<Rightarrow> is_complex_type (vtype v)
      | StrVal s \<Rightarrow> vtype v = TString \<or> vtype v = TCStr)"

lemma wrap_range_in: "lo \<le> v \<Longrightarrow> v \<le> hi \<Longrightarrow> wrap_range (lo, hi) v = v"
  by (simp add: wrap_range_def)

lemma wrap_range_bounds: "lo \<le> hi \<Longrightarrow> lo \<le> wrap_range (lo, hi) v \<and> wrap_range (lo, hi) v \<le> hi"
  by (simp add: wrap_range_def) (smt (verit) pos_mod_bound pos_mod_sign)

lemma int_range_nonempty: "int_range t = Some (lo, hi) \<Longrightarrow> lo \<le> hi"
  by (cases t) auto

lemma int_range_scalar: "int_range t = Some r \<Longrightarrow> is_scalar_type t \<and> t \<noteq> TBool \<and> \<not> is_real_type t"
  by (cases t) (auto simp: is_scalar_type_def is_real_type_def)

text \<open>
  Casting a variant to the type it holds returns its value; casting an integer to an integral
  type returns it unchanged when it fits and always a value of that type; strings and complex
  numbers are never cast to scalars, nor scalars to complex numbers or strings.
\<close>

theorem variant_casts:
  assumes "well_typed v"
  shows "(is_scalar_type (vtype v) \<or> is_complex_type (vtype v) \<or> vtype v = TString \<longrightarrow>
            cast_variant rnd (vtype v) v = Inr (vload v)) \<and>
         (int_range t = Some (lo, hi) \<and> vload v = IntVal i \<longrightarrow>
            (\<exists>j. cast_variant rnd t v = Inr (IntVal j) \<and> lo \<le> j \<and> j \<le> hi \<and> (lo \<le> i \<and> i \<le> hi \<longrightarrow> j = i))) \<and>
         (is_scalar_type t \<and> \<not> is_scalar_type (vtype v) \<longrightarrow> cast_variant rnd t v = Inl BadAnyCast) \<and>
         ((is_complex_type t \<or> t = TString) \<and> is_scalar_type (vtype v) \<longrightarrow> cast_variant rnd t v = Inl BadAnyCast)"
proof (intro conjI impI)
  show "cast_variant rnd (vtype v) v = Inr (vload v)"
    if "is_scalar_type (vtype v) \<or> is_complex_type (vtype v) \<or> vtype v = TString"
    using that by (auto simp: cast_variant_def cast_variant_scalar_def cast_variant_complex_def cast_variant_string_def)
next
  assume a: "int_range t = Some (lo, hi) \<and> vload v = IntVal i"
  have v: "is_scalar_type (vtype v)"
    using assms a by (auto simp: well_typed_def is_scalar_type_def split: option.splits)
  have t: "is_scalar_type t" "t \<noteq> TBool"
    using a int_range_scalar by blast+
  show "\<exists>j. cast_variant rnd t v = Inr (IntVal j) \<and> lo \<le> j \<and> j \<le> hi \<and> (lo \<le> i \<and> i \<le> hi \<longrightarrow> j = i)"
  proof (cases "vtype v = t")
    case True
    then show ?thesis
      using assms a t by (auto simp: cast_variant_def cast_variant_scalar_def well_typed_def)
  next
    case False
    then show ?thesis
      using a t v wrap_range_in [of lo i hi] wrap_range_bounds [of lo hi i] int_range_nonempty [of t lo hi]
      by (auto simp: cast_variant_def cast_variant_scalar_def static_cast_def cast_int_def)
  qed
next
  show "cast_variant rnd t v = Inl BadAnyCast" if "is_scalar_type t \<and> \<not> is_scalar_type (vtype v)"
    using that by (auto simp: cast_variant_def cast_variant_scalar_def)
next
  show "cast_variant rnd t v = Inl BadAnyCast" if "(is_complex_type t \<or> t = TString) \<and> is_scalar_type (vtype v)"
    using that by (cases t; cases "vtype v") (auto simp: cast_variant_def cast_variant_complex_def cast_variant_string_def
        is_scalar_type_def is_complex_type_def is_real_type_def)
qed

theorem variant_casts_witness:
  "cast_variant (\<lambda>t x. x) TInt (Variant TShort (IntVal 1000)) = Inr (IntVal 1000) \<and>
   cast_variant (\<lambda>t x. x) TInt (Variant TString (StrVal ''a'')) = Inl BadAnyCast"
  using variant_casts [of "Variant TShort (IntVal 1000)" "\<lambda>t x. x" TInt "- (2 ^ 31)" "2 ^ 31 - 1" 1000]
    variant_casts [of "Variant TString (StrVal ''a'')" "\<lambda>t x. x" TInt]
  by (auto simp: well_typed_def is_scalar_type_def is_real_type_def)

text \<open>
  Looking a keyword up in a sequence of records returns the first record with that keyword, and
  throws exactly when there is none; the casting lookup keeps the keyword, the unit and the comment.
\<close>

theorem recordvec_lookup:
  "(recordvec_has rs k \<longleftrightarrow> (\<exists>r. recordvec_subscript rs k = Inr r)) \<and>
   (recordvec_subscript rs k = Inr r \<longleftrightarrow>
      (\<exists>i. i < length rs \<and> rs ! i = r \<and> rec_keyword r = k \<and> list_all (\<lambda>r'. rec_keyword r' \<noteq> k) (take i rs))) \<and>
   (k \<notin> rec_keyword ` set rs \<longleftrightarrow> recordvec_subscript rs k = Inl (FitsError (''Cannot find record: '' @ k))) \<and>
   recordvec_as cast rs k = rbind (recordvec_subscript rs k) (\<lambda>r. rbind (cast (rec_value r)) (\<lambda>v.
     Inr \<lparr>rec_keyword = rec_keyword r, rec_value = v, rec_unit = rec_unit r, rec_comment = rec_comment r\<rparr>))"
proof (intro conjI)
  show "recordvec_has rs k \<longleftrightarrow> (\<exists>r. recordvec_subscript rs k = Inr r)"
    by (auto simp: recordvec_has_def recordvec_subscript_def split: option.splits)
  have "recordvec_subscript rs k = Inr r \<longleftrightarrow> find (\<lambda>r. rec_keyword r = k) rs = Some r"
    by (auto simp: recordvec_subscript_def split: option.splits)
  also have "\<dots> \<longleftrightarrow> (\<exists>i < length rs. rec_keyword (rs ! i) = k \<and> r = rs ! i \<and> (\<forall>j < i. rec_keyword (rs ! j) \<noteq> k))"
    by (simp add: find_Some_iff)
  finally show "recordvec_subscript rs k = Inr r \<longleftrightarrow>
      (\<exists>i. i < length rs \<and> rs ! i = r \<and> rec_keyword r = k \<and> list_all (\<lambda>r'. rec_keyword r' \<noteq> k) (take i rs))"
    by (auto simp: list_all_length)
  show "k \<notin> rec_keyword ` set rs \<longleftrightarrow> recordvec_subscript rs k = Inl (FitsError (''Cannot find record: '' @ k))"
  proof -
    have "k \<notin> rec_keyword ` set rs \<longleftrightarrow> find (\<lambda>r. rec_keyword r = k) rs = None"
      by (auto simp: find_None_iff image_iff)
    then show ?thesis
      by (cases "find (\<lambda>r. rec_keyword r = k) rs") (simp_all add: recordvec_subscript_def)
  qed
  show "recordvec_as cast rs k = rbind (recordvec_subscript rs k) (\<lambda>r. rbind (cast (rec_value r)) (\<lambda>v.
     Inr \<lparr>rec_keyword = rec_keyword r, rec_value = v, rec_unit = rec_unit r, rec_comment = rec_comment r\<rparr>))"
    by (simp add: recordvec_as_def record_convert_def [abs_def] record_init_def)
qed

end
