(* ===== verification/Fits_Keyword.thy ===== *)
theory Fits_Keyword
  imports Fits_Error
begin

unbundle bit_operations_syntax

text \<open>
  Keyword categories (\<^verbatim>\<open>EleFitsData/KeywordCategory.h\<close>, \<^verbatim>\<open>KeywordCategory.cpp\<close>).  A set of categories is the
  \<^verbatim>\<open>int\<close> of the source, a word of 32 bits; the standard keywords are the lists of the source.
\<close>

section \<open>Categories\<close>

type_synonym keyword_category = "32 word"

definition Mandatory :: keyword_category where "Mandatory = 1"
definition Reserved :: keyword_category where "Reserved = 2"
definition Comment :: keyword_category where "Comment = 4"
definition User :: keyword_category where "User = 8"
definition NoCategory :: keyword_category where "NoCategory = 0"
definition AllCategories :: keyword_category where "AllCategories = NOT NoCategory"

definition kc_eq :: "keyword_category \<Rightarrow> keyword_category \<Rightarrow> bool" where
  "kc_eq lhs rhs \<longleftrightarrow> lhs = rhs"

definition kc_neq :: "keyword_category \<Rightarrow> keyword_category \<Rightarrow> bool" where
  "kc_neq lhs rhs \<longleftrightarrow> lhs \<noteq> rhs"

definition kc_or :: "keyword_category \<Rightarrow> keyword_category \<Rightarrow> keyword_category" where
  "kc_or lhs rhs = lhs OR rhs"

definition kc_and :: "keyword_category \<Rightarrow> keyword_category \<Rightarrow> keyword_category" where
  "kc_and lhs rhs = lhs AND rhs"

definition kc_not :: "keyword_category \<Rightarrow> keyword_category" where
  "kc_not c = NOT c"

definition kc_bool :: "keyword_category \<Rightarrow> bool" where
  "kc_bool c \<longleftrightarrow> c \<noteq> 0"

definition m_mandatories :: "string list" where
  "m_mandatories = [''SIMPLE'', ''BITPIX'', ''NAXIS'', ''NAXISn'', ''END'', ''XTENSION'', ''PCOUNT'', ''GCOUNT'', ''EXTEND'']"

definition m_reserveds :: "string list" where
  "m_reserveds =
     [''AUTHOR'', ''BLANK'', ''BLOCKED'', ''BSCALE'', ''BUNIT'', ''BZERO'', ''CDELTn'', ''CROTAn'', ''CRPIXn'',
      ''CRVALn'', ''CTYPEn'', ''DATAMAX'', ''DATAMIN'', ''DATE'', ''DATE-OBS'', ''EPOCH'', ''EQUINOX'', ''EXTLEVEL'',
      ''EXTNAME'', ''EXTVER'', ''GROUPS'', ''INSTRUME'', ''OBJECT'', ''OBSERVER'', ''ORIGIN'', ''PSCALn'', ''PTYPEn'',
      ''PZEROn'', ''REFERENC'', ''TBCOLn'', ''TDIMn'', ''TDISPn'', ''TELESCOP'', ''TFIELDS'', ''TFORMn'', ''THEAP'',
      ''TNULLn'', ''TSCALn'', ''TTYPEn'', ''TUNITn'', ''TZEROn'']"

definition m_comments :: "string list" where
  "m_comments = [''COMMENT'', ''HISTORY'']"

text \<open>A \<^verbatim>\<open>std::map\<close> is visited in the order of its keys.\<close>

definition byCategory :: "(keyword_category \<times> string list) list" where
  "byCategory = [(Mandatory, m_mandatories), (Reserved, m_reserveds), (Comment, m_comments)]"

section \<open>Matching\<close>

text \<open>
  \<^verbatim>\<open>ref.length() - 1\<close> is computed on an unsigned type: for an empty reference it is the largest one, and
  no test string is that long.
\<close>

definition matchesIndexed :: "string \<Rightarrow> string \<Rightarrow> bool" where
  "matchesIndexed test ref =
     (if ref = [] then False
      else let split = length ref - 1 in
        if length test \<le> split then False
        else let name = take split test; index = drop split test in
          if name \<noteq> take split ref then False
          else if length index = 0 then False
          else list_all is_digit index)"

definition matches :: "string \<Rightarrow> string \<Rightarrow> bool" where
  "matches test ref = (if test = ref then True else matchesIndexed test ref)"

fun matchesOneOf :: "string \<Rightarrow> string list \<Rightarrow> bool" where
  "matchesOneOf keyword [] = False"
| "matchesOneOf keyword (ref # refs) = (if matches keyword ref then True else matchesOneOf keyword refs)"

fun any_standard :: "string \<Rightarrow> keyword_category \<Rightarrow> (keyword_category \<times> string list) list \<Rightarrow> bool" where
  "any_standard keyword categories [] = False"
| "any_standard keyword categories ((c, refs) # rest) =
     (if kc_bool (kc_and categories c) \<and> matchesOneOf keyword refs then True
      else any_standard keyword categories rest)"

fun none_standard :: "string \<Rightarrow> (keyword_category \<times> string list) list \<Rightarrow> bool" where
  "none_standard keyword [] = True"
| "none_standard keyword ((c, refs) # rest) =
     (if matchesOneOf keyword refs then False else none_standard keyword rest)"

definition belongsCategories :: "string \<Rightarrow> keyword_category \<Rightarrow> bool" where
  "belongsCategories keyword categories =
     (if keyword = ''CONTINUE'' then False
      else if any_standard keyword categories byCategory then True
      else if kc_bool (kc_and categories User) then none_standard keyword byCategory
      else False)"

text \<open>
  \<^verbatim>\<open>std::copy_if\<close> writes through an output iterator: the destination must already have the elements.
\<close>

fun copy_if_into :: "('a \<Rightarrow> bool) \<Rightarrow> 'a list \<Rightarrow> 'a list \<Rightarrow> int \<Rightarrow> ('a list \<times> int) result" where
  "copy_if_into P [] res it = Inr (res, it)"
| "copy_if_into P (x # xs) res it =
     (if P x then rbind (wr res it x) (\<lambda>res'. copy_if_into P xs res' (it + 1)) else copy_if_into P xs res it)"

definition filterCategories :: "string list \<Rightarrow> keyword_category \<Rightarrow> string list result" where
  "filterCategories keywords categories =
     rbind (copy_if_into (\<lambda>k. belongsCategories k categories) keywords [] 0)
       (\<lambda>(res, it). Inr (take (nat it) res @ replicate (nat it - length res) []))"

section \<open>The standard keywords form a partition\<close>

definition standard_keywords :: "string list" where
  "standard_keywords = m_mandatories @ m_reserveds @ m_comments"

lemma matchesOneOf_iff: "matchesOneOf k refs \<longleftrightarrow> (\<exists>ref \<in> set refs. matches k ref)"
  by (induction refs) auto

lemma matchesIndexed_iff:
  "matchesIndexed test ref \<longleftrightarrow>
   ref \<noteq> [] \<and> (\<exists>index. index \<noteq> [] \<and> list_all is_digit index \<and> test = butlast ref @ index)"
proof
  assume "matchesIndexed test ref"
  then have "ref \<noteq> []" "drop (length ref - 1) test \<noteq> []" "list_all is_digit (drop (length ref - 1) test)"
    "test = butlast ref @ drop (length ref - 1) test"
    by (auto simp: matchesIndexed_def Let_def butlast_conv_take split: if_splits) (metis append_take_drop_id)
  then show "ref \<noteq> [] \<and> (\<exists>index. index \<noteq> [] \<and> list_all is_digit index \<and> test = butlast ref @ index)"
    by blast
qed (auto simp: matchesIndexed_def Let_def butlast_conv_take)

lemma prefix_before_digits:
  assumes "p @ i = q @ j" and "i \<noteq> []" "list_all is_digit i" "j \<noteq> []" "list_all is_digit j"
    and "\<not> list_ex is_digit p" "\<not> list_ex is_digit q"
  shows "p = q"
proof -
  have tw: "takeWhile (\<lambda>c. \<not> is_digit c) (p @ i) = p" if "i \<noteq> []" "list_all is_digit i" "\<not> list_ex is_digit p" for p i
    using that by (cases i) (auto simp: list_ex_iff takeWhile_append)
  show ?thesis
    using tw [of i p] tw [of j q] assms by simp
qed

lemma matches_two:
  assumes "matches k r" and "matches k s" and "\<not> list_ex is_digit r" "\<not> list_ex is_digit s"
  shows "r = s \<or> butlast r = butlast s"
proof -
  have no: "\<not> list_ex is_digit (butlast r)" "\<not> list_ex is_digit (butlast s)"
    using assms(3,4) by (auto simp: list_ex_iff dest: in_set_butlastD)
  have dig: "list_ex is_digit t" if "matchesIndexed t u" for t u
    using that by (cases "drop (length (butlast u)) t") (auto simp: matchesIndexed_iff list_ex_iff list_all_iff)
  show ?thesis
    using assms dig [of k r] dig [of k s] no
    by (auto simp: matches_def matchesIndexed_iff split: if_splits dest!: prefix_before_digits)
qed

lemma standard_prefixes_distinct: "distinct (map butlast standard_keywords)"
  unfolding standard_keywords_def m_mandatories_def m_reserveds_def m_comments_def by code_simp

lemma standard_no_digit: "list_all (\<lambda>r. \<not> list_ex is_digit r) standard_keywords"
  unfolding standard_keywords_def m_mandatories_def m_reserveds_def m_comments_def by code_simp

lemma standard_match_unique:
  assumes "matches k r" "r \<in> set standard_keywords" and "matches k s" "s \<in> set standard_keywords"
  shows "r = s"
  using matches_two [OF assms(1,3)] assms standard_no_digit standard_prefixes_distinct
  by (auto simp: list_all_iff distinct_map inj_on_def)

lemma standard_disjoint:
  "\<not> (matchesOneOf k m_mandatories \<and> matchesOneOf k m_reserveds)"
  "\<not> (matchesOneOf k m_mandatories \<and> matchesOneOf k m_comments)"
  "\<not> (matchesOneOf k m_reserveds \<and> matchesOneOf k m_comments)"
proof -
  have "distinct standard_keywords"
    using standard_prefixes_distinct by (simp only: distinct_map)
  then show "\<not> (matchesOneOf k m_mandatories \<and> matchesOneOf k m_reserveds)"
    "\<not> (matchesOneOf k m_mandatories \<and> matchesOneOf k m_comments)"
    "\<not> (matchesOneOf k m_reserveds \<and> matchesOneOf k m_comments)"
    using standard_match_unique [of k] by (auto simp: matchesOneOf_iff standard_keywords_def)
qed

text \<open>The category of a keyword.\<close>

definition keyword_category_of :: "string \<Rightarrow> keyword_category" where
  "keyword_category_of k =
     (if matchesOneOf k m_mandatories then Mandatory
      else if matchesOneOf k m_reserveds then Reserved
      else if matchesOneOf k m_comments then Comment
      else User)"

text \<open>
  Every keyword but \<^verbatim>\<open>CONTINUE\<close> has exactly one category among mandatory, reserved, comment and user,
  and it belongs to a set of categories exactly when the bit of its category is set; in particular
  it belongs to a union when it belongs to one of the members, to all of the categories, and to
  none of the complement of its own.
\<close>

theorem keyword_partition:
  assumes "k \<noteq> ''CONTINUE''"
  shows "(belongsCategories k m \<longleftrightarrow> kc_bool (kc_and m (keyword_category_of k))) \<and>
         (\<exists>!c. c \<in> {Mandatory, Reserved, Comment, User} \<and> belongsCategories k c) \<and>
         (belongsCategories k (kc_or m n) \<longleftrightarrow> belongsCategories k m \<or> belongsCategories k n) \<and>
         belongsCategories k AllCategories \<and> \<not> belongsCategories k (kc_not (keyword_category_of k))"
proof -
  have bel: "belongsCategories k m \<longleftrightarrow> kc_bool (kc_and m (keyword_category_of k))" for m
    using assms standard_disjoint [of k] by (auto simp: belongsCategories_def byCategory_def keyword_category_of_def)
  have kc: "keyword_category_of k \<in> {Mandatory, Reserved, Comment, User}"
    by (simp add: keyword_category_of_def)
  have bits: "kc_bool (kc_and c d) \<longleftrightarrow> c = d"
    if "c \<in> {Mandatory, Reserved, Comment, User}" "d \<in> {Mandatory, Reserved, Comment, User}" for c d
    using that by (auto simp: kc_bool_def kc_and_def Mandatory_def Reserved_def Comment_def User_def)
  have "\<exists>!c. c \<in> {Mandatory, Reserved, Comment, User} \<and> belongsCategories k c"
    using kc bits bel by (intro ex1I [of _ "keyword_category_of k"]) auto
  moreover have "kc_bool (kc_and (kc_or m n) c) \<longleftrightarrow> kc_bool (kc_and m c) \<or> kc_bool (kc_and n c)" for c
    by (simp add: kc_bool_def kc_and_def kc_or_def bit.conj_disj_distrib2 or_eq_0_iff)
  moreover have "keyword_category_of k \<noteq> 0"
    using kc by (auto simp: Mandatory_def Reserved_def Comment_def User_def)
  ultimately show ?thesis
    using bel by (simp add: kc_bool_def kc_and_def kc_not_def AllCategories_def NoCategory_def)
qed

theorem keyword_partition_witness:
  "belongsCategories ''NAXIS2'' (kc_or Mandatory User) \<longleftrightarrow> belongsCategories ''NAXIS2'' Mandatory \<or> belongsCategories ''NAXIS2'' User"
  using keyword_partition [of "''NAXIS2''" Mandatory User] by simp

text \<open>
  A keyword matches a reference when it equals it, or when it is the reference without its last
  character, whatever that character is, followed by digits.  The documentation expects the
  reference to end with an \<open>n\<close>: without a check of it, keywords such as \<^verbatim>\<open>DAT1\<close> or \<^verbatim>\<open>SIMPL3\<close> count as
  standard ones.
\<close>

theorem matches_characterisation:
  "(matches test ref \<longleftrightarrow> test = ref \<or>
     ref \<noteq> [] \<and> (\<exists>index. index \<noteq> [] \<and> list_all is_digit index \<and> test = butlast ref @ index)) \<and>
   belongsCategories ''DAT1'' Reserved \<and> belongsCategories ''SIMPL3'' Mandatory \<and>
   \<not> belongsCategories ''DAT1'' User"
proof (intro conjI)
  show "matches test ref \<longleftrightarrow> test = ref \<or>
     ref \<noteq> [] \<and> (\<exists>index. index \<noteq> [] \<and> list_all is_digit index \<and> test = butlast ref @ index)"
    by (simp add: matches_def matchesIndexed_iff)
  show "belongsCategories ''DAT1'' Reserved" "belongsCategories ''SIMPL3'' Mandatory" "\<not> belongsCategories ''DAT1'' User"
    by code_simp+
qed

lemma copy_if_into_nothing:
  "\<forall>x \<in> set xs. \<not> P x \<Longrightarrow> copy_if_into P xs res it = Inr (res, it)"
  by (induction xs) auto

lemma copy_if_into_empty: "x \<in> set xs \<Longrightarrow> P x \<Longrightarrow> copy_if_into P xs [] 0 = Inl Undefined"
  by (induction xs) (auto simp: wr_def)

text \<open>
  \<^verbatim>\<open>filterCategories\<close> returns normally only when no keyword is kept: the selection is copied into an
  empty vector, so the first kept keyword is written past its end.
\<close>

theorem filterCategories_defined_iff:
  "filterCategories keywords categories =
     (if list_ex (\<lambda>k. belongsCategories k categories) keywords then Inl Undefined else Inr [])"
  by (auto simp: filterCategories_def copy_if_into_nothing copy_if_into_empty list_ex_iff)

end
