(* ===== verification/Fits_HduCategory.thy ===== *)
theory Fits_HduCategory
  imports Fits_Error
begin

text \<open>
  HDU categories and filters (\<^verbatim>\<open>EleFitsData/HduCategory.h\<close>, \<^verbatim>\<open>HduCategory.cpp\<close>).  A category is a mask of
  eight trits.  The in-place operators transform the mask trit by trit and may throw halfway, so they
  return the mask they leave behind together with the exception.  The abstract view of a category is
  the set of the total assignments (one boolean per trit) that satisfy its constraints.
\<close>

section \<open>The model\<close>

datatype trit = Unconstrained | First | Second

datatype trit_position =
    PrimaryExt | MetadataData | ImageBintable | IntFloatImage | RawCompressedImage
  | UntouchedTouched | ExistedCreated | ReadEdited

fun trit_index :: "trit_position \<Rightarrow> nat" where
  "trit_index PrimaryExt = 0"
| "trit_index MetadataData = 1"
| "trit_index ImageBintable = 2"
| "trit_index IntFloatImage = 3"
| "trit_index RawCompressedImage = 4"
| "trit_index UntouchedTouched = 5"
| "trit_index ExistedCreated = 6"
| "trit_index ReadEdited = 7"

definition TritCount :: nat where
  "TritCount = 8"

type_synonym category = "trit list"

definition category_init :: category where
  "category_init = replicate TritCount Unconstrained"

definition category_of :: "trit_position \<Rightarrow> trit \<Rightarrow> category" where
  "category_of pos v = category_init[trit_index pos := v]"

fun toggleFlag :: "trit \<Rightarrow> trit" where
  "toggleFlag First = Second"
| "toggleFlag Second = First"
| "toggleFlag Unconstrained = Unconstrained"

definition restrictFlag :: "trit \<Rightarrow> trit \<Rightarrow> trit result" where
  "restrictFlag lhs rhs =
     (if lhs = rhs then Inr lhs
      else if lhs = Unconstrained then Inr rhs
      else if rhs = Unconstrained then Inr lhs
      else Inl IncompatibleTrits)"

definition extendFlag :: "trit \<Rightarrow> trit \<Rightarrow> trit" where
  "extendFlag lhs rhs = (if lhs = rhs then lhs else Unconstrained)"

definition overwriteFlag :: "trit \<Rightarrow> trit \<Rightarrow> trit" where
  "overwriteFlag lhs rhs = (if rhs = Unconstrained then lhs else rhs)"

text \<open>
  \<^verbatim>\<open>transform\<close> overwrites the mask in place: when the operation throws at some trit, the previous ones
  have already been replaced.
\<close>

fun transform2 :: "(trit \<Rightarrow> trit \<Rightarrow> trit result) \<Rightarrow> category \<Rightarrow> category \<Rightarrow> fits_error option \<times> category" where
  "transform2 f (l # ls) (r # rs) =
     (case f l r of
        Inl e \<Rightarrow> (Some e, l # ls)
      | Inr t \<Rightarrow> (case transform2 f ls rs of (e, ts) \<Rightarrow> (e, t # ts)))"
| "transform2 f ls rs = (None, ls)"

definition cat_toggle :: "category \<Rightarrow> category" where
  "cat_toggle c = map toggleFlag c"

definition cat_restrict_assign :: "category \<Rightarrow> category \<Rightarrow> fits_error option \<times> category" where
  "cat_restrict_assign lhs rhs = transform2 restrictFlag lhs rhs"

definition cat_restrict :: "category \<Rightarrow> category \<Rightarrow> category result" where
  "cat_restrict lhs rhs =
     (case cat_restrict_assign lhs rhs of (Some e, _) \<Rightarrow> Inl e | (None, res) \<Rightarrow> Inr res)"

definition cat_extend :: "category \<Rightarrow> category \<Rightarrow> category" where
  "cat_extend lhs rhs = snd (transform2 (\<lambda>l r. Inr (extendFlag l r)) lhs rhs)"

definition cat_overwrite :: "category \<Rightarrow> category \<Rightarrow> category" where
  "cat_overwrite lhs rhs = snd (transform2 (\<lambda>l r. Inr (overwriteFlag l r)) lhs rhs)"

definition isInstance :: "category \<Rightarrow> category \<Rightarrow> bool" where
  "isInstance c model = (case cat_restrict c model of Inl _ \<Rightarrow> False | Inr res \<Rightarrow> res = c)"

text \<open>
  The named categories.  \<open>ok\<close> extracts the value of a restriction that does not throw; that none of
  the static initialisers throws is part of a theorem below.
\<close>

definition ok :: "category result \<Rightarrow> category" where
  "ok r = (case r of Inl _ \<Rightarrow> [] | Inr c \<Rightarrow> c)"

definition Any :: category where "Any = category_init"
definition Image :: category where "Image = category_of ImageBintable First"
definition Primary :: category where "Primary = ok (cat_restrict Image (category_of PrimaryExt First))"
definition Metadata :: category where "Metadata = category_of MetadataData First"
definition IntImage :: category where "IntImage = ok (cat_restrict Image (category_of IntFloatImage First))"
definition RawImage :: category where "RawImage = ok (cat_restrict Image (category_of RawCompressedImage First))"
definition Ext :: category where "Ext = category_of PrimaryExt Second"
definition Data :: category where "Data = cat_toggle Metadata"
definition Bintable :: category where "Bintable = ok (cat_restrict Ext (cat_toggle Image))"
definition FloatImage :: category where "FloatImage = ok (cat_restrict Image (category_of IntFloatImage Second))"
definition CompressedImageExt :: category where
  "CompressedImageExt = ok (cat_restrict Image (category_of RawCompressedImage Second))"
definition MetadataPrimary :: category where "MetadataPrimary = ok (cat_restrict Metadata Primary)"
definition DataPrimary :: category where "DataPrimary = ok (cat_restrict Data Primary)"
definition IntPrimary :: category where "IntPrimary = ok (cat_restrict IntImage Primary)"
definition FloatPrimary :: category where "FloatPrimary = ok (cat_restrict FloatImage Primary)"
definition ImageExt :: category where "ImageExt = ok (cat_restrict Image Ext)"
definition MetadataExt :: category where "MetadataExt = ok (cat_restrict Metadata Ext)"
definition DataExt :: category where "DataExt = ok (cat_restrict Data Ext)"
definition IntImageExt :: category where "IntImageExt = ok (cat_restrict IntImage Ext)"
definition FloatImageExt :: category where "FloatImageExt = ok (cat_restrict FloatImage Ext)"
definition Untouched :: category where "Untouched = category_of UntouchedTouched First"
definition Touched :: category where "Touched = cat_toggle Untouched"
definition Existed :: category where "Existed = category_of ExistedCreated First"
definition OnlyRead :: category where "OnlyRead = ok (cat_restrict Touched (category_of ReadEdited First))"
definition Edited :: category where "Edited = category_of ReadEdited Second"
definition Created :: category where "Created = ok (cat_restrict (cat_toggle Existed) Edited)"

lemmas category_constants =
  Any_def Image_def Primary_def Metadata_def IntImage_def RawImage_def Ext_def Data_def Bintable_def
  FloatImage_def CompressedImageExt_def MetadataPrimary_def DataPrimary_def IntPrimary_def
  FloatPrimary_def ImageExt_def MetadataExt_def DataExt_def IntImageExt_def FloatImageExt_def
  Untouched_def Touched_def Existed_def OnlyRead_def Edited_def Created_def

definition type_of :: "category \<Rightarrow> category" where
  "type_of c =
     (let t = c ! trit_index ImageBintable in
      if t = First then Image else if t = Second then Bintable else category_init)"

datatype handler_class = ClassHdu | ClassHeader | ClassImageHdu | ClassImageRaster | ClassBintableHdu | ClassBintableColumns

fun forClass :: "handler_class \<Rightarrow> category" where
  "forClass ClassHdu = Any"
| "forClass ClassHeader = Any"
| "forClass ClassImageHdu = Image"
| "forClass ClassImageRaster = Image"
| "forClass ClassBintableHdu = Bintable"
| "forClass ClassBintableColumns = Bintable"

section \<open>Filters\<close>

record hdu_filter =
  m_accept :: "category list"
  m_reject :: "category list"

definition filter_of :: "category \<Rightarrow> hdu_filter" where
  "filter_of c = \<lparr>m_accept = [c], m_reject = []\<rparr>"

definition filter_init :: "category list \<Rightarrow> category list \<Rightarrow> hdu_filter" where
  "filter_init acc rej = \<lparr>m_accept = acc, m_reject = rej\<rparr>"

definition filter_plus :: "hdu_filter \<Rightarrow> category \<Rightarrow> hdu_filter" where
  "filter_plus f c = f\<lparr>m_accept := m_accept f @ [c]\<rparr>"

definition filter_minus :: "hdu_filter \<Rightarrow> category \<Rightarrow> hdu_filter" where
  "filter_minus f c = f\<lparr>m_reject := m_reject f @ [c]\<rparr>"

definition filter_identity :: "hdu_filter \<Rightarrow> hdu_filter" where
  "filter_identity f = f"

definition filter_swap :: "hdu_filter \<Rightarrow> hdu_filter" where
  "filter_swap f = \<lparr>m_accept = m_reject f, m_reject = m_accept f\<rparr>"

text \<open>The loops of \<^verbatim>\<open>operator*=\<close> and \<^verbatim>\<open>operator/=\<close>: an exception leaves the list partly constrained.\<close>

fun constrain_all :: "category \<Rightarrow> category list \<Rightarrow> fits_error option \<times> category list" where
  "constrain_all k [] = (None, [])"
| "constrain_all k (a # as) =
     (case cat_restrict_assign a k of
        (Some e, a') \<Rightarrow> (Some e, a' # as)
      | (None, a') \<Rightarrow> (case constrain_all k as of (e, as') \<Rightarrow> (e, a' # as')))"

definition filter_times_assign :: "hdu_filter \<Rightarrow> category \<Rightarrow> fits_error option \<times> hdu_filter" where
  "filter_times_assign f k = (case constrain_all k (m_accept f) of (e, as) \<Rightarrow> (e, f\<lparr>m_accept := as\<rparr>))"

definition filter_divide_assign :: "hdu_filter \<Rightarrow> category \<Rightarrow> fits_error option \<times> hdu_filter" where
  "filter_divide_assign f k = (case constrain_all k (m_reject f) of (e, rs) \<Rightarrow> (e, f\<lparr>m_reject := rs\<rparr>))"

definition filter_times :: "hdu_filter \<Rightarrow> category \<Rightarrow> hdu_filter result" where
  "filter_times f k = (case filter_times_assign f k of (Some e, _) \<Rightarrow> Inl e | (None, g) \<Rightarrow> Inr g)"

definition filter_divide :: "hdu_filter \<Rightarrow> category \<Rightarrow> hdu_filter result" where
  "filter_divide f k = (case filter_divide_assign f k of (Some e, _) \<Rightarrow> Inl e | (None, g) \<Rightarrow> Inr g)"

fun any_instance :: "category \<Rightarrow> category list \<Rightarrow> bool" where
  "any_instance c [] = False"
| "any_instance c (m # ms) = (if isInstance c m then True else any_instance c ms)"

definition accepts :: "hdu_filter \<Rightarrow> category \<Rightarrow> bool" where
  "accepts f c =
     (if any_instance c (m_reject f) then False
      else if length (m_accept f) = 0 then True
      else any_instance c (m_accept f))"

text \<open>The filters that two categories, or one category, make.\<close>

definition category_plus :: "category \<Rightarrow> category \<Rightarrow> hdu_filter" where
  "category_plus lhs rhs = filter_init [lhs, rhs] []"

definition category_minus :: "category \<Rightarrow> category \<Rightarrow> hdu_filter" where
  "category_minus lhs rhs = filter_init [lhs] [rhs]"

definition category_positive :: "category \<Rightarrow> hdu_filter" where
  "category_positive rhs = filter_init [rhs] []"

definition category_negative :: "category \<Rightarrow> hdu_filter" where
  "category_negative rhs = filter_init [] [rhs]"

section \<open>The abstract view\<close>

fun trit_allows :: "trit \<Rightarrow> bool \<Rightarrow> bool" where
  "trit_allows Unconstrained b = True"
| "trit_allows First b = (\<not> b)"
| "trit_allows Second b = b"

definition den :: "category \<Rightarrow> bool list set" where
  "den c = {b. list_all2 trit_allows c b}"

abbreviation wf_category :: "category \<Rightarrow> bool" where
  "wf_category c \<equiv> length c = TritCount"

lemma den_Nil [simp]: "den [] = {[]}"
  by (simp add: den_def)

lemma den_Cons: "den (t # c) = {x # b | x b. trit_allows t x \<and> b \<in> den c}"
  by (auto simp: den_def list_all2_Cons1)

lemma trit_satisfiable: "\<exists>x. trit_allows t x"
  by (cases t) auto

lemma den_nonempty: "den c \<noteq> {}"
proof (induction c)
  case (Cons t c)
  moreover obtain x where "trit_allows t x" using trit_satisfiable by blast
  ultimately show ?case by (auto simp: den_Cons)
qed simp

lemma den_length: "b \<in> den c \<Longrightarrow> length b = length c"
  by (auto simp: den_def list_all2_lengthD)

lemma restrictFlag_Inr: "restrictFlag l r = Inr t \<Longrightarrow> trit_allows t x \<longleftrightarrow> trit_allows l x \<and> trit_allows r x"
  by (cases l; cases r) (auto simp: restrictFlag_def)

lemma restrictFlag_Inl: "restrictFlag l r = Inl e \<Longrightarrow> e = IncompatibleTrits \<and> \<not> (trit_allows l x \<and> trit_allows r x)"
  by (cases l; cases r) (auto simp: restrictFlag_def)

lemma cat_restrict_Nil [simp]: "cat_restrict [] [] = Inr []"
  by (simp add: cat_restrict_def cat_restrict_assign_def)

lemma cat_restrict_Cons:
  "cat_restrict (l # ls) (r # rs) = rbind (restrictFlag l r) (\<lambda>t. rbind (cat_restrict ls rs) (\<lambda>ts. Inr (t # ts)))"
  by (auto simp: cat_restrict_def cat_restrict_assign_def split: sum.splits prod.splits option.splits)

lemma cat_restrict_den:
  assumes "length a = length b"
  shows "(\<forall>c. cat_restrict a b = Inr c \<longrightarrow> length c = length a \<and> den c = den a \<inter> den b) \<and>
         (\<forall>e. cat_restrict a b = Inl e \<longrightarrow> e = IncompatibleTrits \<and> den a \<inter> den b = {})"
  using assms
proof (induction a b rule: list_induct2)
  case (Cons l ls r rs)
  show ?case
  proof (cases "restrictFlag l r")
    case (Inl e)
    then show ?thesis
      using restrictFlag_Inl [OF Inl] by (auto simp: cat_restrict_Cons den_Cons)
  next
    case (Inr t)
    show ?thesis
      using Cons.IH restrictFlag_Inr [OF Inr] Inr
      by (cases "cat_restrict ls rs") (auto simp: cat_restrict_Cons den_Cons)
  qed
qed simp

lemma trit_allows_le: "(\<forall>x. trit_allows s x \<longrightarrow> trit_allows t x) \<longleftrightarrow> t = Unconstrained \<or> s = t"
  by (cases s; cases t) auto

lemma den_Cons_subset: "den (s # a) \<subseteq> den (t # b) \<longleftrightarrow> (t = Unconstrained \<or> s = t) \<and> den a \<subseteq> den b"
  using den_nonempty [of a] trit_satisfiable [of s] trit_allows_le [of s t] by (auto simp: den_Cons)

lemma den_inject: "length a = length b \<Longrightarrow> den a = den b \<longleftrightarrow> a = b"
proof (induction a b rule: list_induct2)
  case (Cons s a t b)
  then show ?case
    using den_Cons_subset [of s a t b] den_Cons_subset [of t b s a] by auto
qed simp

section \<open>The interface of a restriction\<close>

text \<open>
  What filters rely on: categories stand for non-empty sets, distinct categories for distinct sets,
  and the restriction of two categories stands for the intersection, or fails when it is empty.
\<close>

locale restriction =
  fixes meet :: "'c \<Rightarrow> 'c \<Rightarrow> 'c result"
    and sem :: "'c \<Rightarrow> 'b set"
    and wf :: "'c \<Rightarrow> bool"
  assumes sem_inhabited: "sem a \<noteq> {}"
    and sem_inject: "wf a \<Longrightarrow> wf b \<Longrightarrow> sem a = sem b \<Longrightarrow> a = b"
    and meet_value: "wf a \<Longrightarrow> wf b \<Longrightarrow> meet a b = Inr c \<Longrightarrow> wf c \<and> sem c = sem a \<inter> sem b"
    and meet_error: "wf a \<Longrightarrow> wf b \<Longrightarrow> meet a b = Inl e \<Longrightarrow> sem a \<inter> sem b = {}"
begin

lemma meet_self_iff:
  assumes "wf a" and "wf b"
  shows "meet a b = Inr a \<longleftrightarrow> sem a \<subseteq> sem b"
proof
  assume "meet a b = Inr a"
  then show "sem a \<subseteq> sem b"
    using meet_value [OF assms] by blast
next
  assume sub: "sem a \<subseteq> sem b"
  show "meet a b = Inr a"
  proof (cases "meet a b")
    case (Inl e)
    then show ?thesis
      using meet_error [OF assms] sub sem_inhabited [of a] by blast
  next
    case (Inr c)
    then have "wf c" "sem c = sem a"
      using meet_value [OF assms] sub by blast+
    then show ?thesis
      using Inr sem_inject assms(1) by blast
  qed
qed

lemma meet_defined_iff:
  assumes "wf a" and "wf b"
  shows "(\<exists>c. meet a b = Inr c) \<longleftrightarrow> sem a \<inter> sem b \<noteq> {}"
proof (cases "meet a b")
  case (Inl e)
  then show ?thesis using meet_error [OF assms Inl] by simp
next
  case (Inr c)
  then show ?thesis using meet_value [OF assms Inr] sem_inhabited [of c] by auto
qed

end

interpretation hdu_restriction: restriction cat_restrict den "\<lambda>c. wf_category c"
proof
  fix a b c :: category and e
  show "den a \<noteq> {}"
    by (rule den_nonempty)
  show "wf_category a \<Longrightarrow> wf_category b \<Longrightarrow> den a = den b \<Longrightarrow> a = b"
    by (simp add: den_inject)
  show "wf_category a \<Longrightarrow> wf_category b \<Longrightarrow> cat_restrict a b = Inr c \<Longrightarrow> wf_category c \<and> den c = den a \<inter> den b"
    using cat_restrict_den [of a b] by simp
  show "wf_category a \<Longrightarrow> wf_category b \<Longrightarrow> cat_restrict a b = Inl e \<Longrightarrow> den a \<inter> den b = {}"
    using cat_restrict_den [of a b] by simp
qed

lemma isInstance_den: "wf_category a \<Longrightarrow> wf_category b \<Longrightarrow> isInstance a b \<longleftrightarrow> den a \<subseteq> den b"
  using hdu_restriction.meet_self_iff [of a b] by (auto simp: isInstance_def split: sum.splits)

lemma cat_extend_Cons [simp]: "cat_extend (l # ls) (r # rs) = extendFlag l r # cat_extend ls rs"
  by (simp add: cat_extend_def split: prod.splits)

lemma cat_extend_den:
  assumes "length a = length b"
  shows "length (cat_extend a b) = length a \<and>
         (\<forall>c. length c = length a \<longrightarrow> den (cat_extend a b) \<subseteq> den c \<longleftrightarrow> den a \<subseteq> den c \<and> den b \<subseteq> den c)"
  using assms
proof (induction a b rule: list_induct2)
  case (Cons s a t b)
  have "den (cat_extend (s # a) (t # b)) \<subseteq> den (u # d) \<longleftrightarrow> den (s # a) \<subseteq> den (u # d) \<and> den (t # b) \<subseteq> den (u # d)"
    if "length d = length a" for u d
    using Cons.IH that by (auto simp: den_Cons_subset extendFlag_def)
  then have "den (cat_extend (s # a) (t # b)) \<subseteq> den c \<longleftrightarrow> den (s # a) \<subseteq> den c \<and> den (t # b) \<subseteq> den c"
    if "length c = length (s # a)" for c
    using that by (cases c) simp_all
  then show ?case
    using Cons.IH by simp
qed (simp add: cat_extend_def)

lemma any_instance_iff: "any_instance c ms \<longleftrightarrow> (\<exists>m \<in> set ms. isInstance c m)"
  by (induction ms) auto

text \<open>
  C17: a category is an instance of a model exactly when every HDU state it allows is allowed by the
  model; restriction is intersection and throws \<^verbatim>\<open>IncompatibleTrits\<close> exactly when no state is left;
  extension is the least category above both operands.
\<close>

theorem category_lattice:
  assumes "wf_category a" and "wf_category b" and "wf_category c"
  shows "(isInstance a b \<longleftrightarrow> den a \<subseteq> den b) \<and>
         (\<forall>d. cat_restrict a b = Inr d \<longrightarrow> wf_category d \<and> den d = den a \<inter> den b) \<and>
         (cat_restrict a b = Inl IncompatibleTrits \<longleftrightarrow> den a \<inter> den b = {}) \<and>
         (isInstance (cat_extend a b) c \<longleftrightarrow> isInstance a c \<and> isInstance b c)"
proof (intro conjI)
  show "isInstance a b \<longleftrightarrow> den a \<subseteq> den b"
    using assms by (simp add: isInstance_den)
  show "\<forall>d. cat_restrict a b = Inr d \<longrightarrow> wf_category d \<and> den d = den a \<inter> den b"
    using cat_restrict_den [of a b] assms by simp
  show "cat_restrict a b = Inl IncompatibleTrits \<longleftrightarrow> den a \<inter> den b = {}"
    using cat_restrict_den [of a b] assms hdu_restriction.meet_defined_iff [of a b]
    by (cases "cat_restrict a b") auto
  show "isInstance (cat_extend a b) c \<longleftrightarrow> isInstance a c \<and> isInstance b c"
    using cat_extend_den [of a b] assms by (simp add: isInstance_den)
qed

theorem category_lattice_witness:
  "isInstance (cat_extend Primary Ext) Any \<longleftrightarrow> isInstance Primary Any \<and> isInstance Ext Any"
  using category_lattice [of Primary Ext Any]
  by (simp add: category_constants category_of_def category_init_def TritCount_def cat_restrict_def
      cat_restrict_assign_def restrictFlag_def ok_def eval_nat_numeral)

lemma constrain_all_spec:
  "constrain_all k as = (None, bs) \<longleftrightarrow> list_all2 (\<lambda>a b. cat_restrict a k = Inr b) as bs"
proof (induction as arbitrary: bs)
  case (Cons a as)
  obtain e a' where "cat_restrict_assign a k = (e, a')" by fastforce
  moreover obtain e' as' where "constrain_all k as = (e', as')" by fastforce
  ultimately show ?case
    using Cons.IH by (cases bs) (auto simp: cat_restrict_def split: option.splits)
qed auto

lemma constrained_any_instance:
  assumes "list_all2 (\<lambda>a b. cat_restrict a k = Inr b) as bs" and "wf_category c" and "wf_category k"
    and "\<forall>a \<in> set as. wf_category a"
  shows "any_instance c bs \<longleftrightarrow> any_instance c as \<and> isInstance c k"
  using assms
proof (induction as bs rule: list_all2_induct)
  case (Cons a as b bs)
  then have "wf_category b \<and> den b = den a \<inter> den k"
    using cat_restrict_den [of a k] by simp
  then have "isInstance c b \<longleftrightarrow> isInstance c a \<and> isInstance c k"
    using Cons.prems by (simp add: isInstance_den)
  then show ?case
    using Cons by auto
qed simp

lemma filter_times_Inr:
  "filter_times f k = Inr g \<longleftrightarrow>
   (\<exists>as. list_all2 (\<lambda>a b. cat_restrict a k = Inr b) (m_accept f) as \<and> g = f\<lparr>m_accept := as\<rparr>)"
  by (auto simp: filter_times_def filter_times_assign_def constrain_all_spec [symmetric] split: prod.splits option.splits)

text \<open>
  C16: a filter rejects first, then accepts; constraining a filter that has at least one accepted
  category keeps exactly the accepted inputs that are also instances of the constraint.
\<close>

theorem filter_semantics:
  assumes "wf_category c" and "\<forall>m \<in> set (m_accept f) \<union> set (m_reject f). wf_category m"
    and "wf_category k" and "m_accept f \<noteq> []" and "filter_times f k = Inr g"
  shows "(accepts f c \<longleftrightarrow> (\<forall>r \<in> set (m_reject f). \<not> den c \<subseteq> den r) \<and> (\<exists>a \<in> set (m_accept f). den c \<subseteq> den a)) \<and>
         (accepts g c \<longleftrightarrow> accepts f c \<and> isInstance c k)"
proof
  have "isInstance c m \<longleftrightarrow> den c \<subseteq> den m" if "m \<in> set (m_accept f) \<union> set (m_reject f)" for m
    using that assms(1,2) by (simp add: isInstance_den)
  then show "accepts f c \<longleftrightarrow> (\<forall>r \<in> set (m_reject f). \<not> den c \<subseteq> den r) \<and> (\<exists>a \<in> set (m_accept f). den c \<subseteq> den a)"
    using assms(4) by (simp add: accepts_def any_instance_iff)
  obtain as where rel: "list_all2 (\<lambda>a b. cat_restrict a k = Inr b) (m_accept f) as" and g: "g = f\<lparr>m_accept := as\<rparr>"
    using assms(5) unfolding filter_times_Inr by blast
  then have "as \<noteq> []"
    using assms(4) by auto
  then show "accepts g c \<longleftrightarrow> accepts f c \<and> isInstance c k"
    using constrained_any_instance [OF rel assms(1,3)] assms(2,4) g by (simp add: accepts_def)
qed

lemmas category_eval =
  category_of_def category_init_def TritCount_def cat_restrict_def cat_restrict_assign_def restrictFlag_def
  ok_def cat_toggle_def eval_nat_numeral

text \<open>The masks of the status categories, written out.\<close>

lemma status_values:
  "Untouched = [Unconstrained, Unconstrained, Unconstrained, Unconstrained, Unconstrained, First, Unconstrained, Unconstrained]"
  "Touched = [Unconstrained, Unconstrained, Unconstrained, Unconstrained, Unconstrained, Second, Unconstrained, Unconstrained]"
  "Edited = [Unconstrained, Unconstrained, Unconstrained, Unconstrained, Unconstrained, Unconstrained, Unconstrained, Second]"
  "Created = [Unconstrained, Unconstrained, Unconstrained, Unconstrained, Unconstrained, Unconstrained, Second, Second]"
  "OnlyRead = [Unconstrained, Unconstrained, Unconstrained, Unconstrained, Unconstrained, Second, Unconstrained, First]"
  "Existed = [Unconstrained, Unconstrained, Unconstrained, Unconstrained, Unconstrained, Unconstrained, First, Unconstrained]"
  by (simp_all add: category_constants category_eval)

theorem filter_semantics_witness:
  "accepts \<lparr>m_accept = [ImageExt], m_reject = [Metadata]\<rparr> FloatImageExt \<longleftrightarrow>
   accepts \<lparr>m_accept = [Image], m_reject = [Metadata]\<rparr> FloatImageExt \<and> isInstance FloatImageExt Ext"
  using filter_semantics [of FloatImageExt "\<lparr>m_accept = [Image], m_reject = [Metadata]\<rparr>" Ext "\<lparr>m_accept = [ImageExt], m_reject = [Metadata]\<rparr>"]
  by (simp add: category_constants category_eval filter_times_def filter_times_assign_def)

text \<open>
  Constraining a filter that only rejects (such as \<^verbatim>\<open>-HduCategory::Metadata\<close>) has no effect: its
  empty accept list stays empty, which accepts everything.  A filter constrained to images then
  still accepts binary tables.
\<close>

theorem constrained_rejection_unconstrained:
  "filter_times (category_negative r) k = Inr (category_negative r) \<and>
   (\<exists>g. filter_times (category_negative Metadata) (forClass ClassImageHdu) = Inr g \<and>
        accepts g (ok (cat_restrict Bintable Data)) \<and> \<not> isInstance (ok (cat_restrict Bintable Data)) Image)"
  by (simp add: category_constants category_eval filter_times_def filter_times_assign_def category_negative_def
      filter_init_def accepts_def isInstance_def)

text \<open>
  None of the static initialisers of the named categories throws, and the hierarchy is the
  documented one: a binary table is an extension and not an image, primaries are images, created HDUs
  are edited, read-only HDUs are touched and not edited; \<^verbatim>\<open>type()\<close> of a category is a model of it.
\<close>

theorem named_categories:
  "(\<forall>c \<in> set [Any, Image, Primary, Metadata, IntImage, RawImage, Ext, Data, Bintable, FloatImage, CompressedImageExt,
      MetadataPrimary, DataPrimary, IntPrimary, FloatPrimary, ImageExt, MetadataExt, DataExt, IntImageExt,
      FloatImageExt, Untouched, Touched, Existed, OnlyRead, Edited, Created].
      wf_category c \<and> isInstance c Any \<and> isInstance c c) \<and>
   isInstance Bintable Ext \<and> \<not> isInstance Bintable Image \<and> isInstance Primary Image \<and>
   isInstance Created Edited \<and> isInstance OnlyRead Touched \<and> \<not> isInstance OnlyRead Edited \<and>
   isInstance IntPrimary IntImage \<and> isInstance FloatImageExt ImageExt \<and> type_of FloatImageExt = Image \<and>
   type_of Bintable = Bintable"
  by (simp add: category_constants category_eval isInstance_def type_of_def)

theorem named_categories_witness:
  "wf_category Created \<and> isInstance Created Any"
  using named_categories by simp

end
