(* ===== verification/Fits_Cfitsio.thy ===== *)
theory Fits_Cfitsio
  imports Fits_Record Fits_Keyword Fits_HduCategory
begin

text \<open>
  The interface of the third-party library CFITSIO as the wrapper uses it, and the wrapper of its
  error codes (\<^verbatim>\<open>EleCfitsioWrapper/ErrorWrapper.h\<close>, \<^verbatim>\<open>ErrorWrapper.cpp\<close>).  CFITSIO is a parameter of the
  development: a record of functions on an arbitrary type \<open>'f\<close> of \<^verbatim>\<open>fitsfile\<close> states.  Each function
  returns the status code it leaves behind; theorems that depend on what CFITSIO does name the
  documented behaviour as a hypothesis.
\<close>

section \<open>Effects\<close>

text \<open>
  A method works on the state behind the \<^verbatim>\<open>fitsfile\<close> pointer and may throw: the state changes made
  before the exception remain.
\<close>

type_synonym ('f, 'a) io = "'f \<Rightarrow> 'f \<times> 'a result"

definition io_return :: "'a \<Rightarrow> ('f, 'a) io" where
  "io_return x = (\<lambda>f. (f, Inr x))"

definition io_throw :: "fits_error \<Rightarrow> ('f, 'a) io" where
  "io_throw e = (\<lambda>f. (f, Inl e))"

definition io_bind :: "('f, 'a) io \<Rightarrow> ('a \<Rightarrow> ('f, 'b) io) \<Rightarrow> ('f, 'b) io" where
  "io_bind m k = (\<lambda>f. case m f of (f', Inl e) \<Rightarrow> (f', Inl e) | (f', Inr x) \<Rightarrow> k x f')"

definition io_then :: "('f, 'a) io \<Rightarrow> ('f, 'b) io \<Rightarrow> ('f, 'b) io" where
  "io_then m n = io_bind m (\<lambda>_. n)"

text \<open>An action that only reads, and a pure computation that may throw.\<close>

definition io_read :: "('f \<Rightarrow> 'a result) \<Rightarrow> ('f, 'a) io" where
  "io_read g = (\<lambda>f. (f, g f))"

definition io_lift :: "'a result \<Rightarrow> ('f, 'a) io" where
  "io_lift r = (\<lambda>f. (f, r))"

fun io_foreach :: "('a \<Rightarrow> ('f, unit) io) \<Rightarrow> 'a list \<Rightarrow> ('f, unit) io" where
  "io_foreach g [] = io_return ()"
| "io_foreach g (x # xs) = io_then (g x) (io_foreach g xs)"

fun io_map :: "('a \<Rightarrow> ('f, 'b) io) \<Rightarrow> 'a list \<Rightarrow> ('f, 'b list) io" where
  "io_map g [] = io_return []"
| "io_map g (x # xs) = io_bind (g x) (\<lambda>y. io_bind (io_map g xs) (\<lambda>ys. io_return (y # ys)))"

lemma io_simps [simp]:
  "io_return a f1 = (f1, Inr a)"
  "io_throw e f2 = (f2, Inl e)"
  "io_read g f3 = (f3, g f3)"
  "io_lift r f4 = (f4, r)"
  by (simp_all add: io_return_def io_throw_def io_read_def io_lift_def)

lemma io_bind_apply: "io_bind m k f = (case m f of (f', Inl e) \<Rightarrow> (f', Inl e) | (f', Inr x) \<Rightarrow> k x f')"
  by (simp add: io_bind_def)

lemma io_bind_Inr [simp]: "m f = (f', Inr x) \<Longrightarrow> io_bind m k f = k x f'"
  by (simp add: io_bind_apply)

lemma io_bind_Inl [simp]: "m f = (f', Inl e) \<Longrightarrow> io_bind m k f = (f', Inl e)"
  by (simp add: io_bind_apply)

lemma io_then_Inr [simp]: "m f = (f', Inr x) \<Longrightarrow> io_then m n f = n f'"
  by (simp add: io_then_def)

lemma io_then_Inl [simp]: "m f = (f', Inl e) \<Longrightarrow> io_then m n f = (f', Inl e)"
  by (simp add: io_then_def)

lemma io_bind_success:
  "io_bind m k s = (s', Inr y) \<longleftrightarrow> (\<exists>s1 x. m s = (s1, Inr x) \<and> k x s1 = (s', Inr y))"
  by (auto simp: io_bind_apply split: prod.splits sum.splits)

text \<open>
  A relation between the states before and after a run, whether it succeeds or throws.  A relation that is reflexive and transitive
  holds along any composition of runs that preserve it.
\<close>

definition preserves :: "('s \<Rightarrow> 's \<Rightarrow> bool) \<Rightarrow> ('s, 'a) io \<Rightarrow> bool" where
  "preserves R m \<longleftrightarrow> (\<forall>s. R s (fst (m s)))"

lemma preservesD: "preserves R m \<Longrightarrow> m s = (s', r) \<Longrightarrow> R s s'"
  unfolding preserves_def by (metis fst_conv)

lemma preserves_state: "(\<And>s. preserves R (m s)) \<Longrightarrow> preserves R (\<lambda>s. m s s)"
  by (simp add: preserves_def)

locale kept_relation =
  fixes R :: "'s \<Rightarrow> 's \<Rightarrow> bool"
  assumes kept_refl: "R s s"
    and kept_trans: "R s t \<Longrightarrow> R t u \<Longrightarrow> R s u"
begin

lemma preserves_basic:
  "preserves R (io_return a)" "preserves R (io_throw e)" "preserves R (io_read g)" "preserves R (io_lift r)"
  by (simp_all add: preserves_def kept_refl)

lemma preserves_bind:
  assumes "preserves R m" and "\<And>x. preserves R (k x)"
  shows "preserves R (io_bind m k)"
  unfolding preserves_def
proof
  fix s
  obtain s1 r where 1: "m s = (s1, r)"
    by fastforce
  show "R s (fst (io_bind m k s))"
    using preservesD [OF assms(1) 1] preservesD [OF assms(2), of _ s1] 1 kept_trans
    by (cases r) (simp_all, metis surj_pair fst_conv)
qed

lemma preserves_then: "preserves R m \<Longrightarrow> preserves R n \<Longrightarrow> preserves R (io_then m n)"
  by (simp add: io_then_def preserves_bind)

lemma preserves_if: "preserves R m \<Longrightarrow> preserves R n \<Longrightarrow> preserves R (if b then m else n)"
  by simp

lemma preserves_option: "preserves R m \<Longrightarrow> (\<And>x. preserves R (k x)) \<Longrightarrow> preserves R (case o1 of None \<Rightarrow> m | Some x \<Rightarrow> k x)"
  by (cases o1) simp_all

lemma preserves_foreach: "(\<And>x. x \<in> set xs \<Longrightarrow> preserves R (g x)) \<Longrightarrow> preserves R (io_foreach g xs)"
  by (induction xs) (simp_all add: preserves_basic preserves_then del: io_simps)

lemmas preserves_rules = preserves_basic preserves_bind preserves_then preserves_if preserves_option preserves_foreach

end

lemma io_then_success:
  "io_then m n s = (s', Inr y) \<longleftrightarrow> (\<exists>s1 x. m s = (s1, Inr x) \<and> n s1 = (s', Inr y))"
  by (simp add: io_then_def io_bind_success)

section \<open>The interface of CFITSIO\<close>

text \<open>
  Readers return their outputs and the status code, writers the new state and the status code.
  Integer-valued record types are given by their type code; values are the payloads of records.
\<close>

record 'f cfitsio =
  api_get_hdu_num :: "'f \<Rightarrow> int"
  api_get_num_hdus :: "'f \<Rightarrow> int \<times> int"
  api_get_hdu_type :: "'f \<Rightarrow> int \<times> int"
  api_get_hduaddr :: "'f \<Rightarrow> (int \<times> int) \<times> int"
  api_movabs_hdu :: "int \<Rightarrow> 'f \<Rightarrow> 'f \<times> int"
  api_movrel_hdu :: "int \<Rightarrow> 'f \<Rightarrow> 'f \<times> int"
  api_movnam_hdu :: "int \<Rightarrow> string \<Rightarrow> int \<Rightarrow> 'f \<Rightarrow> 'f \<times> int"
  api_delete_hdu :: "'f \<Rightarrow> 'f \<times> int"
  api_create_img :: "value_type \<Rightarrow> int list \<Rightarrow> 'f \<Rightarrow> 'f \<times> int"
  api_verify_chksum :: "'f \<Rightarrow> (int \<times> int) \<times> int"
  api_write_chksum :: "'f \<Rightarrow> 'f \<times> int"
  api_file_mode :: "'f \<Rightarrow> int \<times> int"
  api_hdr2str :: "bool \<Rightarrow> 'f \<Rightarrow> string \<times> int"
  api_get_hdrspace :: "'f \<Rightarrow> int \<times> int"
  api_read_keyn :: "int \<Rightarrow> 'f \<Rightarrow> (string \<times> string) \<times> int"
  api_get_key_strlen :: "string \<Rightarrow> 'f \<Rightarrow> int \<times> int"
  api_read_key :: "value_type \<Rightarrow> string \<Rightarrow> 'f \<Rightarrow> (payload \<times> string) \<times> int"
  api_read_key_longstr :: "string \<Rightarrow> 'f \<Rightarrow> (string \<times> string) \<times> int"
  api_read_key_unit :: "string \<Rightarrow> 'f \<Rightarrow> string \<times> int"
  api_read_keyword :: "string \<Rightarrow> 'f \<Rightarrow> string \<times> int"
  api_get_keytype :: "string \<Rightarrow> char \<times> int"
  api_write_key :: "value_type \<Rightarrow> string \<Rightarrow> payload \<Rightarrow> string \<Rightarrow> 'f \<Rightarrow> 'f \<times> int"
  api_update_key :: "value_type \<Rightarrow> string \<Rightarrow> payload \<Rightarrow> string \<Rightarrow> 'f \<Rightarrow> 'f \<times> int"
  api_write_key_longwarn :: "'f \<Rightarrow> 'f \<times> int"
  api_write_key_longstr :: "string \<Rightarrow> string \<Rightarrow> string \<Rightarrow> 'f \<Rightarrow> 'f \<times> int"
  api_delete_key :: "string \<Rightarrow> 'f \<Rightarrow> 'f \<times> int"
  api_write_comment :: "string \<Rightarrow> 'f \<Rightarrow> 'f \<times> int"
  api_write_history :: "string \<Rightarrow> 'f \<Rightarrow> 'f \<times> int"
  api_get_img_equivtype :: "'f \<Rightarrow> int \<times> int"
  api_get_img_size :: "'f \<Rightarrow> int list \<times> int"
  api_is_compressed_image :: "'f \<Rightarrow> bool \<times> int"
  api_get_num_cols :: "'f \<Rightarrow> int \<times> int"
  api_get_num_rows :: "'f \<Rightarrow> int \<times> int"

text \<open>The status codes and constants of \<^verbatim>\<open>fitsio.h\<close> that the wrapper tests.\<close>

definition KEY_NO_EXIST :: int where "KEY_NO_EXIST = 202"
definition VALUE_UNDEFINED :: int where "VALUE_UNDEFINED = 204"
definition READONLY_FILE :: int where "READONLY_FILE = 112"
definition IMAGE_HDU :: int where "IMAGE_HDU = 0"
definition BINARY_TBL :: int where "BINARY_TBL = 2"
definition ANY_HDU :: int where "ANY_HDU = - 1"
definition READWRITE :: int where "READWRITE = 1"

section \<open>Errors\<close>

definition cfitsio_may_throw :: "int \<Rightarrow> string \<Rightarrow> unit result" where
  "cfitsio_may_throw st msg = (if st \<noteq> 0 then Inl (CfitsioError st msg) else Inr ())"

text \<open>A writer followed by \<^verbatim>\<open>CfitsioError::may_throw\<close>.\<close>

definition checked :: "('f \<Rightarrow> 'f \<times> int) \<Rightarrow> string \<Rightarrow> ('f, unit) io" where
  "checked w msg = (\<lambda>f. case w f of (f', st) \<Rightarrow> (f', cfitsio_may_throw st msg))"

text \<open>CFITSIO functions return at once when the status they are given is already an error.\<close>

definition after_status :: "int \<Rightarrow> ('f \<Rightarrow> 'f \<times> int) \<Rightarrow> 'f \<Rightarrow> 'f \<times> int" where
  "after_status st w f = (if st > 0 then (f, st) else w f)"

definition is_writable :: "'f cfitsio \<Rightarrow> 'f \<Rightarrow> bool" where
  "is_writable api f = (fst (api_file_mode api f) = READWRITE)"

definition may_throw_readonly :: "'f cfitsio \<Rightarrow> ('f, unit) io" where
  "may_throw_readonly api =
     io_read (\<lambda>f. if \<not> is_writable api f then Inl (CfitsioError READONLY_FILE []) else Inr ())"

lemma cfitsio_may_throw_simps [simp]:
  "cfitsio_may_throw 0 msg = Inr ()"
  "st \<noteq> 0 \<Longrightarrow> cfitsio_may_throw st msg' = Inl (CfitsioError st msg')"
  by (simp_all add: cfitsio_may_throw_def)

lemma checked_ok [simp]: "w f = (f', 0) \<Longrightarrow> checked w msg f = (f', Inr ())"
  by (simp add: checked_def)

end
