(* ===== verification/Fits_HeaderIo.thy ===== *)
theory Fits_HeaderIo
  imports Fits_Cfitsio
begin

text \<open>
  The header wrapper (\<^verbatim>\<open>EleCfitsioWrapper/HeaderWrapper.h\<close>, \<^verbatim>\<open>HeaderWrapper.cpp\<close>,
  \<^verbatim>\<open>impl/HeaderWrapper.hpp\<close>): listing, parsing, writing, updating and removing records, and the
  deduction of the type of a record from the text of its value.
\<close>

section \<open>Listing\<close>

definition read_header :: "'f cfitsio \<Rightarrow> bool \<Rightarrow> 'f \<Rightarrow> string result" where
  "read_header api inc_non_valued f =
     (case api_hdr2str api (\<not> inc_non_valued) f of (header, st) \<Rightarrow>
        rbind (cfitsio_may_throw st ''Cannot read the complete header'') (\<lambda>_. Inr header))"

fun list_keywords_loop :: "'f cfitsio \<Rightarrow> keyword_category \<Rightarrow> 'f \<Rightarrow> nat list \<Rightarrow> string list \<Rightarrow> string list" where
  "list_keywords_loop api categories f [] keywords = keywords"
| "list_keywords_loop api categories f (i # is) keywords =
     (let keyword = fst (fst (api_read_keyn api (int i + 1) f)) in
      list_keywords_loop api categories f is
        (if belongsCategories keyword categories then keywords @ [keyword] else keywords))"

definition list_keywords :: "'f cfitsio \<Rightarrow> keyword_category \<Rightarrow> 'f \<Rightarrow> string list" where
  "list_keywords api categories f = list_keywords_loop api categories f [0..<nat (fst (api_get_hdrspace api f))] []"

definition list_keywords_values :: "'f cfitsio \<Rightarrow> keyword_category \<Rightarrow> 'f \<Rightarrow> (string \<rightharpoonup> string)" where
  "list_keywords_values api categories f =
     fold (\<lambda>i records. case fst (api_read_keyn api (int i + 1) f) of (keyword, v) \<Rightarrow>
             if belongsCategories keyword categories then records(keyword \<mapsto> v) else records)
       [0..<nat (fst (api_get_hdrspace api f))] Map.empty"

definition has_keyword :: "'f cfitsio \<Rightarrow> string \<Rightarrow> 'f \<Rightarrow> bool result" where
  "has_keyword api keyword f =
     (case api_get_key_strlen api keyword f of (len, st) \<Rightarrow>
        if st = KEY_NO_EXIST then Inr False
        else rbind (cfitsio_may_throw st (''Cannot check if record exists: '' @ keyword)) (\<lambda>_. Inr True))"

section \<open>Parsing\<close>

text \<open>\<^verbatim>\<open>std::string::find\<close>: the position of the first occurrence.\<close>

fun starts_with :: "string \<Rightarrow> string \<Rightarrow> bool" where
  "starts_with [] s = True"
| "starts_with (c # cs) [] = False"
| "starts_with (c # cs) (d # ds) = (c = d \<and> starts_with cs ds)"

fun find_sub :: "string \<Rightarrow> string \<Rightarrow> nat option" where
  "find_sub m [] = (if m = [] then Some 0 else None)"
| "find_sub m (c # cs) = (if starts_with m (c # cs) then Some 0 else map_option Suc (find_sub m cs))"

definition erase_sub :: "nat \<Rightarrow> nat \<Rightarrow> string \<Rightarrow> string" where
  "erase_sub pos n s = take pos s @ drop (pos + n) s"

text \<open>The block that separates the comment from the unit in each \<^verbatim>\<open>parse_record\<close>.\<close>

definition separate_comment :: "'v fits_record \<Rightarrow> 'v fits_record" where
  "separate_comment r =
     (if rec_comment r = rec_unit r then r\<lparr>rec_comment := []\<rparr>
      else if rec_unit r \<noteq> [] then
        (let m = ''['' @ rec_unit r @ ''] '' in
         case find_sub m (rec_comment r) of
           None \<Rightarrow> r
         | Some pos \<Rightarrow> r\<lparr>rec_comment := erase_sub pos (length m) (rec_comment r)\<rparr>)
      else r)"

definition parse_record :: "'f cfitsio \<Rightarrow> value_type \<Rightarrow> string \<Rightarrow> 'f \<Rightarrow> payload fits_record result" where
  "parse_record api t keyword f =
     (case api_read_key api t keyword f of ((v, comment), st) \<Rightarrow>
      case (if st > 0 then ([], st) else api_read_key_unit api keyword f) of (unit, st') \<Rightarrow>
        rbind (cfitsio_may_throw st' (''Cannot parse record: '' @ keyword))
          (\<lambda>_. Inr (separate_comment (record_init keyword v unit comment))))"

text \<open>Booleans are read as integers; any non-zero integer is true.\<close>

definition payload_to_bool :: "payload \<Rightarrow> payload" where
  "payload_to_bool v = (case v of IntVal i \<Rightarrow> IntVal (if i = 0 then 0 else 1) | _ \<Rightarrow> v)"

definition parse_record_bool :: "'f cfitsio \<Rightarrow> string \<Rightarrow> 'f \<Rightarrow> payload fits_record result" where
  "parse_record_bool api keyword f =
     (case api_read_key api TBool keyword f of ((v, comment), st) \<Rightarrow>
      case (if st > 0 then ([], st) else api_read_key_unit api keyword f) of (unit, st') \<Rightarrow>
        rbind (cfitsio_may_throw st' (''Cannot parse Boolean record: '' @ keyword))
          (\<lambda>_. Inr (separate_comment (record_init keyword (payload_to_bool v) unit comment))))"

definition parse_record_string :: "'f cfitsio \<Rightarrow> string \<Rightarrow> 'f \<Rightarrow> payload fits_record result" where
  "parse_record_string api keyword f =
     (case api_get_key_strlen api keyword f of (len, st0) \<Rightarrow>
        rbind (cfitsio_may_throw st0 (''Cannot find string record: '' @ keyword)) (\<lambda>_.
        if len = 0 then Inr (record_init keyword (StrVal []) [] [])
        else
          (case api_read_key_longstr api keyword f of ((v, comment), st1) \<Rightarrow>
           case (if st1 > 0 then ([], st1) else api_read_key_unit api keyword f) of (unit, st2) \<Rightarrow>
           case (if st2 = VALUE_UNDEFINED then ([], 0) else (v, st2)) of (str_value, st3) \<Rightarrow>
             rbind (cfitsio_may_throw st3 (''Cannot parse string record: '' @ keyword))
               (\<lambda>_. Inr (separate_comment (record_init keyword (StrVal str_value) unit comment))))))"

section \<open>Type deduction\<close>

text \<open>\<^verbatim>\<open>std::stoll\<close> and \<^verbatim>\<open>std::stoull\<close>: spaces, a sign, then as many digits as there are.\<close>

fun drop_spaces :: "string \<Rightarrow> string" where
  "drop_spaces [] = []"
| "drop_spaces (c # cs) = (if c = CHR '' '' then drop_spaces cs else c # cs)"

definition parse_digits :: "string \<Rightarrow> nat result" where
  "parse_digits s =
     (let ds = takeWhile is_digit s in
      if ds = [] then Inl (StdException ''invalid_argument'') else Inr (string_to_nat ds))"

definition parse_int :: "string \<Rightarrow> int result" where
  "parse_int s =
     (case drop_spaces s of
        [] \<Rightarrow> Inl (StdException ''invalid_argument'')
      | c # cs \<Rightarrow>
          if c = CHR ''-'' then rbind (parse_digits cs) (\<lambda>n. Inr (- int n))
          else if c = CHR ''+'' then rbind (parse_digits cs) (\<lambda>n. Inr (int n))
          else rbind (parse_digits (c # cs)) (\<lambda>n. Inr (int n)))"

definition stoll :: "string \<Rightarrow> int result" where
  "stoll s = rbind (parse_int s) (\<lambda>v.
     if - (2 ^ 63) \<le> v \<and> v \<le> 2 ^ 63 - 1 then Inr v else Inl (StdException ''out_of_range''))"

text \<open>\<^verbatim>\<open>std::stoull\<close> negates a magnitude that follows a minus sign in the unsigned type.\<close>

definition stoull :: "string \<Rightarrow> int result" where
  "stoull s = rbind (parse_int s) (\<lambda>v.
     if \<bar>v\<bar> \<le> 2 ^ 64 - 1 then Inr (v mod 2 ^ 64) else Inl (StdException ''out_of_range''))"

definition neg_int_record_typeid_impl :: "string \<Rightarrow> value_type result" where
  "neg_int_record_typeid_impl v = rbind (stoll v) (\<lambda>parsed.
     if parsed \<ge> - (2 ^ 7) then Inr TChar
     else if parsed \<ge> - (2 ^ 15) then Inr TShort
     else if parsed \<ge> - (2 ^ 31) then Inr TInt
     else if parsed \<ge> - (2 ^ 63) then Inr TLong
     else Inr TLongLong)"

definition pos_int_record_typeid_impl :: "string \<Rightarrow> value_type result" where
  "pos_int_record_typeid_impl v = rbind (stoull v) (\<lambda>parsed.
     if parsed \<le> 2 ^ 8 - 1 then Inr TUChar
     else if parsed \<le> 2 ^ 16 - 1 then Inr TUShort
     else if parsed \<le> 2 ^ 32 - 1 then Inr TUInt
     else if parsed \<le> 2 ^ 64 - 1 then Inr TULong
     else Inr TULongLong)"

text \<open>\<^verbatim>\<open>value[0]\<close> of an empty string is its null terminator.\<close>

definition int_record_typeid_impl :: "string \<Rightarrow> value_type result" where
  "int_record_typeid_impl v =
     (if v \<noteq> [] \<and> hd v = CHR ''-'' then neg_int_record_typeid_impl v else pos_int_record_typeid_impl v)"

text \<open>The greatest finite \<^verbatim>\<open>float\<close>; \<^verbatim>\<open>std::stod\<close> is given as \<open>stod\<close>.\<close>

definition float_max :: real where
  "float_max = (2 - 1 / 2 ^ 23) * 2 ^ 127"

definition float_record_typeid_impl :: "(string \<Rightarrow> real result) \<Rightarrow> string \<Rightarrow> value_type result" where
  "float_record_typeid_impl stod v = rbind (stod v) (\<lambda>parsed.
     if parsed < - float_max then Inr TDouble
     else if parsed > float_max then Inr TDouble
     else Inr TFloat)"

definition substr :: "nat \<Rightarrow> int \<Rightarrow> string \<Rightarrow> string result" where
  "substr pos n s =
     (if pos > length s then Inl (StdException ''out_of_range'')
      else Inr (if n < 0 then drop pos s else take (nat n) (drop pos s)))"

definition complex_record_typeid_impl :: "(string \<Rightarrow> real result) \<Rightarrow> string \<Rightarrow> value_type result" where
  "complex_record_typeid_impl stod v =
     (case (find_sub '','' v, find_sub '')'' v) of
        (Some re_end, Some im_end) \<Rightarrow>
          rbind (substr 1 (int re_end - 1) v) (\<lambda>re.
          rbind (float_record_typeid_impl stod re) (\<lambda>re_type.
          if re_type = TDouble then Inr TComplexDouble
          else rbind (substr (re_end + 2) (int im_end - int (re_end + 2)) v) (\<lambda>im.
               rbind (float_record_typeid_impl stod im) (\<lambda>im_type.
               if im_type = TDouble then Inr TComplexDouble else Inr TComplexFloat))))
      | _ \<Rightarrow> Inl (FitsError (''Cannot parse complex value: '' @ v)))"

definition record_typeid :: "'f cfitsio \<Rightarrow> (string \<Rightarrow> real result) \<Rightarrow> string \<Rightarrow> 'f \<Rightarrow> value_type result" where
  "record_typeid api stod keyword f =
     (case api_read_keyword api keyword f of (v, st) \<Rightarrow>
        rbind (cfitsio_may_throw st (''Cannot read record: '' @ keyword)) (\<lambda>_.
        case api_get_keytype api v of (dtype, st') \<Rightarrow>
          rbind (cfitsio_may_throw st' (''Cannot deduce type code of record: '' @ keyword)) (\<lambda>_.
          if dtype = CHR ''C'' then Inr TString
          else if dtype = CHR ''L'' then Inr TBool
          else if dtype = CHR ''I'' then int_record_typeid_impl v
          else if dtype = CHR ''F'' then float_record_typeid_impl stod v
          else if dtype = CHR ''X'' then complex_record_typeid_impl stod v
          else Inl (FitsError (''Cannot deduce type code of record: '' @ keyword)))))"

text \<open>Parsing at a type known at run time.\<close>

definition parse_record_as :: "'f cfitsio \<Rightarrow> value_type \<Rightarrow> string \<Rightarrow> 'f \<Rightarrow> payload fits_record result" where
  "parse_record_as api t keyword f =
     (if t = TBool then parse_record_bool api keyword f
      else if t = TString then parse_record_string api keyword f
      else parse_record api t keyword f)"

definition parse_record_any :: "'f cfitsio \<Rightarrow> (string \<Rightarrow> real result) \<Rightarrow> string \<Rightarrow> 'f \<Rightarrow> variant fits_record result" where
  "parse_record_any api stod keyword f =
     rbind (record_typeid api stod keyword f) (\<lambda>t.
     rbind (parse_record_as api t keyword f) (record_convert (\<lambda>v. Inr (Variant t v))))"

definition parse_record_vec :: "'f cfitsio \<Rightarrow> value_type \<Rightarrow> string list \<Rightarrow> 'f \<Rightarrow> payload fits_record list result" where
  "parse_record_vec api t keywords f = rmap (\<lambda>k. parse_record_as api t k f) keywords"

definition parse_records_as :: "'f cfitsio \<Rightarrow> (value_type \<times> string) list \<Rightarrow> 'f \<Rightarrow> payload fits_record list result" where
  "parse_records_as api typed_keywords f = rmap (\<lambda>(t, k). parse_record_as api t k f) typed_keywords"

section \<open>Writing\<close>

definition write_record :: "'f cfitsio \<Rightarrow> value_type \<Rightarrow> payload fits_record \<Rightarrow> ('f, unit) io" where
  "write_record api t r =
     checked (api_write_key api t (rec_keyword r) (rec_value r) (raw_comment r)) (''Cannot write record: '' @ rec_keyword r)"

definition write_record_bool :: "'f cfitsio \<Rightarrow> payload fits_record \<Rightarrow> ('f, unit) io" where
  "write_record_bool api r =
     checked (api_write_key api TBool (rec_keyword r) (rec_value r) (raw_comment r))
       (''Cannot write Boolean record: '' @ rec_keyword r)"

definition string_payload :: "payload \<Rightarrow> string" where
  "string_payload v = (case v of StrVal s \<Rightarrow> s | _ \<Rightarrow> [])"

definition is_long_string :: "payload fits_record \<Rightarrow> bool" where
  "is_long_string r \<longleftrightarrow> length (string_payload (rec_value r)) > max_short_value_length"

definition write_record_string :: "'f cfitsio \<Rightarrow> payload fits_record \<Rightarrow> ('f, unit) io" where
  "write_record_string api r =
     checked (\<lambda>f.
         case (if is_long_string r then api_write_key_longwarn api f else (f, 0)) of (f', st) \<Rightarrow>
           after_status st (api_write_key_longstr api (rec_keyword r) (string_payload (rec_value r)) (raw_comment r)) f')
       (''Cannot write string record: '' @ rec_keyword r)"

definition write_record_as :: "'f cfitsio \<Rightarrow> value_type \<Rightarrow> payload fits_record \<Rightarrow> ('f, unit) io" where
  "write_record_as api t r =
     (if t = TBool then write_record_bool api r
      else if t = TString \<or> t = TCStr then write_record_string api r
      else write_record api t r)"

definition variant_payload_record :: "variant fits_record \<Rightarrow> payload fits_record" where
  "variant_payload_record r = record_init (rec_keyword r) (vload (rec_value r)) (rec_unit r) (rec_comment r)"

definition write_record_any :: "'f cfitsio \<Rightarrow> variant fits_record \<Rightarrow> ('f, unit) io" where
  "write_record_any api r = write_record_as api (vtype (rec_value r)) (variant_payload_record r)"

definition remove_record :: "'f cfitsio \<Rightarrow> string \<Rightarrow> ('f, unit) io" where
  "remove_record api keyword = checked (api_delete_key api keyword) (''Cannot delete record: '' @ keyword)"

definition update_record :: "'f cfitsio \<Rightarrow> value_type \<Rightarrow> payload fits_record \<Rightarrow> ('f, unit) io" where
  "update_record api t r =
     checked (api_update_key api t (rec_keyword r) (rec_value r) (raw_comment r)) (''Cannot update record: '' @ rec_keyword r)"

definition update_record_bool :: "'f cfitsio \<Rightarrow> payload fits_record \<Rightarrow> ('f, unit) io" where
  "update_record_bool api r =
     checked (api_update_key api TBool (rec_keyword r) (rec_value r) (raw_comment r))
       (''Cannot update Boolean record: '' @ rec_keyword r)"

text \<open>
  \<^verbatim>\<open>has_keyword(fptr, record)\<close> converts the record to its value: the keyword looked up is the value of
  the record, not its keyword.
\<close>

definition update_record_string :: "'f cfitsio \<Rightarrow> payload fits_record \<Rightarrow> ('f, unit) io" where
  "update_record_string api r =
     (if is_long_string r
      then io_bind (io_read (has_keyword api (string_payload (rec_value r)))) (\<lambda>found.
           io_then (if found then remove_record api (rec_keyword r) else io_return ())
             (write_record_string api r))
      else checked (api_update_key api TString (rec_keyword r) (rec_value r) (raw_comment r))
             (''Cannot update string record: '' @ rec_keyword r))"

definition update_record_as :: "'f cfitsio \<Rightarrow> value_type \<Rightarrow> payload fits_record \<Rightarrow> ('f, unit) io" where
  "update_record_as api t r =
     (if t = TBool then update_record_bool api r
      else if t = TString \<or> t = TCStr then update_record_string api r
      else update_record api t r)"

definition update_record_any :: "'f cfitsio \<Rightarrow> variant fits_record \<Rightarrow> ('f, unit) io" where
  "update_record_any api r = update_record_as api (vtype (rec_value r)) (variant_payload_record r)"

definition write_records :: "'f cfitsio \<Rightarrow> variant fits_record list \<Rightarrow> ('f, unit) io" where
  "write_records api rs = io_foreach (write_record_any api) rs"

definition update_records :: "'f cfitsio \<Rightarrow> variant fits_record list \<Rightarrow> ('f, unit) io" where
  "update_records api rs = io_foreach (update_record_any api) rs"

definition write_comment :: "'f cfitsio \<Rightarrow> string \<Rightarrow> ('f, unit) io" where
  "write_comment api comment = checked (api_write_comment api comment) ''Cannot write COMMENT record''"

definition write_history :: "'f cfitsio \<Rightarrow> string \<Rightarrow> ('f, unit) io" where
  "write_history api history = checked (api_write_history api history) ''Cannot write HISTORY record''"

section \<open>Comments and units\<close>

lemma starts_with_append [simp]: "starts_with m (m @ s)"
  by (induction m) auto

lemma find_sub_prefix: "m \<noteq> [] \<Longrightarrow> find_sub m (m @ s) = Some 0"
  by (cases m) auto

text \<open>
  The block that separates the comment from the unit inverts \<^verbatim>\<open>raw_comment\<close>: applied to the raw
  comment and the unit of any record it gives back the comment.
\<close>

lemma separate_comment_inverts:
  "separate_comment (r\<lparr>rec_comment := raw_comment r\<rparr>) = r"
proof (cases "rec_unit r = []")
  case True
  then show ?thesis
    by (cases r) (auto simp: separate_comment_def raw_comment_def)
next
  case False
  let ?m = "''['' @ rec_unit r @ ''] ''"
  have raw: "raw_comment r = ?m @ rec_comment r"
    using False by (simp add: raw_comment_def)
  then have "length (rec_unit r) < length (raw_comment r)"
    by simp
  then have "raw_comment r \<noteq> rec_unit r"
    by auto
  moreover have "find_sub ?m (raw_comment r) = Some 0"
    unfolding raw by (rule find_sub_prefix) simp
  ultimately show ?thesis
    using False raw by (cases r) (simp add: separate_comment_def Let_def erase_sub_def)
qed

text \<open>The unit CFITSIO finds in a comment: the text in square brackets at its start.\<close>

definition unit_of_comment :: "string \<Rightarrow> string" where
  "unit_of_comment c =
     (case c of
        d # cs \<Rightarrow> if d = CHR ''['' \<and> CHR '']'' \<in> set cs then takeWhile (\<lambda>x. x \<noteq> CHR '']'') cs else []
      | [] \<Rightarrow> [])"

text \<open>
  Documented behaviour of CFITSIO: a record written under a keyword that is not in the header yet is
  read back with its value and its comment, and the unit is that of the comment.
\<close>

definition reads_written_keys :: "'f cfitsio \<Rightarrow> bool" where
  "reads_written_keys api \<longleftrightarrow>
     (\<forall>t k v c f f'. has_keyword api k f = Inr False \<and> api_write_key api t k v c f = (f', 0) \<longrightarrow>
        api_read_key api t k f' = ((v, c), 0) \<and> api_read_key_unit api k f' = (unit_of_comment c, 0))"

text \<open>A record whose unit and comment can be told apart.\<close>

definition unambiguous :: "'v fits_record \<Rightarrow> bool" where
  "unambiguous r \<longleftrightarrow> CHR '']'' \<notin> set (rec_unit r) \<and> (rec_unit r = [] \<longrightarrow> unit_of_comment (rec_comment r) = [])"

lemma unit_of_raw_comment:
  assumes "unambiguous r"
  shows "unit_of_comment (raw_comment r) = rec_unit r"
proof (cases "rec_unit r = []")
  case True
  then show ?thesis
    using assms by (simp add: unambiguous_def raw_comment_def)
next
  case False
  then show ?thesis
    using assms by (auto simp: unambiguous_def raw_comment_def unit_of_comment_def takeWhile_append)
qed


text \<open>
  A header kept in memory, as the list of its records: an instance of the interface that has the
  documented behaviour, for the witnesses below.
\<close>

type_synonym mem_header = "(string \<times> payload \<times> string) list"

definition mem_strlen :: "string \<Rightarrow> mem_header \<Rightarrow> int \<times> int" where
  "mem_strlen k f =
     (case map_of f k of
        None \<Rightarrow> (0, KEY_NO_EXIST)
      | Some (v, c) \<Rightarrow> (case v of StrVal s \<Rightarrow> (int (length s), 0) | _ \<Rightarrow> (1, 0)))"

definition mem_read :: "string \<Rightarrow> mem_header \<Rightarrow> (payload \<times> string) \<times> int" where
  "mem_read k f = (case map_of f k of None \<Rightarrow> ((IntVal 0, []), KEY_NO_EXIST) | Some (v, c) \<Rightarrow> ((v, c), 0))"

definition mem_update :: "string \<Rightarrow> payload \<Rightarrow> string \<Rightarrow> mem_header \<Rightarrow> mem_header" where
  "mem_update k v c f =
     (if k \<in> fst ` set f then map (\<lambda>(k', w). if k' = k then (k', v, c) else (k', w)) f else f @ [(k, v, c)])"

definition mem_api :: "mem_header cfitsio" where
  "mem_api =
     \<lparr>api_get_hdu_num = \<lambda>f. 1, api_get_num_hdus = \<lambda>f. (1, 0), api_get_hdu_type = \<lambda>f. (IMAGE_HDU, 0),
      api_get_hduaddr = \<lambda>f. ((0, 2880), 0), api_movabs_hdu = \<lambda>i f. (f, 0), api_movrel_hdu = \<lambda>i f. (f, 0),
      api_movnam_hdu = \<lambda>t n v f. (f, 0), api_delete_hdu = \<lambda>f. (f, 0), api_create_img = \<lambda>t s f. (f, 0),
      api_verify_chksum = \<lambda>f. ((1, 1), 0), api_write_chksum = \<lambda>f. (f, 0), api_file_mode = \<lambda>f. (READWRITE, 0),
      api_hdr2str = \<lambda>b f. (concat (map fst f), 0), api_get_hdrspace = \<lambda>f. (int (length f), 0),
      api_read_keyn = \<lambda>i f. ((fst (f ! nat (i - 1)), []), 0),
      api_get_key_strlen = mem_strlen,
      api_read_key = \<lambda>t k f. mem_read k f,
      api_read_key_longstr = \<lambda>k f. case mem_read k f of ((v, c), st) \<Rightarrow> ((string_payload v, c), st),
      api_read_key_unit = \<lambda>k f. case mem_read k f of ((v, c), st) \<Rightarrow> (unit_of_comment c, st),
      api_read_keyword = \<lambda>k f. ([], 0), api_get_keytype = \<lambda>v. (CHR ''I'', 0),
      api_write_key = \<lambda>t k v c f. (f @ [(k, v, c)], 0),
      api_update_key = \<lambda>t k v c f. (mem_update k v c f, 0),
      api_write_key_longwarn = \<lambda>f. (f, 0),
      api_write_key_longstr = \<lambda>k s c f. (f @ [(k, StrVal s, c)], 0),
      api_delete_key = \<lambda>k f. (filter (\<lambda>(k', w). k' \<noteq> k) f, if k \<in> fst ` set f then 0 else KEY_NO_EXIST),
      api_write_comment = \<lambda>c f. (f @ [(''COMMENT'', StrVal [], c)], 0),
      api_write_history = \<lambda>h f. (f @ [(''HISTORY'', StrVal [], h)], 0),
      api_get_img_equivtype = \<lambda>f. (- 32, 0), api_get_img_size = \<lambda>f. ([2, 3], 0),
      api_is_compressed_image = \<lambda>f. (False, 0), api_get_num_cols = \<lambda>f. (0, 0), api_get_num_rows = \<lambda>f. (0, 0)\<rparr>"

lemma mem_api_simps [simp]:
  "api_get_key_strlen mem_api = mem_strlen"
  "api_read_key mem_api t k f = mem_read k f"
  "api_read_key_unit mem_api k f = (case mem_read k f of ((v, c), st) \<Rightarrow> (unit_of_comment c, st))"
  "api_write_key mem_api t k v c f = (f @ [(k, v, c)], 0)"
  "api_write_key_longstr mem_api k s c f = (f @ [(k, StrVal s, c)], 0)"
  "api_write_key_longwarn mem_api f = (f, 0)"
  "api_get_hdrspace mem_api f = (int (length f), 0)"
  "api_read_keyn mem_api i f = ((fst (f ! nat (i - 1)), []), 0)"
  "api_update_key mem_api t k v c f = (mem_update k v c f, 0)"
  "api_delete_key mem_api k f = (filter (\<lambda>(k', w). k' \<noteq> k) f, if k \<in> fst ` set f then 0 else KEY_NO_EXIST)"
  by (simp_all add: mem_api_def)

lemma mem_has_keyword: "has_keyword mem_api k f = Inr (map_of f k \<noteq> None)"
  by (auto simp: has_keyword_def mem_strlen_def KEY_NO_EXIST_def split: option.splits payload.splits)

lemma mem_reads_written_keys: "reads_written_keys mem_api"
  by (auto simp: reads_written_keys_def mem_has_keyword mem_read_def map_add_def split: option.splits)


section \<open>Type deduction\<close>

lemma digits_not_sign: "is_digit c \<Longrightarrow> c \<noteq> CHR ''-'' \<and> c \<noteq> CHR ''+'' \<and> c \<noteq> CHR '' ''"
  by (auto simp: is_digit_def)

lemma parse_digits_nat [simp]: "parse_digits (nat_to_string n) = Inr n"
proof -
  have "takeWhile is_digit (nat_to_string n) = nat_to_string n"
    using nat_to_string_digits by (simp add: takeWhile_eq_all_conv)
  note all = this
  show ?thesis
    unfolding parse_digits_def Let_def all by simp
qed

lemma parse_int_to_string: "parse_int (to_string v) = Inr v"
proof (cases "v < 0")
  case True
  then show ?thesis
    by (simp add: parse_int_def to_string_def)
next
  case False
  obtain c cs where n: "nat_to_string (nat v) = c # cs"
    by (cases "nat_to_string (nat v)") auto
  then have "is_digit c"
    using nat_to_string_digits [of "nat v"] by simp
  then show ?thesis
    using False n parse_digits_nat [of "nat v"] digits_not_sign by (simp add: parse_int_def to_string_def)
qed

definition is_signed_type :: "value_type \<Rightarrow> bool" where
  "is_signed_type t \<longleftrightarrow> t \<in> {TChar, TShort, TInt, TLong, TLongLong}"

text \<open>A type that holds a value, and whose range is included in that of any other such type of its signedness.\<close>

definition tightest_type :: "int \<Rightarrow> value_type \<Rightarrow> bool" where
  "tightest_type v t \<longleftrightarrow>
     (\<exists>lo hi. int_range t = Some (lo, hi) \<and> lo \<le> v \<and> v \<le> hi \<and>
        (\<forall>u lo' hi'. int_range u = Some (lo', hi') \<and> (is_signed_type u \<longleftrightarrow> is_signed_type t) \<and> lo' \<le> v \<and> v \<le> hi'
           \<longrightarrow> lo' \<le> lo \<and> hi \<le> hi'))"

lemma tightest_typeI:
  assumes "int_range t = Some (lo, hi)" "lo \<le> v" "v \<le> hi"
    and "\<And>u lo' hi'. int_range u = Some (lo', hi') \<Longrightarrow> is_signed_type u \<longleftrightarrow> is_signed_type t \<Longrightarrow> lo' \<le> v \<Longrightarrow> v \<le> hi'
           \<Longrightarrow> lo' \<le> lo \<and> hi \<le> hi'"
  shows "tightest_type v t"
  using assms unfolding tightest_type_def by blast

lemma signed_ranges:
  assumes "int_range u = Some (lo, hi)"
  shows "is_signed_type u \<Longrightarrow> (lo, hi) \<in> {(- 128, 127), (- 32768, 32767), (- 2147483648, 2147483647), (- 9223372036854775808, 9223372036854775807)}"
    and "\<not> is_signed_type u \<Longrightarrow> (lo, hi) \<in> {(0, 255), (0, 65535), (0, 4294967295), (0, 18446744073709551615)}"
  using assms by (cases u; auto simp: is_signed_type_def)+

lemma tightest_signed:
  "- 128 \<le> v \<Longrightarrow> v < 0 \<Longrightarrow> tightest_type v TChar"
  "- 32768 \<le> v \<Longrightarrow> v < - 128 \<Longrightarrow> tightest_type v TShort"
  "- 2147483648 \<le> v \<Longrightarrow> v < - 32768 \<Longrightarrow> tightest_type v TInt"
  "- 9223372036854775808 \<le> v \<Longrightarrow> v < - 2147483648 \<Longrightarrow> tightest_type v TLong"
  by (rule tightest_typeI, simp, simp, simp, drule signed_ranges(1), simp add: is_signed_type_def, auto)+

lemma tightest_unsigned:
  "0 \<le> v \<Longrightarrow> v \<le> 255 \<Longrightarrow> tightest_type v TUChar"
  "255 < v \<Longrightarrow> v \<le> 65535 \<Longrightarrow> tightest_type v TUShort"
  "65535 < v \<Longrightarrow> v \<le> 4294967295 \<Longrightarrow> tightest_type v TUInt"
  "4294967295 < v \<Longrightarrow> v \<le> 18446744073709551615 \<Longrightarrow> tightest_type v TULong"
  by (rule tightest_typeI, simp, simp, simp, drule signed_ranges(2), simp add: is_signed_type_def, auto)+

text \<open>
  The type deduced for an integer record can hold its value, is signed exactly for negative
  values, and no type of the same signedness with a smaller range can hold the value.
\<close>

theorem int_type_deduction:
  assumes "- (2 ^ 63) \<le> v" and "v < 2 ^ 64"
  shows "\<exists>t. int_record_typeid_impl (to_string v) = Inr t \<and> tightest_type v t \<and> (is_signed_type t \<longleftrightarrow> v < 0)"
proof (cases "v < 0")
  case True
  then have "int_record_typeid_impl (to_string v) = neg_int_record_typeid_impl (to_string v)"
    by (simp add: int_record_typeid_impl_def to_string_def)
  moreover have "stoll (to_string v) = Inr v"
    using True assms by (simp add: stoll_def parse_int_to_string)
  ultimately show ?thesis
    using True assms tightest_signed [of v] by (auto simp: neg_int_record_typeid_impl_def is_signed_type_def)
next
  case False
  then have "hd (to_string v) \<noteq> CHR ''-''"
    using nat_to_string_digits [of "nat v"] digits_not_sign by (cases "nat_to_string (nat v)") (auto simp: to_string_def)
  then have "int_record_typeid_impl (to_string v) = pos_int_record_typeid_impl (to_string v)"
    by (simp add: int_record_typeid_impl_def)
  moreover have "stoull (to_string v) = Inr v"
    using False assms by (simp add: stoull_def parse_int_to_string)
  ultimately show ?thesis
    using False assms tightest_unsigned [of v] by (auto simp: pos_int_record_typeid_impl_def is_signed_type_def)
qed

theorem int_type_deduction_witness:
  "\<exists>t. int_record_typeid_impl (to_string (- 300)) = Inr t \<and> tightest_type (- 300) t"
  using int_type_deduction [of "- 300"] by auto

section \<open>Listing and updating\<close>

lemma list_keywords_loop_filter:
  "list_keywords_loop api cs f is ks =
     ks @ filter (\<lambda>k. belongsCategories k cs) (map (\<lambda>i. fst (fst (api_read_keyn api (int i + 1) f))) is)"
  by (induction "is" arbitrary: ks) (simp_all add: Let_def)

text \<open>
  The listed keywords are those of the header, in order and with repetitions, that belong to the
  given categories.
\<close>

theorem list_keywords_filters:
  "list_keywords api cs f =
     filter (\<lambda>k. belongsCategories k cs)
       (map (\<lambda>i. fst (fst (api_read_keyn api (int i + 1) f))) [0..<nat (fst (api_get_hdrspace api f))])"
  by (simp add: list_keywords_def list_keywords_loop_filter)

text \<open>
  Updating a record with a long string value looks its value up instead of its keyword; when no
  keyword is spelled like the value, the existing record is not removed and a second one with the
  same keyword is written.
\<close>

theorem long_string_update_duplicates:
  assumes "is_long_string r" and "has_keyword api (string_payload (rec_value r)) f = Inr False"
  shows "update_record_string api r f = write_record_string api r f"
  using assms by (simp add: update_record_string_def io_bind_apply io_then_def)

theorem long_string_update_duplicates_witness:
  "update_record_string mem_api \<lparr>rec_keyword = ''KEY'', rec_value = StrVal (replicate 69 CHR ''a''), rec_unit = [], rec_comment = []\<rparr>
     [(''KEY'', StrVal ''old'', [])]
   = ([(''KEY'', StrVal ''old'', []), (''KEY'', StrVal (replicate 69 CHR ''a''), [])], Inr ())"
proof -
  let ?r = "\<lparr>rec_keyword = ''KEY'', rec_value = StrVal (replicate 69 CHR ''a''), rec_unit = [], rec_comment = []\<rparr>"
  have long: "is_long_string ?r"
    by (simp add: is_long_string_def string_payload_def max_short_value_length_def)
  moreover have "replicate 69 CHR ''a'' \<noteq> ''KEY''"
    by (simp add: eval_nat_numeral)
  then have "has_keyword mem_api (string_payload (rec_value ?r)) [(''KEY'', StrVal ''old'', [])] = Inr False"
    by (simp add: mem_has_keyword string_payload_def del: replicate.simps)
  ultimately show ?thesis
    using long_string_update_duplicates [of ?r mem_api "[(''KEY'', StrVal ''old'', [])]"]
    by (simp add: write_record_string_def checked_def after_status_def string_payload_def raw_comment_def)
qed

text \<open>A string record with an empty value loses its unit and its comment when it is parsed.\<close>

lemma parse_empty_string:
  "api_get_key_strlen api k f = (0, 0) \<Longrightarrow> parse_record_string api k f = Inr (record_init k (StrVal []) [] [])"
  by (simp add: parse_record_string_def)

end
