(* ===== verification/Fits_TypeCode.thy ===== *)
theory Fits_TypeCode
  imports Fits_HeaderIo
begin

text \<open>
  The type codes of the CFITSIO wrapper (\<^verbatim>\<open>EleCfitsioWrapper/TypeWrapper.h\<close>, \<^verbatim>\<open>impl/TypeWrapper.hpp\<close>)
  and the lookup of an image type from its code (\<^verbatim>\<open>ImageWrapper.cpp\<close>).  \<open>None\<close> stands for the types for
  which the source has no specialisation: such a use does not compile.
\<close>

section \<open>Codes\<close>

fun for_record :: "value_type \<Rightarrow> int option" where
  "for_record TBool = Some 14"
| "for_record TChar = Some 12"
| "for_record TShort = Some 21"
| "for_record TInt = Some 31"
| "for_record TLong = Some 41"
| "for_record TLongLong = Some 81"
| "for_record TFloat = Some 42"
| "for_record TDouble = Some 82"
| "for_record TComplexFloat = Some 83"
| "for_record TComplexDouble = Some 163"
| "for_record TString = Some 16"
| "for_record TUChar = Some 11"
| "for_record TUShort = Some 20"
| "for_record TUInt = Some 30"
| "for_record TULong = Some 40"
| "for_record TULongLong = Some 80"
| "for_record TCStr = None"

fun for_bintable :: "value_type \<Rightarrow> int option" where
  "for_bintable TBool = Some 1"
| "for_bintable TChar = Some 12"
| "for_bintable TShort = Some 21"
| "for_bintable TInt = Some 31"
| "for_bintable TLong = Some 41"
| "for_bintable TFloat = Some 42"
| "for_bintable TDouble = Some 82"
| "for_bintable TComplexFloat = Some 83"
| "for_bintable TComplexDouble = Some 163"
| "for_bintable TString = Some 16"
| "for_bintable TUChar = Some 11"
| "for_bintable TUShort = Some 20"
| "for_bintable TUInt = Some 30"
| "for_bintable TULong = Some 40"
| "for_bintable TULongLong = Some 80"
| "for_bintable t = None"

text \<open>The fixed-width types are \<^verbatim>\<open>short\<close>, \<^verbatim>\<open>int\<close>, \<^verbatim>\<open>long\<close> and their unsigned counterparts.\<close>

fun tform_code :: "value_type \<Rightarrow> char option" where
  "tform_code TBool = Some (CHR ''X'')"
| "tform_code TChar = Some (CHR ''S'')"
| "tform_code TShort = Some (CHR ''I'')"
| "tform_code TInt = Some (CHR ''J'')"
| "tform_code TLong = Some (CHR ''K'')"
| "tform_code TFloat = Some (CHR ''E'')"
| "tform_code TDouble = Some (CHR ''D'')"
| "tform_code TComplexFloat = Some (CHR ''C'')"
| "tform_code TComplexDouble = Some (CHR ''M'')"
| "tform_code TString = Some (CHR ''A'')"
| "tform_code TUChar = Some (CHR ''B'')"
| "tform_code TUShort = Some (CHR ''U'')"
| "tform_code TUInt = Some (CHR ''V'')"
| "tform_code TULong = Some (CHR ''W'')"
| "tform_code t = None"

definition tform :: "value_type \<Rightarrow> int \<Rightarrow> string option" where
  "tform t repeat_count = map_option (\<lambda>code. to_string repeat_count @ [code]) (tform_code t)"

fun for_image :: "value_type \<Rightarrow> int option" where
  "for_image TChar = Some 12"
| "for_image TShort = Some 21"
| "for_image TInt = Some 31"
| "for_image TLong = Some 41"
| "for_image TLongLong = Some 81"
| "for_image TFloat = Some 42"
| "for_image TDouble = Some 82"
| "for_image TUChar = Some 11"
| "for_image TUShort = Some 20"
| "for_image TUInt = Some 30"
| "for_image TULong = Some 40"
| "for_image TULongLong = Some 80"
| "for_image t = None"

fun bitpix :: "value_type \<Rightarrow> int option" where
  "bitpix TChar = Some 10"
| "bitpix TShort = Some 16"
| "bitpix TInt = Some 32"
| "bitpix TLong = Some 64"
| "bitpix TFloat = Some (- 32)"
| "bitpix TDouble = Some (- 64)"
| "bitpix TUChar = Some 8"
| "bitpix TUShort = Some 20"
| "bitpix TUInt = Some 40"
| "bitpix TULong = Some 80"
| "bitpix t = None"

text \<open>The types a raster can have, in the order of the macro that enumerates them.\<close>

definition raster_types :: "value_type list" where
  "raster_types = [TChar, TShort, TInt, TLong, TFloat, TDouble, TUChar, TUShort, TUInt, TULong]"

definition record_types :: "value_type list" where
  "record_types =
     [TBool, TChar, TShort, TInt, TLong, TLongLong, TFloat, TDouble, TComplexFloat, TComplexDouble, TString,
      TUChar, TUShort, TUInt, TULong, TULongLong]"

definition column_types :: "value_type list" where
  "column_types =
     [TChar, TShort, TInt, TLong, TFloat, TDouble, TComplexFloat, TComplexDouble, TString, TUChar, TUShort, TUInt, TULong]"

fun first_with_bitpix :: "int \<Rightarrow> value_type list \<Rightarrow> value_type result" where
  "first_with_bitpix code [] = Inl (FitsError (''Unknown BITPIX: '' @ to_string code))"
| "first_with_bitpix code (t # ts) = (if bitpix t = Some code then Inr t else first_with_bitpix code ts)"

definition read_typeid :: "'f cfitsio \<Rightarrow> 'f \<Rightarrow> value_type result" where
  "read_typeid api f =
     (case api_get_img_equivtype api f of (code, st) \<Rightarrow>
        rbind (cfitsio_may_throw st ''Cannot read image type'') (\<lambda>_. first_with_bitpix code raster_types))"

definition read_shape_dynamic :: "'f cfitsio \<Rightarrow> 'f \<Rightarrow> int list result" where
  "read_shape_dynamic api f =
     (case api_get_img_size api f of (shape, st) \<Rightarrow>
        rbind (cfitsio_may_throw st ''Cannot read raster shape'') (\<lambda>_. Inr shape))"

definition is_compressed :: "'f cfitsio \<Rightarrow> 'f \<Rightarrow> bool result" where
  "is_compressed api f =
     (case api_is_compressed_image api f of (b, st) \<Rightarrow>
        rbind (cfitsio_may_throw st ''Cannot determine if image is compressed.'') (\<lambda>_. Inr b))"

section \<open>The codes identify the types\<close>

lemma distinct_codes: "distinct (map bitpix raster_types)"
  by (simp add: raster_types_def)

lemma first_with_bitpix_nth:
  "distinct (map bitpix ts) \<Longrightarrow> t \<in> set ts \<Longrightarrow> bitpix t = Some code \<Longrightarrow> first_with_bitpix code ts = Inr t"
proof (induction ts)
  case (Cons s ts)
  then show ?case
    by (metis first_with_bitpix.simps(2) distinct.simps(2) image_eqI list.set_map list.simps(9) set_ConsD)
qed simp

text \<open>
  C35: every type has its codes where the source uses them, distinct types have distinct codes, so
  that the type of an image is read back from the code it was created with, and the format of a
  column determines its type and repeat count.
\<close>

theorem type_codes_identify:
  "(t \<in> set raster_types \<longrightarrow>
      (\<exists>code. bitpix t = Some code \<and> (api_get_img_equivtype api f = (code, 0) \<longrightarrow> read_typeid api f = Inr t))) \<and>
   distinct (map for_record record_types) \<and> distinct (map for_bintable column_types) \<and>
   (s \<in> set column_types \<and> u \<in> set column_types \<and> 0 \<le> n \<and> 0 \<le> m \<and> tform s n = tform u m \<longrightarrow> s = u \<and> n = m)"
proof (intro conjI impI)
  assume t: "t \<in> set raster_types"
  then have "bitpix t \<noteq> None"
    by (auto simp: raster_types_def)
  then obtain code where "bitpix t = Some code" by blast
  then show "\<exists>code. bitpix t = Some code \<and> (api_get_img_equivtype api f = (code, 0) \<longrightarrow> read_typeid api f = Inr t)"
    using first_with_bitpix_nth [OF distinct_codes t] by (auto simp: read_typeid_def)
next
  show "distinct (map for_record record_types)" "distinct (map for_bintable column_types)"
    by (simp_all add: record_types_def column_types_def)
next
  assume a: "s \<in> set column_types \<and> u \<in> set column_types \<and> 0 \<le> n \<and> 0 \<le> m \<and> tform s n = tform u m"
  obtain c d where cd: "tform_code s = Some c" "tform_code u = Some d"
    using a by (auto simp: column_types_def)
  then have "to_string n = to_string m" "c = d"
    using a by (auto simp: tform_def)
  moreover have "s = u" if "tform_code s = tform_code u" "tform_code s \<noteq> None" for s u
    using that by (cases s; cases u) auto
  ultimately show "s = u" "n = m"
    using a cd by (auto simp: to_string_def nat_to_string_inject)
qed

theorem type_codes_identify_witness:
  "read_typeid mem_api [] = Inr TFloat"
  using type_codes_identify [of TFloat mem_api "[]"] by (simp add: raster_types_def mem_api_def)

end
