(* ===== verification/Fits_Vector.thy ===== *)
theory Fits_Vector
  imports Fits_Error
begin

text \<open>
  The containers every data class is built from (\<^verbatim>\<open>EleFitsData/DataContainer.h\<close>,
  \<^verbatim>\<open>ContiguousContainer.h\<close>, \<^verbatim>\<open>VectorArithmetic.h\<close>): a container is the list of its elements.
  The in-place loops of \<^verbatim>\<open>generate\<close> and \<^verbatim>\<open>apply\<close> are modelled as loops over the mutated storage,
  because \<^verbatim>\<open>apply\<close> reads the container it is writing.
\<close>

section \<open>Holders\<close>

text \<open>\<^verbatim>\<open>data\<close> is a pointer that may be null: an optional list, of at least \<open>sz\<close> elements.\<close>

definition holder_vector :: "'a \<Rightarrow> nat \<Rightarrow> 'a list option \<Rightarrow> 'a list result" where
  "holder_vector zero sz data =
     (case data of
        None \<Rightarrow> Inr (replicate sz zero)
      | Some xs \<Rightarrow> if sz \<le> length xs then Inr (take sz xs) else Inl Undefined)"

definition holder_array :: "nat \<Rightarrow> 'a \<Rightarrow> nat \<Rightarrow> 'a list option \<Rightarrow> 'a list result" where
  "holder_array N zero sz data =
     (if sz \<noteq> N \<and> sz \<noteq> 0
      then Inl (FitsError (''Size mismatch in DataContainerHolder<std::array> specialization. '' @
             ''Got '' @ to_string (int sz) @ '', should be 0 or '' @ to_string (int N) @ ''.''))
      else case data of
        None \<Rightarrow> Inr (replicate N zero)
      | Some xs \<Rightarrow> if sz \<le> length xs then Inr (take sz xs @ drop sz (replicate N zero))
                   else Inl Undefined)"

lemma holder_array_length: "holder_array N z sz data = Inr xs \<Longrightarrow> length xs = N"
  by (auto simp: holder_array_def split: if_splits option.splits)

lemma holder_array_copies:
  "length xs = N \<Longrightarrow> holder_array N z N (Some xs) = Inr xs"
  by (simp add: holder_array_def)

section \<open>Contiguous containers\<close>

definition container_emtpy :: "'a list \<Rightarrow> bool" where
  "container_emtpy xs \<longleftrightarrow> length xs = 0"

definition container_subscript :: "'a list \<Rightarrow> int \<Rightarrow> 'a result" where
  "container_subscript xs index = rd xs index"

fun std_equal :: "'a list \<Rightarrow> 'a list \<Rightarrow> bool" where
  "std_equal [] ys = True"
| "std_equal (x # xs) [] = False"
| "std_equal (x # xs) (y # ys) = (x = y \<and> std_equal xs ys)"

definition container_eq :: "'a list \<Rightarrow> 'a list \<Rightarrow> bool" where
  "container_eq lhs rhs \<longleftrightarrow> length lhs = length rhs \<and> std_equal lhs rhs"

definition container_neq :: "'a list \<Rightarrow> 'a list \<Rightarrow> bool" where
  "container_neq lhs rhs \<longleftrightarrow> \<not> container_eq lhs rhs"

lemma std_equal_iff: "length xs = length ys \<Longrightarrow> std_equal xs ys \<longleftrightarrow> xs = ys"
  by (induction xs ys rule: std_equal.induct) auto

lemma container_eq_iff [simp]: "container_eq xs ys \<longleftrightarrow> xs = ys"
  using std_equal_iff by (auto simp: container_eq_def)

text \<open>
  \<^verbatim>\<open>operator<<\<close>: the elements, given here as already printed strings, with the middle elided when
  there are more than seven.  The index \<open>i\<close> of the source is a loop variable shared by the loops.
\<close>

definition show_container :: "string list \<Rightarrow> string" where
  "show_container items =
     (let size = length items;
          rest = (\<lambda>i. concat (map (\<lambda>k. '', '' @ items ! k) [i + 1..<size]))
      in ''['' @
         (if container_emtpy items then []
          else items ! 0 @
            (if size > 7
             then concat (map (\<lambda>k. '', '' @ items ! k) [1..<3]) @ '' ... '' @ items ! (size - 3) @
                  rest (size - 3)
             else rest 0)) @ '']'')"

section \<open>Vector arithmetic\<close>

text \<open>
  \<^verbatim>\<open>std::transform\<close> over two ranges requires the second to be at least as long as the first
  (fixed-dimension operands always have equal lengths); \<^const>\<open>map2\<close> coincides with it there.
\<close>

definition op_identity :: "'a list \<Rightarrow> 'a list" where
  "op_identity xs = xs"

definition op_negate :: "'a::uminus list \<Rightarrow> 'a list" where
  "op_negate xs = map (\<lambda>r. - r) xs"

definition op_plus :: "'a::plus list \<Rightarrow> 'a list \<Rightarrow> 'a list" where
  "op_plus lhs rhs = map2 (+) lhs rhs"

definition op_plus_scalar :: "'a::plus list \<Rightarrow> 'a \<Rightarrow> 'a list" where
  "op_plus_scalar lhs rhs = map (\<lambda>l. l + rhs) lhs"

definition op_minus :: "'a::minus list \<Rightarrow> 'a list \<Rightarrow> 'a list" where
  "op_minus lhs rhs = map2 (-) lhs rhs"

definition op_minus_scalar :: "'a::minus list \<Rightarrow> 'a \<Rightarrow> 'a list" where
  "op_minus_scalar lhs rhs = map (\<lambda>l. l - rhs) lhs"

definition op_times_scalar :: "'a::times list \<Rightarrow> 'a \<Rightarrow> 'a list" where
  "op_times_scalar lhs rhs = map (\<lambda>l. l * rhs) lhs"

text \<open>Integer division truncates towards zero in C++.\<close>

definition trunc_div :: "int \<Rightarrow> int \<Rightarrow> int" where
  "trunc_div a b = sgn a * sgn b * (\<bar>a\<bar> div \<bar>b\<bar>)"

definition op_divide_scalar :: "int list \<Rightarrow> int \<Rightarrow> int list result" where
  "op_divide_scalar lhs rhs =
     (if rhs = 0 \<and> lhs \<noteq> [] then Inl Undefined else Inr (map (\<lambda>l. trunc_div l rhs) lhs))"

definition op_increment :: "int list \<Rightarrow> int list" where
  "op_increment xs = map (\<lambda>r. r + 1) xs"

definition op_decrement :: "int list \<Rightarrow> int list" where
  "op_decrement xs = map (\<lambda>r. r - 1) xs"

text \<open>
  \<^verbatim>\<open>generate\<close>: element \<open>i\<close> of the container becomes \<open>func\<close> of the \<open>i\<close>-th elements of the argument
  containers, which must be at least as long.  In \<^verbatim>\<open>apply\<close> the first argument is the container
  itself, read through its own storage while the loop overwrites it.
\<close>

fun generate_loop :: "('a list \<Rightarrow> 'a) \<Rightarrow> 'a list list \<Rightarrow> nat \<Rightarrow> nat \<Rightarrow> 'a list \<Rightarrow> 'a list result" where
  "generate_loop func args i 0 self = Inr self"
| "generate_loop func args i (Suc n) self =
     rbind (rmap (\<lambda>a. rd a (int i)) args) (\<lambda>vs.
     rbind (wr self (int i) (func vs)) (\<lambda>self'.
     generate_loop func args (i + 1) n self'))"

definition generate :: "('a list \<Rightarrow> 'a) \<Rightarrow> 'a list list \<Rightarrow> 'a list \<Rightarrow> 'a list result" where
  "generate func args self = generate_loop func args 0 (length self) self"

fun apply_loop :: "('a list \<Rightarrow> 'a) \<Rightarrow> 'a list list \<Rightarrow> nat \<Rightarrow> nat \<Rightarrow> 'a list \<Rightarrow> 'a list result" where
  "apply_loop func args i 0 self = Inr self"
| "apply_loop func args i (Suc n) self =
     rbind (rmap (\<lambda>a. rd a (int i)) (self # args)) (\<lambda>vs.
     rbind (wr self (int i) (func vs)) (\<lambda>self'.
     apply_loop func args (i + 1) n self'))"

definition apply_in_place :: "('a list \<Rightarrow> 'a) \<Rightarrow> 'a list list \<Rightarrow> 'a list \<Rightarrow> 'a list result" where
  "apply_in_place func args self = apply_loop func args 0 (length self) self"

section \<open>Laws\<close>

lemma op_lengths [simp, vec_simps]:
  "length (op_negate as) = length as"
  "length (op_plus bs cs) = min (length bs) (length cs)"
  "length (op_minus ds es) = min (length ds) (length es)"
  "length (op_plus_scalar fs k) = length fs"
  "length (op_minus_scalar gs l) = length gs"
  by (simp_all add: op_negate_def op_plus_def op_minus_def op_plus_scalar_def op_minus_scalar_def)

lemma op_nth [simp]:
  "i < length as \<Longrightarrow> op_negate as ! i = - as ! i"
  "i < length bs \<Longrightarrow> i < length cs \<Longrightarrow> op_plus bs cs ! i = bs ! i + cs ! i"
  "i < length ds \<Longrightarrow> i < length es \<Longrightarrow> op_minus ds es ! i = ds ! i - es ! i"
  "i < length fs \<Longrightarrow> op_plus_scalar fs k ! i = fs ! i + k"
  "i < length gs \<Longrightarrow> op_minus_scalar gs l ! i = gs ! i - l"
  by (simp_all add: op_negate_def op_plus_def op_minus_def op_plus_scalar_def op_minus_scalar_def)

lemma op_Cons [simp]:
  "op_plus (b # bs) (c # cs) = (b + c) # op_plus bs cs"
  "op_minus (d # ds) (e # es) = (d - e) # op_minus ds es"
  "op_plus_scalar (f # fs) k = (f + k) # op_plus_scalar fs k"
  "op_minus_scalar (g # gs) l = (g - l) # op_minus_scalar gs l"
  by (simp_all add: op_plus_def op_minus_def op_plus_scalar_def op_minus_scalar_def)

lemma op_Nil [simp]:
  "op_plus [] bs = []" "op_plus cs [] = []" "op_minus [] ds = []" "op_minus es [] = []"
  "op_plus_scalar [] k = []" "op_minus_scalar [] l = []"
  by (simp_all add: op_plus_def op_minus_def op_plus_scalar_def op_minus_scalar_def)

lemma op_plus_minus_cancel:
  fixes xs ys :: "int list"
  assumes "length xs = length ys"
  shows "op_minus (op_plus xs ys) ys = xs" and "op_plus (op_minus xs ys) ys = xs"
  using assms by (simp_all add: list_eq_iff_nth_eq)

lemma op_plus_scalar_cancel:
  fixes xs :: "int list"
  shows "op_minus_scalar (op_plus_scalar xs c) c = xs" and "op_plus_scalar (op_minus_scalar xs c) c = xs"
  by (simp_all add: list_eq_iff_nth_eq)

lemma op_minus_as_negate:
  fixes xs ys :: "int list"
  shows "op_minus xs ys = op_plus xs (op_negate ys)"
  by (simp add: list_eq_iff_nth_eq)

lemma op_plus_commute:
  fixes xs ys :: "int list"
  shows "op_plus xs ys = op_plus ys xs"
  by (simp add: list_eq_iff_nth_eq)

lemma op_plus_assoc:
  fixes xs ys zs :: "int list"
  shows "op_plus (op_plus xs ys) zs = op_plus xs (op_plus ys zs)"
  by (simp add: list_eq_iff_nth_eq)

text \<open>The value at index \<open>k\<close> once \<^verbatim>\<open>apply\<close> has returned, in terms of the initial elements only.\<close>

definition apply_value :: "('a list \<Rightarrow> 'a) \<Rightarrow> 'a list list \<Rightarrow> 'a list \<Rightarrow> nat \<Rightarrow> 'a" where
  "apply_value func args self k = func (self ! k # map (\<lambda>a. a ! k) args)"

lemma apply_loop_correct:
  assumes "\<forall>a \<in> set args. i + n \<le> length a" and "i + n = length self"
  shows "apply_loop func args i n self =
           Inr (take i self @ map (apply_value func args self) [i..<i + n])"
  using assms
proof (induction n arbitrary: i self)
  case 0
  then show ?case by simp
next
  case (Suc n)
  let ?v = "apply_value func args self i"
  have reads: "rmap (\<lambda>a. rd a (int i)) (self # args) = Inr (map (\<lambda>a. a ! i) (self # args))"
    using Suc.prems by (intro rmap_Inr) auto
  have wrote: "wr self (int i) ?v = Inr (self[i := ?v])"
    using Suc.prems by simp
  have rest: "map (apply_value func args (self[i := ?v])) [i + 1..<i + 1 + n]
            = map (apply_value func args self) [i + 1..<i + 1 + n]"
    by (auto simp: apply_value_def)
  have "apply_loop func args i (Suc n) self = apply_loop func args (i + 1) n (self[i := ?v])"
    using reads wrote by (simp add: apply_value_def)
  also have "\<dots> = Inr (take (i + 1) (self[i := ?v]) @ map (apply_value func args self) [i + 1..<i + 1 + n])"
    unfolding rest [symmetric] using Suc.prems by (intro Suc.IH) auto
  also have "take (i + 1) (self[i := ?v]) = take i self @ [?v]"
    using Suc.prems by (simp add: take_Suc_conv_app_nth)
  finally show ?case
    by (simp add: upt_rec [of i])
qed

lemma apply_in_place_map: "apply_in_place (\<lambda>vs. f (hd vs)) [] xs = Inr (map f xs)"
proof -
  have "apply_in_place (\<lambda>vs. f (hd vs)) [] xs = Inr (map (apply_value (\<lambda>vs. f (hd vs)) [] xs) [0..<length xs])"
    using apply_loop_correct [of "[]" 0 "length xs" xs] by (simp add: apply_in_place_def)
  also have "map (apply_value (\<lambda>vs. f (hd vs)) [] xs) [0..<length xs] = map f xs"
    by (rule nth_equalityI) (simp_all add: apply_value_def)
  finally show ?thesis .
qed

text \<open>
  \<^verbatim>\<open>apply\<close> reads the very container it overwrites, yet every element is computed from the
  initial elements: for arguments at least as long as the container the loop never leaves the
  containers, and element \<open>k\<close> of the result is \<open>func\<close> of the initial element \<open>k\<close> and of the
  \<open>k\<close>-th elements of the arguments.
\<close>

theorem apply_in_place_correct:
  assumes "\<forall>a \<in> set args. length self \<le> length a"
  shows "apply_in_place func args self = Inr (map (apply_value func args self) [0..<length self])"
  using apply_loop_correct [of args 0 "length self" self func] assms
  by (simp add: apply_in_place_def)

theorem apply_in_place_correct_witness:
  "apply_in_place (\<lambda>vs. sum_list vs) [[10, 20, 30::int]] [1, 2, 3] = Inr [11, 22, 33]"
  using apply_in_place_correct [of "[[10, 20, 30::int]]" "[1, 2, 3]" sum_list]
  by (simp add: apply_value_def upt_conv_Cons)

end
