(* ===== verification/Fits_Position.thy ===== *)
theory Fits_Position
  imports Fits_Vector
begin

text \<open>
  Positions, row segments and regions (\<^verbatim>\<open>EleFitsData/Position.h\<close>, \<^verbatim>\<open>Segment.h\<close>, \<^verbatim>\<open>Region.h\<close>).  The
  template parameter \<open>N\<close> is an argument where the code depends on it: \<open>N \<ge> 0\<close> is a fixed dimension and
  \<open>N = -1\<close> a variable one.  Coordinates are \<^verbatim>\<open>long\<close>s, modelled as unbounded integers: a run of the
  code in which one of them overflows has no defined behaviour.
\<close>

section \<open>Positions\<close>

type_synonym position = "int list"

definition pos_zero :: "int \<Rightarrow> position" where
  "pos_zero N = replicate (nat \<bar>N\<bar>) 0"

definition pos_one :: "int \<Rightarrow> position" where
  "pos_one N = replicate (nat \<bar>N\<bar>) 1"

definition pos_max :: "int \<Rightarrow> position" where
  "pos_max N = replicate (nat \<bar>N\<bar>) (- 1)"

fun isZero :: "position \<Rightarrow> bool" where
  "isZero [] = True"
| "isZero (i # is) = (if i \<noteq> 0 then False else isZero is)"

fun isMax :: "position \<Rightarrow> bool" where
  "isMax [] = True"
| "isMax (i # is) = (if i \<noteq> - 1 then False else isMax is)"

text \<open>\<^verbatim>\<open>slice<M>\<close> and \<^verbatim>\<open>extend<M>\<close>, with the pointer arithmetic and the loop of the source.\<close>

definition pos_slice :: "nat \<Rightarrow> position \<Rightarrow> position result" where
  "pos_slice M p = (if M \<le> length p then holder_array M 0 M (Some (take M p)) else Inl Undefined)"

definition pos_extend :: "position \<Rightarrow> position \<Rightarrow> position result" where
  "pos_extend p padding = rfold (\<lambda>i res. wr res (int i) (p ! i)) [0..<length p] padding"

definition shapeSize :: "position \<Rightarrow> int" where
  "shapeSize shape = (if length shape = 0 then 0 else foldl (*) 1 shape)"

section \<open>Segments\<close>

record segment =
  seg_front :: int
  seg_back :: int

definition seg_fromSize :: "int \<Rightarrow> int \<Rightarrow> segment" where
  "seg_fromSize front sz = \<lparr>seg_front = front, seg_back = front + sz - 1\<rparr>"

definition seg_whole :: segment where
  "seg_whole = \<lparr>seg_front = 0, seg_back = - 1\<rparr>"

definition seg_size :: "segment \<Rightarrow> int" where
  "seg_size s = seg_back s - seg_front s + 1"

definition seg_eq :: "segment \<Rightarrow> segment \<Rightarrow> bool" where
  "seg_eq lhs rhs \<longleftrightarrow> seg_front lhs = seg_front rhs \<and> seg_back lhs = seg_back rhs"

definition seg_neq :: "segment \<Rightarrow> segment \<Rightarrow> bool" where
  "seg_neq lhs rhs \<longleftrightarrow> seg_front lhs \<noteq> seg_front rhs \<or> seg_back lhs \<noteq> seg_back rhs"

definition seg_plus :: "segment \<Rightarrow> int \<Rightarrow> segment" where
  "seg_plus lhs rhs = lhs\<lparr>seg_front := seg_front lhs + rhs, seg_back := seg_back lhs + rhs\<rparr>"

definition seg_minus :: "segment \<Rightarrow> int \<Rightarrow> segment" where
  "seg_minus lhs rhs = lhs\<lparr>seg_front := seg_front lhs - rhs, seg_back := seg_back lhs - rhs\<rparr>"

definition seg_pre_increment :: "segment \<Rightarrow> segment" where
  "seg_pre_increment lhs = seg_plus lhs 1"

definition seg_pre_decrement :: "segment \<Rightarrow> segment" where
  "seg_pre_decrement lhs = seg_minus lhs 1"

text \<open>The postfix operators return the old value and leave the new one behind.\<close>

definition seg_post_increment :: "segment \<Rightarrow> segment \<times> segment" where
  "seg_post_increment lhs = (lhs, seg_pre_increment lhs)"

definition seg_post_decrement :: "segment \<Rightarrow> segment \<times> segment" where
  "seg_post_decrement lhs = (lhs, seg_pre_decrement lhs)"

definition seg_identity :: "segment \<Rightarrow> segment" where
  "seg_identity rhs = rhs"

definition seg_negate :: "segment \<Rightarrow> segment" where
  "seg_negate rhs = \<lparr>seg_front = - seg_front rhs, seg_back = - seg_back rhs\<rparr>"

text \<open>The binary operators copy the left operand, then use the compound assignment.\<close>

definition seg_add :: "segment \<Rightarrow> int \<Rightarrow> segment" where
  "seg_add lhs rhs = (let res = lhs in seg_plus res rhs)"

definition seg_subtract :: "segment \<Rightarrow> int \<Rightarrow> segment" where
  "seg_subtract lhs rhs = (let res = lhs in seg_minus res rhs)"

section \<open>Regions\<close>

record region =
  rg_front :: position
  rg_back :: position

definition rg_fromShape :: "position \<Rightarrow> position \<Rightarrow> region" where
  "rg_fromShape frontPosition shape =
     \<lparr>rg_front = frontPosition, rg_back = op_plus frontPosition (op_minus_scalar shape 1)\<rparr>"

definition rg_whole :: "int \<Rightarrow> region" where
  "rg_whole N = \<lparr>rg_front = pos_zero N, rg_back = pos_max N\<rparr>"

definition rg_shape :: "region \<Rightarrow> position" where
  "rg_shape r = op_plus_scalar (op_minus (rg_back r) (rg_front r)) 1"

definition rg_dimension :: "region \<Rightarrow> int" where
  "rg_dimension r = int (length (rg_front r))"

definition rg_size :: "region \<Rightarrow> int" where
  "rg_size r = shapeSize (rg_shape r)"

definition rg_eq :: "region \<Rightarrow> region \<Rightarrow> bool" where
  "rg_eq lhs rhs \<longleftrightarrow> container_eq (rg_front lhs) (rg_front rhs) \<and> container_eq (rg_back lhs) (rg_back rhs)"

definition rg_neq :: "region \<Rightarrow> region \<Rightarrow> bool" where
  "rg_neq lhs rhs \<longleftrightarrow> container_neq (rg_front lhs) (rg_front rhs) \<or> container_neq (rg_back lhs) (rg_back rhs)"

definition rg_plus :: "region \<Rightarrow> position \<Rightarrow> region" where
  "rg_plus lhs rhs = lhs\<lparr>rg_front := op_plus (rg_front lhs) rhs, rg_back := op_plus (rg_back lhs) rhs\<rparr>"

definition rg_minus :: "region \<Rightarrow> position \<Rightarrow> region" where
  "rg_minus lhs rhs = lhs\<lparr>rg_front := op_minus (rg_front lhs) rhs, rg_back := op_minus (rg_back lhs) rhs\<rparr>"

definition rg_plus_scalar :: "region \<Rightarrow> int \<Rightarrow> region" where
  "rg_plus_scalar lhs rhs =
     lhs\<lparr>rg_front := op_plus_scalar (rg_front lhs) rhs, rg_back := op_plus_scalar (rg_back lhs) rhs\<rparr>"

definition rg_minus_scalar :: "region \<Rightarrow> int \<Rightarrow> region" where
  "rg_minus_scalar lhs rhs =
     lhs\<lparr>rg_front := op_minus_scalar (rg_front lhs) rhs, rg_back := op_minus_scalar (rg_back lhs) rhs\<rparr>"

definition rg_pre_increment :: "region \<Rightarrow> region" where
  "rg_pre_increment lhs = rg_plus_scalar lhs 1"

definition rg_pre_decrement :: "region \<Rightarrow> region" where
  "rg_pre_decrement lhs = rg_minus_scalar lhs 1"

definition rg_post_increment :: "region \<Rightarrow> region \<times> region" where
  "rg_post_increment lhs = (lhs, rg_pre_increment lhs)"

definition rg_post_decrement :: "region \<Rightarrow> region \<times> region" where
  "rg_post_decrement lhs = (lhs, rg_pre_decrement lhs)"

definition rg_identity :: "region \<Rightarrow> region" where
  "rg_identity rhs = rhs"

definition rg_add :: "region \<Rightarrow> position \<Rightarrow> region" where
  "rg_add lhs rhs = (let res = lhs in rg_plus res rhs)"

definition rg_subtract :: "region \<Rightarrow> position \<Rightarrow> region" where
  "rg_subtract lhs rhs = (let res = lhs in rg_minus res rhs)"

definition rg_add_scalar :: "region \<Rightarrow> int \<Rightarrow> region" where
  "rg_add_scalar lhs rhs = (let res = lhs in rg_plus_scalar res rhs)"

definition rg_subtract_scalar :: "region \<Rightarrow> int \<Rightarrow> region" where
  "rg_subtract_scalar lhs rhs = (let res = lhs in rg_minus_scalar res rhs)"

definition rg_negate :: "region \<Rightarrow> region" where
  "rg_negate rhs = \<lparr>rg_front = op_negate (rg_front rhs), rg_back = op_negate (rg_back rhs)\<rparr>"

section \<open>The box of positions a region stands for\<close>

definition in_box :: "position \<Rightarrow> position \<Rightarrow> position \<Rightarrow> bool" where
  "in_box f b p \<longleftrightarrow> list_all2 (\<le>) f p \<and> list_all2 (\<le>) p b"

definition in_region :: "region \<Rightarrow> position \<Rightarrow> bool" where
  "in_region r p \<longleftrightarrow> in_box (rg_front r) (rg_back r) p"

text \<open>A region that holds at least one position, of dimension one or more.\<close>

definition rg_proper :: "region \<Rightarrow> bool" where
  "rg_proper r \<longleftrightarrow> rg_front r \<noteq> [] \<and> list_all2 (\<le>) (rg_front r) (rg_back r)"

text \<open>All the positions of a box, the first axis running fastest.\<close>

fun positions :: "position \<Rightarrow> position \<Rightarrow> position list" where
  "positions [] [] = [[]]"
| "positions (f # fs) (b # bs) = concat (map (\<lambda>t. map (\<lambda>x. x # t) [f..b]) (positions fs bs))"
| "positions fs bs = []"

lemma in_box_simps [simp]:
  "in_box [] [] p \<longleftrightarrow> p = []"
  "in_box (f # fs) (b # bs) (c # cs) \<longleftrightarrow> f \<le> c \<and> c \<le> b \<and> in_box fs bs cs"
  "\<not> in_box (f # fs) (b # bs) []"
  by (auto simp: in_box_def)

lemma in_box_Cons: "in_box (f # fs) (b # bs) p \<longleftrightarrow> (\<exists>c cs. p = c # cs \<and> f \<le> c \<and> c \<le> b \<and> in_box fs bs cs)"
  by (cases p) auto

lemma in_box_length: "in_box f b p \<Longrightarrow> length p = length f \<and> length b = length f"
  by (simp add: in_box_def list_all2_iff)

lemma in_box_nth:
  "in_box f b p \<longleftrightarrow> length f = length p \<and> length b = length p \<and> (\<forall>i < length p. f ! i \<le> p ! i \<and> p ! i \<le> b ! i)"
  by (auto simp: in_box_def list_all2_conv_all_nth)

lemma set_positions: "length f = length b \<Longrightarrow> set (positions f b) = {p. in_box f b p}"
proof (induction f b rule: positions.induct)
  case (2 f fs b bs)
  then show ?case by (auto simp: in_box_Cons)
qed auto

lemma length_concat_const: "(\<And>x. x \<in> set xs \<Longrightarrow> length (g x) = c) \<Longrightarrow> length (concat (map g xs)) = c * length xs"
  by (induction xs) auto

lemma foldl_times: "foldl (*) (a::int) xs = a * prod_list xs"
  by (induction xs arbitrary: a) auto

lemma shapeSize_prod: "shape \<noteq> [] \<Longrightarrow> shapeSize shape = prod_list shape"
  by (simp add: shapeSize_def foldl_times)

lemma length_positions:
  "list_all2 (\<le>) f b \<Longrightarrow> int (length (positions f b)) = prod_list (op_plus_scalar (op_minus b f) 1)"
proof (induction f b rule: list_all2_induct)
  case Nil
  then show ?case by simp
next
  case (Cons f fs b bs)
  have "length (positions (f # fs) (b # bs)) = nat (b - f + 1) * length (positions fs bs)"
    by (subst positions.simps, rule length_concat_const) auto
  with Cons show ?case by simp
qed

lemma distinct_positions: "distinct (positions f b)"
proof (induction f b rule: positions.induct)
  case (2 f fs b bs)
  have "distinct (concat (map (\<lambda>t. map (\<lambda>x. x # t) [f..b]) ts))" if "distinct ts" for ts
    using that by (induction ts) (auto simp: distinct_map inj_on_def)
  with 2 show ?case by simp
qed auto

lemma rg_size_positions: "rg_proper r \<Longrightarrow> rg_size r = int (length (positions (rg_front r) (rg_back r)))"
proof -
  assume r: "rg_proper r"
  then have "rg_shape r \<noteq> []"
    by (auto simp: rg_proper_def rg_shape_def op_plus_scalar_def op_minus_def list_all2_iff)
  with r show ?thesis
    by (simp add: rg_size_def shapeSize_prod length_positions rg_proper_def) (simp add: rg_shape_def)
qed

lemma upto_shift: "map ((+) k) [i..j] = [k + i..k + j]" for k :: int
proof (induction i j rule: upto.induct)
  case (1 i j)
  then show ?case
    by (cases "i \<le> j") (simp_all add: upto_rec1 add.assoc)
qed

lemma positions_shift:
  "length f = length d \<Longrightarrow> length e = length f \<Longrightarrow>
   positions (op_plus f d) (op_plus f e) = map (op_plus f) (positions d e)"
proof (induction f arbitrary: d e)
  case Nil
  then show ?case by simp
next
  case (Cons f fs)
  then obtain d' ds e' es where de: "d = d' # ds" "e = e' # es" "length ds = length fs" "length es = length fs"
    by (metis length_Suc_conv)
  show ?case
    using Cons.IH [of ds es] de by (simp add: upto_shift [symmetric] map_concat comp_def)
qed

section \<open>Laws of regions and segments\<close>

lemma rg_shape_fromShape:
  "length f = length s \<Longrightarrow> rg_shape (rg_fromShape f s) = s"
  by (simp add: rg_shape_def rg_fromShape_def list_eq_iff_nth_eq)

lemma rg_fromShape_shape:
  "length (rg_front r) = length (rg_back r) \<Longrightarrow> rg_fromShape (rg_front r) (rg_shape r) = r"
  by (cases r) (simp add: rg_shape_def rg_fromShape_def list_eq_iff_nth_eq)

lemma rg_shape_plus:
  "length (rg_front r) = length p \<Longrightarrow> length (rg_back r) = length p \<Longrightarrow> rg_shape (rg_plus r p) = rg_shape r"
  by (simp add: rg_shape_def rg_plus_def list_eq_iff_nth_eq)

lemma rg_shape_plus_scalar: "rg_shape (rg_plus_scalar r c) = rg_shape r"
  by (simp add: rg_shape_def rg_plus_scalar_def list_eq_iff_nth_eq)

lemma seg_laws [simp]:
  "seg_size (seg_fromSize f n) = n"
  "seg_fromSize (seg_front s) (seg_size s) = s"
  "seg_size (seg_plus s c) = seg_size s"
  "seg_minus (seg_plus s c) c = s"
  "seg_eq s t \<longleftrightarrow> s = t" "seg_neq s t \<longleftrightarrow> s \<noteq> t"
  by (auto simp: seg_size_def seg_fromSize_def seg_plus_def seg_minus_def seg_eq_def seg_neq_def)

lemma isMax_iff: "isMax p \<longleftrightarrow> p = replicate (length p) (- 1)"
  by (induction p) auto

lemma isZero_iff: "isZero p \<longleftrightarrow> p = replicate (length p) 0"
  by (induction p) auto

lemma pos_extend_loop:
  "i + n = length p \<Longrightarrow> length p \<le> length res \<Longrightarrow> take i res = take i p \<Longrightarrow>
   rfold (\<lambda>i res. wr res (int i) (p ! i)) [i..<i + n] res = Inr (p @ drop (length p) res)"
proof (induction n arbitrary: i res)
  case 0
  then show ?case by (simp, metis append_take_drop_id)
next
  case (Suc n)
  have "[i..<i + Suc n] = i # [i + 1..<i + 1 + n]"
    by (simp add: upt_conv_Cons)
  moreover have "take (i + 1) (res[i := p ! i]) = take (i + 1) p"
    using Suc.prems by (simp add: take_Suc_conv_app_nth)
  ultimately show ?case
    using Suc.IH [of "i + 1" "res[i := p ! i]"] Suc.prems by (simp del: upt_Suc)
qed

lemma pos_extend_correct:
  "length p \<le> length padding \<Longrightarrow> pos_extend p padding = Inr (p @ drop (length p) padding)"
  using pos_extend_loop [of 0 "length p" p padding] by (simp add: pos_extend_def)

lemma pos_slice_correct: "M \<le> length p \<Longrightarrow> pos_slice M p = Inr (take M p)"
  by (simp add: pos_slice_def holder_array_copies)

text \<open>
  A region is determined by its front and its shape, in both directions, and the size that
  \<^verbatim>\<open>Region::size\<close> computes is the number of the positions a non-empty region contains.
\<close>

theorem region_shape_roundtrip:
  assumes "rg_proper r" and "length f = length s"
  shows "rg_fromShape (rg_front r) (rg_shape r) = r \<and> rg_shape (rg_fromShape f s) = s \<and>
         rg_size r = int (card {q. in_region r q})"
proof -
  have len: "length (rg_front r) = length (rg_back r)"
    using assms(1) by (simp add: rg_proper_def list_all2_iff)
  moreover have "rg_size r = int (card {q. in_region r q})"
    using rg_size_positions [OF assms(1)] distinct_card [OF distinct_positions] len
    by (simp add: in_region_def set_positions [symmetric])
  ultimately show ?thesis
    using assms(2) by (simp add: rg_fromShape_shape rg_shape_fromShape)
qed

theorem region_shape_roundtrip_witness:
  "rg_size \<lparr>rg_front = [1, 2], rg_back = [2, 4]\<rparr> =
     int (card {q. in_region \<lparr>rg_front = [1, 2], rg_back = [2, 4]\<rparr> q}) \<and>
   rg_shape (rg_fromShape [1, 2] [2, 3]) = [2, 3]"
  using region_shape_roundtrip [of "\<lparr>rg_front = [1, 2], rg_back = [2, 4]\<rparr>" "[1, 2]" "[2, 3]"]
  by (simp add: rg_proper_def)

end
