(* ===== verification/Fits_Hdu.thy ===== *)
theory Fits_Hdu
  imports Fits_TypeCode Fits_Position
begin

text \<open>
  HDU access and HDU handlers: the wrapper \<^verbatim>\<open>HduWrapper.cpp\<close>, the classes \<^verbatim>\<open>Hdu\<close>, \<^verbatim>\<open>ImageHdu\<close> and
  \<^verbatim>\<open>BintableHdu\<close> (categories and life cycle), \<^verbatim>\<open>Header\<close>, and the actions that depend on the status of a
  handler (\<^verbatim>\<open>VerifyChecksums\<close>, \<^verbatim>\<open>CiteEleFits\<close>).  A handler is the part of the object that methods change;
  its state and the state of the file are passed together.
\<close>

section \<open>Access to HDUs\<close>

definition hdu_count :: "'f cfitsio \<Rightarrow> 'f \<Rightarrow> int result" where
  "hdu_count api f = (case api_get_num_hdus api f of (n, st) \<Rightarrow> rbind (cfitsio_may_throw st ''Cannot count HDUs'') (\<lambda>_. Inr n))"

definition current_index :: "'f cfitsio \<Rightarrow> 'f \<Rightarrow> int" where
  "current_index api f = api_get_hdu_num api f"

definition record_string :: "payload fits_record result \<Rightarrow> string result" where
  "record_string r = rbind r (\<lambda>x. Inr (string_payload (rec_value x)))"

definition record_int :: "payload fits_record result \<Rightarrow> int result" where
  "record_int r = rbind r (\<lambda>x. Inr (case rec_value x of IntVal i \<Rightarrow> i | _ \<Rightarrow> 0))"

definition current_name :: "'f cfitsio \<Rightarrow> 'f \<Rightarrow> string result" where
  "current_name api f =
     rbind (has_keyword api ''EXTNAME'' f) (\<lambda>ext.
     if ext then record_string (parse_record_string api ''EXTNAME'' f)
     else rbind (has_keyword api ''HDUNAME'' f) (\<lambda>hdu.
     if hdu then record_string (parse_record_string api ''HDUNAME'' f)
     else Inr []))"

definition current_version :: "'f cfitsio \<Rightarrow> 'f \<Rightarrow> int result" where
  "current_version api f =
     rbind (has_keyword api ''EXTVER'' f) (\<lambda>ext.
     if ext then record_int (parse_record api TLong ''EXTVER'' f)
     else rbind (has_keyword api ''HDUVER'' f) (\<lambda>hdu.
     if hdu then record_int (parse_record api TLong ''HDUVER'' f)
     else Inr 1))"

definition current_type :: "'f cfitsio \<Rightarrow> 'f \<Rightarrow> category result" where
  "current_type api f =
     (case api_get_hdu_type api f of (t, st) \<Rightarrow>
        if t = IMAGE_HDU then Inr Image
        else if t = BINARY_TBL then Inr Bintable
        else Inl (FitsError (''Unknown HDU type (code '' @ to_string t @ '').'')))"

definition current_is_primary :: "'f cfitsio \<Rightarrow> 'f \<Rightarrow> bool" where
  "current_is_primary api f \<longleftrightarrow> current_index api f = 1"

definition goto_index :: "'f cfitsio \<Rightarrow> int \<Rightarrow> ('f, bool) io" where
  "goto_index api index = (\<lambda>f.
     if index = current_index api f then (f, Inr False)
     else io_then (checked (api_movabs_hdu api index) (''Cannot access HDU: #'' @ to_string (index - 1))) (io_return True) f)"

definition goto_name :: "'f cfitsio \<Rightarrow> string \<Rightarrow> int \<Rightarrow> category \<Rightarrow> ('f, bool) io" where
  "goto_name api n version c =
     (if n = [] then io_return False
      else if c = Image \<or> c = Bintable \<or> c = Any
      then io_then (checked (api_movnam_hdu api (if c = Image then IMAGE_HDU else if c = Bintable then BINARY_TBL else ANY_HDU) n version)
                      (''Cannot move to HDU: '' @ n)) (io_return True)
      else io_throw (FitsError ''Invalid HduCategory; Only Any, Image and Bintable are supported.''))"

definition goto_next :: "'f cfitsio \<Rightarrow> int \<Rightarrow> ('f, bool) io" where
  "goto_next api step =
     (if step = 0 then io_return False
      else io_then (checked (api_movrel_hdu api step) (''Cannot move to next HDU (step '' @ to_string step @ '')'')) (io_return True))"

definition goto_primary :: "'f cfitsio \<Rightarrow> ('f, bool) io" where
  "goto_primary api = goto_index api 1"

definition current_size :: "'f cfitsio \<Rightarrow> ('f, int) io" where
  "current_size api = (\<lambda>f.
     let index = current_index api f; msg = ''Cannot get Hdu address'' in
     io_bind (io_read (hdu_count api)) (\<lambda>n.
     io_bind (if index < n
              then io_bind (io_read (\<lambda>f. case api_get_hduaddr api f of ((h, e), st) \<Rightarrow> rbind (cfitsio_may_throw st msg) (\<lambda>_. Inr h))) (\<lambda>start.
                   io_then (checked (api_movrel_hdu api 1) ''Cannot move to next HDU (step +1)'')
                   (io_bind (io_read (\<lambda>f. case api_get_hduaddr api f of ((h, e), st) \<Rightarrow> rbind (cfitsio_may_throw st msg) (\<lambda>_. Inr h))) (\<lambda>next_start.
                    io_return (next_start - start))))
              else io_read (\<lambda>f. case api_get_hduaddr api f of ((h, e), st) \<Rightarrow> rbind (cfitsio_may_throw st msg) (\<lambda>_. Inr (e - h)))) (\<lambda>sz.
     io_then (goto_index api index) (io_return sz))) f)"

definition access_update_name :: "'f cfitsio \<Rightarrow> string \<Rightarrow> ('f, bool) io" where
  "access_update_name api n =
     (if n = [] then io_return False
      else io_then (update_record_string api (record_init ''EXTNAME'' (StrVal n) [] [])) (io_return True))"

definition access_update_version :: "'f cfitsio \<Rightarrow> int \<Rightarrow> ('f, bool) io" where
  "access_update_version api version =
     (if version = 0 then io_return False
      else io_then (update_record api TLong (record_init ''EXTVER'' (IntVal version) [] [])) (io_return True))"

definition init_image :: "'f cfitsio \<Rightarrow> value_type \<Rightarrow> string \<Rightarrow> position \<Rightarrow> ('f, unit) io" where
  "init_image api t n shape =
     io_then (may_throw_readonly api)
     (io_then (checked (api_create_img api t shape) (''Cannot create image extension: '' @ n))
     (io_then (access_update_name api n) (io_return ())))"

definition init_primary :: "'f cfitsio \<Rightarrow> ('f, bool) io" where
  "init_primary api =
     io_bind (io_read (hdu_count api)) (\<lambda>n.
       if n > 0 then io_return False else io_then (init_image api TUChar [] []) (io_return True))"

definition access_remove :: "'f cfitsio \<Rightarrow> int \<Rightarrow> ('f, unit) io" where
  "access_remove api index =
     io_then (goto_index api index) (checked (api_delete_hdu api) (''Cannot delete HDU: '' @ to_string (index - 1)))"

section \<open>Handlers\<close>

record hdu =
  m_cfitsio_index :: int
  m_type :: category
  m_status :: category

definition hdu_init :: "int \<Rightarrow> category \<Rightarrow> category \<Rightarrow> hdu" where
  "hdu_init index t s = \<lparr>m_cfitsio_index = index + 1, m_type = t, m_status = s\<rparr>"

definition hdu_index :: "hdu \<Rightarrow> int" where
  "hdu_index h = m_cfitsio_index h - 1"

type_synonym ('f, 'a) hio = "('f \<times> hdu, 'a) io"

definition on_file :: "('f, 'a) io \<Rightarrow> ('f, 'a) hio" where
  "on_file m = (\<lambda>(f, h). case m f of (f', r) \<Rightarrow> ((f', h), r))"

definition touch_status :: "category \<Rightarrow> category" where
  "touch_status s = (if s = Untouched then Touched else s)"

definition touch :: "'f cfitsio \<Rightarrow> ('f, unit) hio" where
  "touch api =
     io_then (\<lambda>(f, h). on_file (goto_index api (m_cfitsio_index h)) (f, h))
       (\<lambda>(f, h). ((f, h\<lparr>m_status := touch_status (m_status h)\<rparr>), Inr ()))"

definition edit :: "'f cfitsio \<Rightarrow> ('f, unit) hio" where
  "edit api =
     io_then (touch api)
       (\<lambda>(f, h). case cat_restrict_assign (m_status h) Edited of
          (Some e, s) \<Rightarrow> ((f, h\<lparr>m_status := s\<rparr>), Inl e)
        | (None, s) \<Rightarrow> ((f, h\<lparr>m_status := s\<rparr>), Inr ()))"

definition hdu_category :: "'f cfitsio \<Rightarrow> ('f, category) hio" where
  "hdu_category api =
     io_then (touch api) (io_read (\<lambda>(f, h).
       rbind (cat_restrict (m_type h) (m_status h)) (\<lambda>c.
       if m_cfitsio_index h = 1 then cat_restrict c Primary else cat_restrict c Ext)))"

text \<open>\<^verbatim>\<open>ImageRaster::read_shape\<close> notifies an edition.\<close>

definition raster_read_shape :: "'f cfitsio \<Rightarrow> ('f, position) hio" where
  "raster_read_shape api = io_then (edit api) (on_file (io_read (read_shape_dynamic api)))"

definition raster_read_size :: "'f cfitsio \<Rightarrow> ('f, int) hio" where
  "raster_read_size api = io_bind (raster_read_shape api) (\<lambda>s. io_return (shapeSize s))"

definition raster_read_typeid :: "'f cfitsio \<Rightarrow> ('f, value_type) hio" where
  "raster_read_typeid api = io_then (touch api) (on_file (io_read (read_typeid api)))"

definition image_category :: "'f cfitsio \<Rightarrow> ('f, category) hio" where
  "image_category api =
     io_bind (hdu_category api) (\<lambda>cat.
     io_bind (raster_read_size api) (\<lambda>n.
     io_bind (io_lift (cat_restrict cat (if n = 0 then Metadata else Data))) (\<lambda>cat1.
     io_bind (raster_read_typeid api) (\<lambda>t.
     io_bind (io_lift (cat_restrict cat1 (if t = TFloat \<or> t = TDouble then FloatImage else IntImage))) (\<lambda>cat2.
     io_bind (on_file (io_read (is_compressed api))) (\<lambda>comp.
     io_lift (cat_restrict cat2 (if comp then CompressedImageExt else RawImage))))))))"

definition read_column_count :: "'f cfitsio \<Rightarrow> ('f, int) hio" where
  "read_column_count api =
     io_then (touch api) (on_file (io_read (\<lambda>f. case api_get_num_cols api f of (n, st) \<Rightarrow>
       rbind (cfitsio_may_throw st ''Cannot read the number of columns'') (\<lambda>_. Inr n))))"

definition read_row_count :: "'f cfitsio \<Rightarrow> ('f, int) hio" where
  "read_row_count api =
     io_then (touch api) (on_file (io_read (\<lambda>f. case api_get_num_rows api f of (n, st) \<Rightarrow>
       rbind (cfitsio_may_throw st ''Cannot read the number of rows'') (\<lambda>_. Inr n))))"

definition bintable_category :: "'f cfitsio \<Rightarrow> ('f, category) hio" where
  "bintable_category api =
     io_bind (hdu_category api) (\<lambda>cat.
     io_bind (read_column_count api) (\<lambda>n.
     io_bind (if n = 0 then io_return True else io_bind (read_row_count api) (\<lambda>m. io_return (m = 0))) (\<lambda>none.
     io_lift (cat_restrict cat (if none then Metadata else Data)))))"

text \<open>The dynamic type of a handler follows its type category, see \<^verbatim>\<open>MefFile::access\<close>.\<close>

definition category_of_handler :: "'f cfitsio \<Rightarrow> ('f, category) hio" where
  "category_of_handler api = (\<lambda>(f, h).
     if m_type h = Image then image_category api (f, h)
     else if m_type h = Bintable then bintable_category api (f, h)
     else hdu_category api (f, h))"

definition hdu_matches :: "'f cfitsio \<Rightarrow> hdu_filter \<Rightarrow> ('f, bool) hio" where
  "hdu_matches api flt = io_bind (category_of_handler api) (\<lambda>c. io_return (accepts flt c))"

definition read_name :: "'f cfitsio \<Rightarrow> ('f, string) hio" where
  "read_name api = io_then (touch api) (on_file (io_read (current_name api)))"

definition read_version :: "'f cfitsio \<Rightarrow> ('f, int) hio" where
  "read_version api = io_then (touch api) (on_file (io_read (current_version api)))"

definition size_in_file :: "'f cfitsio \<Rightarrow> ('f, int) hio" where
  "size_in_file api = io_then (touch api) (on_file (current_size api))"

definition update_name :: "'f cfitsio \<Rightarrow> string \<Rightarrow> ('f, unit) hio" where
  "update_name api n = io_then (edit api) (io_then (on_file (access_update_name api n)) (io_return ()))"

definition update_version :: "'f cfitsio \<Rightarrow> int \<Rightarrow> ('f, unit) hio" where
  "update_version api v = io_then (edit api) (io_then (on_file (access_update_version api v)) (io_return ()))"

fun checksum_of_int :: "int \<Rightarrow> checksum_status" where
  "checksum_of_int i = (if i = - 1 then Incorrect else if i = 0 then Missing else Correct)"

definition verify_checksums :: "'f cfitsio \<Rightarrow> ('f, unit) hio" where
  "verify_checksums api =
     io_then (touch api) (on_file (io_read (\<lambda>f. case api_verify_chksum api f of ((data, hdu), st) \<Rightarrow>
       checksum_may_throw (checksum_of_int hdu) (checksum_of_int data))))"

definition update_checksums :: "'f cfitsio \<Rightarrow> ('f, unit) hio" where
  "update_checksums api = io_then (edit api) (on_file (checked (api_write_chksum api) ''Cannot write checksums.''))"

end
