(* ===== verification/Fits_Header.thy ===== *)
theory Fits_Header
  imports Fits_Hdu
begin

text \<open>
  The header handler (\<^verbatim>\<open>EleFits/Header.h\<close>, \<^verbatim>\<open>Header.cpp\<close>, \<^verbatim>\<open>impl/Header.hpp\<close>) with its writing modes, the
  actions and strategies (\<^verbatim>\<open>Action.h\<close>, \<^verbatim>\<open>Strategy.h\<close>), and what the touch and edit notifications do to
  the status of a handler.
\<close>

section \<open>Reading records\<close>

definition header_has :: "'f cfitsio \<Rightarrow> string \<Rightarrow> ('f, bool) hio" where
  "header_has api keyword = io_then (touch api) (on_file (io_read (has_keyword api keyword)))"

definition header_parse :: "'f cfitsio \<Rightarrow> value_type \<Rightarrow> string \<Rightarrow> ('f, payload fits_record) hio" where
  "header_parse api t keyword = io_then (touch api) (on_file (io_read (parse_record_as api t keyword)))"

definition header_parse_or :: "'f cfitsio \<Rightarrow> value_type \<Rightarrow> payload fits_record \<Rightarrow> ('f, payload fits_record) hio" where
  "header_parse_or api t fallback =
     io_bind (header_has api (rec_keyword fallback)) (\<lambda>b.
       if b then header_parse api t (rec_keyword fallback) else io_return fallback)"

definition header_parse_seq :: "'f cfitsio \<Rightarrow> value_type \<Rightarrow> string list \<Rightarrow> ('f, payload fits_record list) hio" where
  "header_parse_seq api t keywords =
     io_then (touch api) (on_file (io_read (\<lambda>f. rmap (\<lambda>k. parse_record_as api t k f) keywords)))"

definition header_parse_struct :: "'f cfitsio \<Rightarrow> (value_type \<times> string) list \<Rightarrow> ('f, payload fits_record list) hio" where
  "header_parse_struct api keys =
     io_then (touch api) (on_file (io_read (parse_records_as api keys)))"

definition header_parse_seq_or ::
  "'f cfitsio \<Rightarrow> (value_type \<times> payload fits_record) list \<Rightarrow> ('f, payload fits_record list) hio" where
  "header_parse_seq_or api fallbacks = io_map (\<lambda>(t, r). header_parse_or api t r) fallbacks"

definition read_keywords :: "'f cfitsio \<Rightarrow> keyword_category \<Rightarrow> ('f, string list) hio" where
  "read_keywords api categories = io_then (touch api) (on_file (io_read (\<lambda>f. Inr (list_keywords api categories f))))"

definition read_keywords_values :: "'f cfitsio \<Rightarrow> keyword_category \<Rightarrow> ('f, string \<rightharpoonup> string) hio" where
  "read_keywords_values api categories =
     io_then (touch api) (on_file (io_read (\<lambda>f. Inr (list_keywords_values api categories f))))"

definition read_all :: "'f cfitsio \<Rightarrow> keyword_category \<Rightarrow> ('f, string) hio" where
  "read_all api categories =
     io_then (touch api) (on_file (io_read (read_header api (kc_eq categories AllCategories))))"

definition parse_all :: "'f cfitsio \<Rightarrow> (string \<Rightarrow> real result) \<Rightarrow> keyword_category \<Rightarrow> ('f, variant fits_record list) hio" where
  "parse_all api stod categories =
     io_bind (read_keywords api (kc_and categories (kc_not Comment))) (\<lambda>ks.
     io_then (touch api) (on_file (io_read (\<lambda>f. rmap (\<lambda>k. parse_record_any api stod k f) ks))))"

section \<open>Writing records\<close>

datatype record_mode = CreateOrUpdate | CreateUnique | CreateNew | UpdateExisting

definition keyword_exists_may_throw :: "'f cfitsio \<Rightarrow> string \<Rightarrow> ('f, unit) hio" where
  "keyword_exists_may_throw api k =
     io_bind (header_has api k) (\<lambda>b. if b then io_throw (KeywordExistsError k) else io_return ())"

definition keyword_not_found_may_throw :: "'f cfitsio \<Rightarrow> string \<Rightarrow> ('f, unit) hio" where
  "keyword_not_found_may_throw api k =
     io_bind (header_has api k) (\<lambda>b. if \<not> b then io_throw (KeywordNotFoundError k) else io_return ())"

fun first_found :: "string list \<Rightarrow> string list \<Rightarrow> string option" where
  "first_found [] found = None"
| "first_found (k # ks) found = (if k \<in> set found then Some k else first_found ks found)"

fun first_missing :: "string list \<Rightarrow> string list \<Rightarrow> string option" where
  "first_missing [] found = None"
| "first_missing (k # ks) found = (if k \<notin> set found then Some k else first_missing ks found)"

definition keywords_exist_may_throw :: "'f cfitsio \<Rightarrow> string list \<Rightarrow> ('f, unit) hio" where
  "keywords_exist_may_throw api ks =
     io_bind (read_keywords api AllCategories) (\<lambda>found.
       case first_found ks found of Some k \<Rightarrow> io_throw (KeywordExistsError k) | None \<Rightarrow> io_return ())"

definition keywords_not_found_may_throw :: "'f cfitsio \<Rightarrow> string list \<Rightarrow> ('f, unit) hio" where
  "keywords_not_found_may_throw api ks =
     io_bind (read_keywords api AllCategories) (\<lambda>found.
       case first_missing ks found of Some k \<Rightarrow> io_throw (KeywordNotFoundError k) | None \<Rightarrow> io_return ())"

fun record_writer :: "'f cfitsio \<Rightarrow> record_mode \<Rightarrow> variant fits_record \<Rightarrow> ('f, unit) hio" where
  "record_writer api CreateUnique r =
     io_then (keyword_exists_may_throw api (rec_keyword r)) (on_file (write_record_any api r))"
| "record_writer api CreateNew r = on_file (write_record_any api r)"
| "record_writer api UpdateExisting r =
     io_then (keyword_not_found_may_throw api (rec_keyword r)) (on_file (update_record_any api r))"
| "record_writer api CreateOrUpdate r = on_file (update_record_any api r)"

definition header_write :: "'f cfitsio \<Rightarrow> record_mode \<Rightarrow> variant fits_record \<Rightarrow> ('f, unit) hio" where
  "header_write api mode r = io_then (edit api) (record_writer api mode r)"

definition header_write_cstr :: "'f cfitsio \<Rightarrow> record_mode \<Rightarrow> string \<Rightarrow> string \<Rightarrow> string \<Rightarrow> string \<Rightarrow> ('f, unit) hio" where
  "header_write_cstr api mode k v u c = header_write api mode (record_init k (Variant TString (StrVal v)) u c)"

definition header_write_seq :: "'f cfitsio \<Rightarrow> record_mode \<Rightarrow> variant fits_record list \<Rightarrow> ('f, unit) hio" where
  "header_write_seq api mode rs = io_then (edit api) (io_foreach (record_writer api mode) rs)"

definition header_write_seq_in ::
  "'f cfitsio \<Rightarrow> record_mode \<Rightarrow> string list \<Rightarrow> variant fits_record list \<Rightarrow> ('f, unit) hio" where
  "header_write_seq_in api mode keywords rs =
     io_then (edit api)
       (io_foreach (\<lambda>r. if rec_keyword r \<in> set keywords then record_writer api mode r else io_return ()) rs)"

definition header_remove :: "'f cfitsio \<Rightarrow> string \<Rightarrow> ('f, unit) hio" where
  "header_remove api k =
     io_then (edit api) (io_then (keyword_not_found_may_throw api k) (on_file (remove_record api k)))"

definition header_write_comment :: "'f cfitsio \<Rightarrow> string \<Rightarrow> ('f, unit) hio" where
  "header_write_comment api c = io_then (edit api) (on_file (write_comment api c))"

definition header_write_history :: "'f cfitsio \<Rightarrow> string \<Rightarrow> ('f, unit) hio" where
  "header_write_history api h = io_then (edit api) (on_file (write_history api h))"

section \<open>Actions\<close>

datatype update_mode = UpdateNone | Outdated | EditedHdu | AnyHdu

datatype action = VerifyChecksums update_mode | CiteEleFits string

definition action_edited :: "'f cfitsio \<Rightarrow> ('f, bool) hio" where
  "action_edited api = hdu_matches api (filter_of Edited)"

definition has_checksums :: "'f cfitsio \<Rightarrow> ('f, bool) hio" where
  "has_checksums api =
     io_bind (header_has api ''CHECKSUM'') (\<lambda>b. if b then io_return True else header_has api ''DATASUM'')"

definition verify_accessed :: "'f cfitsio \<Rightarrow> ('f, unit) hio" where
  "verify_accessed api = (\<lambda>s.
     case verify_checksums api s of
       (s', Inl (ChecksumError hdu data)) \<Rightarrow>
         if checksum_incorrect hdu data then (s', Inl (ChecksumError hdu data)) else (s', Inr ())
     | (s', r) \<Rightarrow> (s', r))"

fun verify_closing :: "'f cfitsio \<Rightarrow> update_mode \<Rightarrow> ('f, unit) hio" where
  "verify_closing api UpdateNone = io_return ()"
| "verify_closing api Outdated =
     io_bind (action_edited api) (\<lambda>e.
     io_bind (if e then has_checksums api else io_return False) (\<lambda>b.
     if b then update_checksums api else io_return ()))"
| "verify_closing api EditedHdu =
     io_bind (action_edited api) (\<lambda>e. if e then update_checksums api else io_return ())"
| "verify_closing api AnyHdu =
     io_bind (action_edited api) (\<lambda>e.
     io_bind (if e then io_return True else io_bind (has_checksums api) (\<lambda>b. io_return (\<not> b))) (\<lambda>b.
     if b then update_checksums api else io_return ()))"

definition cite_closing :: "'f cfitsio \<Rightarrow> string \<Rightarrow> ('f, unit) hio" where
  "cite_closing api date = (\<lambda>(f, h).
     if hdu_index h = 0
     then header_write_history api (date @ '' This file was edited by EleFits <github.com/CNES/EleFits>'') (f, h)
     else ((f, h), Inr ()))"

fun action_accessed :: "'f cfitsio \<Rightarrow> action \<Rightarrow> ('f, unit) hio" where
  "action_accessed api (VerifyChecksums mode) = verify_accessed api"
| "action_accessed api (CiteEleFits date) = io_return ()"

fun action_closing :: "'f cfitsio \<Rightarrow> action \<Rightarrow> ('f, unit) hio" where
  "action_closing api (VerifyChecksums mode) = verify_closing api mode"
| "action_closing api (CiteEleFits date) = cite_closing api date"

text \<open>None of the two actions overrides \<^verbatim>\<open>opened\<close> or \<^verbatim>\<open>created\<close>.\<close>

definition action_opened :: "action \<Rightarrow> ('f, unit) hio" where
  "action_opened a = io_return ()"

definition action_created :: "action \<Rightarrow> ('f, unit) hio" where
  "action_created a = io_return ()"

definition strategy_opened :: "action list \<Rightarrow> ('f, unit) hio" where
  "strategy_opened actions = io_foreach action_opened actions"

definition strategy_accessed :: "'f cfitsio \<Rightarrow> action list \<Rightarrow> ('f, unit) hio" where
  "strategy_accessed api actions = io_foreach (action_accessed api) actions"

definition strategy_created :: "action list \<Rightarrow> ('f, unit) hio" where
  "strategy_created actions = io_foreach action_created actions"

definition strategy_closing :: "'f cfitsio \<Rightarrow> action list \<Rightarrow> ('f, unit) hio" where
  "strategy_closing api actions = io_foreach (action_closing api) actions"

section \<open>The status of a handler\<close>

definition edit_status :: "category \<Rightarrow> fits_error option \<times> category" where
  "edit_status s = cat_restrict_assign (touch_status s) Edited"

inductive status_step :: "category \<Rightarrow> category \<Rightarrow> bool" where
  touched: "status_step s (touch_status s)"
| edited: "status_step s (snd (edit_status s))"

inductive status_reachable :: "category \<Rightarrow> bool" where
  opened: "status_reachable Untouched"
| created: "status_reachable Created"
| step: "status_reachable s \<Longrightarrow> status_step s t \<Longrightarrow> status_reachable t"

inductive_cases status_stepE: "status_step s t"

definition TouchedEdited :: category where
  "TouchedEdited = ok (cat_restrict Touched Edited)"

lemma TouchedEdited_value:
  "TouchedEdited = [Unconstrained, Unconstrained, Unconstrained, Unconstrained, Unconstrained, Second, Unconstrained, Second]"
  by (simp add: TouchedEdited_def status_values cat_restrict_def cat_restrict_assign_def restrictFlag_def ok_def)

lemmas status_eval = status_values TouchedEdited_value cat_restrict_def cat_restrict_assign_def restrictFlag_def

lemma status_cases:
  "touch_status Untouched = Touched" "touch_status Touched = Touched"
  "touch_status TouchedEdited = TouchedEdited" "touch_status Created = Created"
  "edit_status Untouched = (None, TouchedEdited)" "edit_status Touched = (None, TouchedEdited)"
  "edit_status TouchedEdited = (None, TouchedEdited)" "edit_status Created = (None, Created)"
  by (simp_all add: status_eval touch_status_def edit_status_def)

lemma status_reachable_iff: "status_reachable s \<longleftrightarrow> s \<in> {Untouched, Touched, TouchedEdited, Created}"
proof
  assume "status_reachable s"
  then show "s \<in> {Untouched, Touched, TouchedEdited, Created}"
    by induction (auto elim!: status_stepE simp: status_cases)
next
  assume "s \<in> {Untouched, Touched, TouchedEdited, Created}"
  moreover have "status_reachable Touched" "status_reachable TouchedEdited"
    using status_reachable.step [OF status_reachable.opened status_step.touched]
      status_reachable.step [OF status_reachable.opened status_step.edited] by (simp_all add: status_cases)
  ultimately show "status_reachable s"
    by (auto intro: status_reachable.opened status_reachable.created)
qed

lemma status_instances:
  "isInstance TouchedEdited Edited" "isInstance Created Edited" "\<not> isInstance Created Touched"
  "\<not> isInstance Untouched OnlyRead" "\<not> isInstance Touched OnlyRead"
  "\<not> isInstance TouchedEdited OnlyRead" "\<not> isInstance Created OnlyRead"
  "\<not> isInstance Untouched Existed" "\<not> isInstance Touched Existed"
  "\<not> isInstance TouchedEdited Existed" "\<not> isInstance Created Existed" "Touched \<noteq> Created"
  by (simp_all add: status_eval isInstance_def)

lemma handler_status_edit:
  "status_reachable s \<Longrightarrow> fst (edit_status s) = None \<and> isInstance (snd (edit_status s)) Edited"
  unfolding status_reachable_iff by (elim insertE) (simp_all add: status_cases status_instances)



section \<open>What the handlers do to their status\<close>

lemma on_file_success: "on_file m (f, h) = ((f', h'), Inr x) \<longleftrightarrow> h' = h \<and> m f = (f', Inr x)"
  by (auto simp: on_file_def split: prod.splits)

lemma touch_success:
  "touch api (f, h) = ((f', h'), Inr ()) \<Longrightarrow> h' = h\<lparr>m_status := touch_status (m_status h)\<rparr>"
  by (auto simp: touch_def io_then_success on_file_success)

lemma edit_success:
  assumes "edit api (f, h) = ((f', h'), Inr ())"
  shows "h' = h\<lparr>m_status := snd (edit_status (m_status h))\<rparr>"
proof -
  obtain f1 h1 where t: "touch api (f, h) = ((f1, h1), Inr ())"
    and r: "(case cat_restrict_assign (m_status h1) Edited of
          (Some e, s) \<Rightarrow> ((f1, h1\<lparr>m_status := s\<rparr>), Inl e) | (None, s) \<Rightarrow> ((f1, h1\<lparr>m_status := s\<rparr>), Inr ())) = ((f', h'), Inr ())"
    using assms by (auto simp: edit_def io_then_success)
  have "h1 = h\<lparr>m_status := touch_status (m_status h)\<rparr>"
    using touch_success [OF t] .
  then show ?thesis
    using r by (auto simp: edit_status_def split: prod.splits option.splits)
qed

lemma status_wf: "status_reachable s \<Longrightarrow> wf_category s"
  unfolding status_reachable_iff by (elim insertE) (simp_all add: status_values TouchedEdited_value TritCount_def)

lemma status_touch: "status_reachable s \<Longrightarrow> status_reachable (touch_status s)"
  using status_reachable.step status_step.touched by blast

lemma status_edit: "status_reachable s \<Longrightarrow> status_reachable (snd (edit_status s))"
  using status_reachable.step status_step.edited by blast

lemma status_edit_touch:
  assumes "status_reachable s"
  shows "snd (edit_status (touch_status s)) = snd (edit_status s)"
    and "touch_status (snd (edit_status s)) = snd (edit_status s)"
  using assms unfolding status_reachable_iff by (elim insertE; simp add: status_cases)+

text \<open>The status a successful call of \<^verbatim>\<open>category()\<close> on an image leaves.\<close>

lemma image_category_status:
  assumes "image_category api (f, h) = ((f', h'), Inr c)" and "status_reachable (m_status h)"
  shows "h' = h\<lparr>m_status := snd (edit_status (m_status h))\<rparr>"
proof -
  obtain f1 h1 f2 h2 f3 h3 n t where
    one: "touch api (f, h) = ((f1, h1), Inr ())" and two: "edit api (f1, h1) = ((f2, h2), Inr ())"
    and three: "touch api (f2, h2) = ((f3, h3), Inr ())" and last: "h' = h3"
    using assms(1)
    by (auto simp: image_category_def hdu_category_def raster_read_size_def raster_read_shape_def raster_read_typeid_def
        io_bind_success io_then_success on_file_success)
  show ?thesis
    using touch_success [OF one] edit_success [OF two] touch_success [OF three] last assms(2)
    by (simp add: status_edit_touch)
qed

lemma restrict_below:
  assumes "cat_restrict a b = Inr c" and "wf_category a" "wf_category b"
  shows "wf_category c \<and> den c \<subseteq> den a \<and> den c \<subseteq> den b"
  using cat_restrict_den [of a b] assms by auto

lemma constants_wf:
  "wf_category Image" "wf_category Primary" "wf_category Ext" "wf_category Metadata" "wf_category Data"
  "wf_category FloatImage" "wf_category IntImage" "wf_category CompressedImageExt" "wf_category RawImage" "wf_category Edited"
  by (simp_all add: category_constants category_eval)

lemma hdu_category_below_status:
  assumes "hdu_category api (f, h) = (s', Inr c)" and "status_reachable (m_status h)" and "wf_category (m_type h)"
  shows "wf_category c \<and> den c \<subseteq> den (touch_status (m_status h))"
proof -
  obtain f1 h1 c0 where one: "touch api (f, h) = ((f1, h1), Inr ())"
    and c0: "cat_restrict (m_type h1) (m_status h1) = Inr c0"
    and c: "(if m_cfitsio_index h1 = 1 then cat_restrict c0 Primary else cat_restrict c0 Ext) = Inr c"
    using assms(1) by (auto simp: hdu_category_def io_then_success rbind_eq_Inr)
  have h1: "m_type h1 = m_type h" "m_status h1 = touch_status (m_status h)" "wf_category (m_status h1)"
    using touch_success [OF one] assms(2) status_wf [OF status_touch] by simp_all
  have b0: "wf_category c0 \<and> den c0 \<subseteq> den (m_status h1)"
    using restrict_below [OF c0] h1 assms(3) by simp
  have "cat_restrict c0 (if m_cfitsio_index h1 = 1 then Primary else Ext) = Inr c"
    using c by (simp split: if_splits)
  then have "wf_category c \<and> den c \<subseteq> den c0"
    using restrict_below [of c0 _ c] b0 constants_wf by (simp split: if_splits)
  then show ?thesis
    using b0 h1 by auto
qed

lemma image_category_parts:
  assumes "image_category api s = (s', Inr c)"
  obtains s1 c0 c1 c2 k1 k2 k3 where "hdu_category api s = (s1, Inr c0)"
    "cat_restrict c0 k1 = Inr c1" "cat_restrict c1 k2 = Inr c2" "cat_restrict c2 k3 = Inr c"
    "wf_category k1" "wf_category k2" "wf_category k3"
proof -
  obtain s1 c0 n c1 t c2 b where parts: "hdu_category api s = (s1, Inr c0)"
    "cat_restrict c0 (if n = (0::int) then Metadata else Data) = Inr c1"
    "cat_restrict c1 (if t = TFloat \<or> t = TDouble then FloatImage else IntImage) = Inr c2"
    "cat_restrict c2 (if b then CompressedImageExt else RawImage) = Inr c"
    using assms unfolding image_category_def io_bind_success io_lift_def prod.inject by blast
  show thesis
    by (rule that [OF parts]) (simp_all add: constants_wf)
qed

lemma image_category_below_status:
  assumes "image_category api (f, h) = (s', Inr c)" and "status_reachable (m_status h)" and "m_type h = Image"
  shows "wf_category c \<and> den c \<subseteq> den (touch_status (m_status h))"
proof -
  obtain s1 c0 c1 c2 k1 k2 k3 where parts: "hdu_category api (f, h) = (s1, Inr c0)"
    "cat_restrict c0 k1 = Inr c1" "cat_restrict c1 k2 = Inr c2" "cat_restrict c2 k3 = Inr c"
    "wf_category k1" "wf_category k2" "wf_category k3"
    using assms(1) by (rule image_category_parts)
  have b0: "wf_category c0 \<and> den c0 \<subseteq> den (touch_status (m_status h))"
    using hdu_category_below_status [OF parts(1) assms(2)] assms(3) constants_wf by simp
  moreover have b1: "wf_category c1 \<and> den c1 \<subseteq> den c0"
    using restrict_below [OF parts(2)] b0 parts(5) by simp
  moreover have b2: "wf_category c2 \<and> den c2 \<subseteq> den c1"
    using restrict_below [OF parts(3)] b1 parts(6) by simp
  moreover have "wf_category c \<and> den c \<subseteq> den c2"
    using restrict_below [OF parts(4)] b2 parts(7) by simp
  ultimately show ?thesis by blast
qed

text \<open>
  Reading the shape of an image notifies an edition, and so does any query of its category: once
  an image handler has been tested against any filter, as the iteration over a file does, the
  handler counts as edited although nothing was written, and the closing action of
  \<^verbatim>\<open>VerifyChecksums\<close> takes it for an edited HDU.
\<close>

theorem image_query_marks_edited:
  assumes "m_type h = Image" and "status_reachable (m_status h)"
    and "hdu_matches api flt (f, h) = ((f1, h1), Inr b)"
  shows "isInstance (m_status h1) Edited \<and> (\<forall>s2 e. action_edited api (f1, h1) = (s2, Inr e) \<longrightarrow> e)"
proof -
  obtain c where "image_category api (f, h) = ((f1, h1), Inr c)"
    using assms(1,3) by (auto simp: hdu_matches_def io_bind_success category_of_handler_def)
  from image_category_status [OF this assms(2)]
  have h1: "h1 = h\<lparr>m_status := snd (edit_status (m_status h))\<rparr>" .
  have ed: "isInstance (snd (edit_status (m_status h))) Edited"
    using assms(2) unfolding status_reachable_iff by (elim insertE) (simp_all add: status_cases status_instances)
  have reach: "status_reachable (m_status h1)"
    using h1 status_edit [OF assms(2)] by simp
  have notified: "e" if run: "action_edited api (f1, h1) = (s2, Inr e)" for s2 e
  proof -
    obtain c where c: "image_category api (f1, h1) = (s2, Inr c)" and e: "e = accepts (filter_of Edited) c"
      using run assms(1) h1 by (auto simp: action_edited_def hdu_matches_def io_bind_success category_of_handler_def)
    have "wf_category c" "den c \<subseteq> den (m_status h1)"
      using image_category_below_status [OF c reach] assms(1) h1 status_edit_touch(2) [OF assms(2)] by simp_all
    then have "isInstance c Edited"
      using ed h1 constants_wf status_wf [OF reach] by (auto simp: isInstance_den)
    then show ?thesis
      using e by (simp add: accepts_def filter_of_def)
  qed
  have "isInstance (m_status h1) Edited"
    using h1 ed by simp
  with notified show ?thesis by blast
qed

text \<open>The masks met while the category of the image of \<open>mem_api\<close> is computed.\<close>

lemma image_masks:
  "Image = [Unconstrained, Unconstrained, First, Unconstrained, Unconstrained, Unconstrained, Unconstrained, Unconstrained]"
  "Primary = [First, Unconstrained, First, Unconstrained, Unconstrained, Unconstrained, Unconstrained, Unconstrained]"
  "Data = [Unconstrained, Second, Unconstrained, Unconstrained, Unconstrained, Unconstrained, Unconstrained, Unconstrained]"
  "FloatImage = [Unconstrained, Unconstrained, First, Second, Unconstrained, Unconstrained, Unconstrained, Unconstrained]"
  "RawImage = [Unconstrained, Unconstrained, First, Unconstrained, First, Unconstrained, Unconstrained, Unconstrained]"
  by (simp_all add: category_constants category_eval)

lemma mem_touch: "m_cfitsio_index h = 1 \<Longrightarrow> touch mem_api (f, h) = ((f, h\<lparr>m_status := touch_status (m_status h)\<rparr>), Inr ())"
  by (simp add: touch_def io_then_def io_bind_apply on_file_def goto_index_def current_index_def mem_api_def)

lemma mem_edit:
  assumes "m_cfitsio_index h = 1" and "status_reachable (m_status h)"
  shows "edit mem_api (f, h) = ((f, h\<lparr>m_status := snd (edit_status (m_status h))\<rparr>), Inr ())"
  using assms unfolding status_reachable_iff
  by (elim insertE) (simp_all add: edit_def mem_touch status_eval touch_status_def edit_status_def)

lemma mem_image_category:
  "\<exists>h c. image_category mem_api ([], hdu_init 0 Image Untouched) = (([], h), Inr c)"
proof -
  let ?h = "\<lparr>m_cfitsio_index = 1, m_type = Image, m_status = Touched\<rparr>"
  let ?g = "\<lparr>m_cfitsio_index = 1, m_type = Image, m_status = TouchedEdited\<rparr>"
  let ?c = "[First, Unconstrained, First, Unconstrained, Unconstrained, Second, Unconstrained, Unconstrained]"
  have reach: "status_reachable Touched"
    by (simp add: status_reachable_iff)
  have t: "touch mem_api ([], hdu_init 0 Image Untouched) = (([], ?h), Inr ())"
    by (simp add: mem_touch hdu_init_def status_cases)
  have c: "hdu_category mem_api ([], hdu_init 0 Image Untouched) = (([], ?h), Inr ?c)"
    unfolding hdu_category_def io_then_def io_bind_apply t
    by (simp add: status_values image_masks cat_restrict_def cat_restrict_assign_def restrictFlag_def)
  have e: "edit mem_api ([], ?h) = (([], ?g), Inr ())"
    using mem_edit [of ?h "[]"] reach by (simp add: status_cases)
  have n: "raster_read_size mem_api ([], ?h) = (([], ?g), Inr 6)"
    unfolding raster_read_size_def raster_read_shape_def
    by (simp add: io_bind_apply io_then_def e on_file_def read_shape_dynamic_def shapeSize_def, simp add: mem_api_def)
  have y: "raster_read_typeid mem_api ([], ?g) = (([], ?g), Inr TFloat)"
    unfolding raster_read_typeid_def
    by (simp add: io_bind_apply io_then_def mem_touch status_cases on_file_def read_typeid_def raster_types_def, simp add: mem_api_def)
  have z: "is_compressed mem_api [] = Inr False"
    by (simp add: is_compressed_def, simp add: mem_api_def)
  obtain c1 c2 c3 where m: "cat_restrict ?c Data = Inr c1" "cat_restrict c1 FloatImage = Inr c2" "cat_restrict c2 RawImage = Inr c3"
    by (simp add: image_masks cat_restrict_def cat_restrict_assign_def restrictFlag_def)
  show ?thesis
    unfolding image_category_def by (simp add: c n y z m on_file_def io_bind_apply)
qed

theorem image_query_marks_edited_witness:
  "isInstance (m_status (snd (fst (hdu_matches mem_api (filter_of Any) ([], hdu_init 0 Image Untouched))))) Edited"
proof -
  let ?s = "hdu_matches mem_api (filter_of Any) ([], hdu_init 0 Image Untouched)"
  obtain h c where "image_category mem_api ([], hdu_init 0 Image Untouched) = (([], h), Inr c)"
    using mem_image_category by blast
  then have run: "?s = (([], h), Inr (accepts (filter_of Any) c))"
    by (simp add: hdu_matches_def category_of_handler_def io_bind_apply hdu_init_def)
  then have "m_status (snd (fst ?s)) = m_status h"
    by simp
  then show ?thesis
    using image_query_marks_edited [OF _ _ run] status_reachable.opened by (simp add: hdu_init_def)
qed

section \<open>What the writing modes do\<close>

lemma touch_at:
  assumes "api_get_hdu_num api f = m_cfitsio_index h"
  shows "touch api (f, h) = ((f, h\<lparr>m_status := touch_status (m_status h)\<rparr>), Inr ())"
  using assms by (simp add: touch_def io_then_def io_bind_apply on_file_def goto_index_def current_index_def)

lemma edit_at:
  assumes "api_get_hdu_num api f = m_cfitsio_index h" and "status_reachable (m_status h)"
  shows "edit api (f, h) = ((f, h\<lparr>m_status := snd (edit_status (m_status h))\<rparr>), Inr ())"
proof -
  have "cat_restrict_assign (touch_status (m_status h)) Edited = (None, snd (edit_status (m_status h)))"
    using handler_status_edit [OF assms(2)] by (simp add: edit_status_def prod_eq_iff)
  then show ?thesis
    by (simp add: edit_def io_then_def io_bind_apply touch_at [OF assms(1)])
qed

lemma has_at:
  assumes "api_get_hdu_num api f = m_cfitsio_index h" and "touch_status (m_status h) = m_status h"
    and "has_keyword api k f = Inr b"
  shows "header_has api k (f, h) = ((f, h), Inr b)"
  using assms by (simp add: header_has_def io_then_def io_bind_apply touch_at on_file_def)

text \<open>
  C15: the four writing modes do what they are named after.  On the HDU the file is positioned at, and
  with the presence of the keyword known, \<^verbatim>\<open>CreateUnique\<close> writes a record unless its keyword exists,
  \<^verbatim>\<open>UpdateExisting\<close> updates it unless the keyword does not exist, \<^verbatim>\<open>CreateNew\<close> writes and
  \<^verbatim>\<open>CreateOrUpdate\<close> updates unconditionally; \<^verbatim>\<open>remove\<close> deletes an existing keyword only.  A rejected call leaves the
  file as it was, but in every case the handler counts as edited.
\<close>

theorem header_write_modes:
  fixes h :: hdu
  defines "h' \<equiv> h\<lparr>m_status := snd (edit_status (m_status h))\<rparr>"
  assumes "api_get_hdu_num api f = m_cfitsio_index h" and "status_reachable (m_status h)"
    and "has_keyword api (rec_keyword r) f = Inr b"
  shows "header_write api CreateUnique r (f, h) =
           (if b then ((f, h'), Inl (KeywordExistsError (rec_keyword r))) else on_file (write_record_any api r) (f, h')) \<and>
         header_write api UpdateExisting r (f, h) =
           (if b then on_file (update_record_any api r) (f, h') else ((f, h'), Inl (KeywordNotFoundError (rec_keyword r)))) \<and>
         header_write api CreateNew r (f, h) = on_file (write_record_any api r) (f, h') \<and>
         header_write api CreateOrUpdate r (f, h) = on_file (update_record_any api r) (f, h') \<and>
         header_remove api (rec_keyword r) (f, h) =
           (if b then on_file (remove_record api (rec_keyword r)) (f, h')
            else ((f, h'), Inl (KeywordNotFoundError (rec_keyword r)))) \<and>
         isInstance (m_status h') Edited"
proof -
  have e: "edit api (f, h) = ((f, h'), Inr ())"
    using edit_at [OF assms(2,3)] by (simp add: h'_def)
  have k: "header_has api (rec_keyword r) (f, h') = ((f, h'), Inr b)"
    using has_at [of api f h'] assms(2,4) status_edit_touch(2) [OF assms(3)] by (simp add: h'_def)
  show ?thesis
    using handler_status_edit [OF assms(3)]
    by (simp add: header_write_def header_remove_def keyword_exists_may_throw_def keyword_not_found_may_throw_def
        io_then_def io_bind_apply e k h'_def [symmetric]) (simp add: h'_def)
qed

theorem header_write_modes_witness:
  "snd (header_write mem_api CreateUnique (record_init ''KEY'' (Variant TInt (IntVal 1)) [] []) ([(''KEY'', IntVal 3, [])], hdu_init 0 Image Untouched))
     = Inl (KeywordExistsError ''KEY'')"
  using header_write_modes [of mem_api "[(''KEY'', IntVal 3, [])]" "hdu_init 0 Image Untouched"
      "record_init ''KEY'' (Variant TInt (IntVal 1)) [] []" True] status_reachable.opened
  by (simp add: mem_has_keyword hdu_init_def record_init_def, simp add: mem_api_def)

text \<open>
  C37: the access action of \<^verbatim>\<open>VerifyChecksums\<close> lets an HDU without checksums through and throws exactly
  when the HDU or the data checksum is incorrect; the plain \<^verbatim>\<open>verify_checksums\<close> also throws when one is missing.
\<close>

theorem checksum_verification:
  assumes "api_get_hdu_num api f = m_cfitsio_index h" and "api_verify_chksum api f = ((data, hdu), st)"
  shows "(snd (verify_checksums api (f, h)) = Inr () \<longleftrightarrow> data \<notin> {- 1, 0} \<and> hdu \<notin> {- 1, 0}) \<and>
         (snd (verify_accessed api (f, h)) = Inr () \<longleftrightarrow> data \<noteq> - 1 \<and> hdu \<noteq> - 1) \<and>
         fst (fst (verify_accessed api (f, h))) = f"
proof -
  have v: "verify_checksums api (f, h) =
      ((f, h\<lparr>m_status := touch_status (m_status h)\<rparr>), checksum_may_throw (checksum_of_int hdu) (checksum_of_int data))"
    using assms by (simp add: verify_checksums_def io_then_def io_bind_apply touch_at on_file_def)
  show ?thesis
    unfolding verify_accessed_def v
    by (auto simp: checksum_may_throw_def checksum_missing_def checksum_incorrect_def)
qed

theorem checksum_verification_witness:
  "snd (verify_accessed mem_api ([], hdu_init 0 Image Untouched)) = Inr ()"
  using checksum_verification [of mem_api "[]" "hdu_init 0 Image Untouched" 1 1 0]
  by (simp add: hdu_init_def mem_api_def)

end
