(* ===== verification/Fits_File.thy ===== *)
theory Fits_File
  imports Fits_Header
begin

text \<open>
  Opening and closing files: the wrapper \<^verbatim>\<open>FileWrapper.cpp\<close> and the class \<^verbatim>\<open>FitsFile\<close>.  The storage (the
  file system as CFITSIO sees it) is a parameter; \<open>'w\<close> is its state and \<open>'f\<close> that of an open file.
\<close>

section \<open>The storage\<close>

record ('w, 'f) storage =
  fs_readable :: "string \<Rightarrow> 'w \<Rightarrow> bool"
  fs_create_file :: "string \<Rightarrow> 'w \<Rightarrow> ('w \<times> 'f) \<times> int"
  fs_open_file :: "string \<Rightarrow> int \<Rightarrow> 'w \<Rightarrow> ('w \<times> 'f) \<times> int"
  fs_close_file :: "'f \<Rightarrow> 'w \<Rightarrow> 'w \<times> int"
  fs_delete_file :: "'f \<Rightarrow> 'w \<Rightarrow> 'w \<times> int"

definition READONLY :: int where "READONLY = 0"

section \<open>The wrapper\<close>

datatype create_policy = CreateOnly | OverWrite
datatype open_policy = ReadOnly | ReadWrite

definition create_open ::
  "('w, 'f) storage \<Rightarrow> 'f cfitsio \<Rightarrow> string \<Rightarrow> create_policy \<Rightarrow> ('w, 'f) io" where
  "create_open fs api filename policy = (\<lambda>w.
     let cfitsio_name = (if policy = OverWrite then CHR ''!'' # filename else filename) in
     case fs_create_file fs cfitsio_name w of ((w', f), st) \<Rightarrow>
       (w', rbind (cfitsio_may_throw st (''Cannot create file: '' @ filename)) (\<lambda>_.
            case init_primary api f of (f', r) \<Rightarrow> rbind r (\<lambda>_. Inr f'))))"

definition open_file :: "('w, 'f) storage \<Rightarrow> string \<Rightarrow> open_policy \<Rightarrow> ('w, 'f) io" where
  "open_file fs filename policy = (\<lambda>w.
     let permission = (if policy = ReadWrite then READWRITE else READONLY) in
     case fs_open_file fs filename permission w of ((w', f), st) \<Rightarrow>
       (w', rbind (cfitsio_may_throw st (''Cannot open file: '' @ filename)) (\<lambda>_. Inr f)))"

text \<open>\<^verbatim>\<open>close\<close> and \<^verbatim>\<open>close_delete\<close> take the pointer by reference and reset it; \<open>None\<close> is the null pointer.\<close>

definition close_pointer :: "('w, 'f) storage \<Rightarrow> ('w \<times> 'f option, unit) io" where
  "close_pointer fs = (\<lambda>(w, p). case p of
     None \<Rightarrow> ((w, p), Inr ())
   | Some f \<Rightarrow> (case fs_close_file fs f w of (w', st) \<Rightarrow>
       (case cfitsio_may_throw st ''Cannot close file'' of
          Inl e \<Rightarrow> ((w', p), Inl e)
        | Inr _ \<Rightarrow> ((w', None), Inr ()))))"

definition close_delete :: "('w, 'f) storage \<Rightarrow> 'f cfitsio \<Rightarrow> ('w \<times> 'f option, unit) io" where
  "close_delete fs api = (\<lambda>(w, p). case p of
     None \<Rightarrow> ((w, p), Inr ())
   | Some f \<Rightarrow> (case snd (may_throw_readonly api f) of
       Inl e \<Rightarrow> ((w, p), Inl e)
     | Inr _ \<Rightarrow> (case fs_delete_file fs f w of (w', st) \<Rightarrow>
         ((w', None), cfitsio_may_throw st ''Cannot close and delete file''))))"

section \<open>The file handler\<close>

datatype file_mode = Read | Edit | Create | Write | Overwrite | Temporary

record 'f fits_file =
  m_fptr :: "'f option"
  m_filename :: string
  m_permission :: file_mode

definition read_only_may_throw :: "string \<Rightarrow> file_mode \<Rightarrow> unit result" where
  "read_only_may_throw prefix mode =
     (if mode = Read then Inl (ReadOnlyError prefix) else Inr ())"

definition is_open :: "('f, 'z) fits_file_scheme \<Rightarrow> bool" where
  "is_open s \<longleftrightarrow> m_fptr s \<noteq> None"

definition open_mode :: "('w, 'f) storage \<Rightarrow> 'f cfitsio \<Rightarrow> string \<Rightarrow> file_mode \<Rightarrow> ('w, 'f) io" where
  "open_mode fs api filename permission = (\<lambda>w. case permission of
     Read \<Rightarrow> open_file fs filename ReadOnly w
   | Write \<Rightarrow> if fs_readable fs filename w then open_file fs filename ReadWrite w
              else create_open fs api filename CreateOnly w
   | Edit \<Rightarrow> open_file fs filename ReadWrite w
   | Create \<Rightarrow> create_open fs api filename CreateOnly w
   | Overwrite \<Rightarrow> create_open fs api filename OverWrite w
   | Temporary \<Rightarrow> create_open fs api filename CreateOnly w)"

definition open_impl ::
  "('w, 'f) storage \<Rightarrow> 'f cfitsio \<Rightarrow> string \<Rightarrow> file_mode \<Rightarrow> ('w \<times> ('f, 'z) fits_file_scheme, unit) io" where
  "open_impl fs api filename permission = (\<lambda>(w, s).
     if is_open s
     then ((w, s), Inl (FitsError (''Cannot open file '' @ [CHR 0x27] @ filename @ [CHR 0x27] @ '' because '' @
                                   [CHR 0x27] @ m_filename s @ [CHR 0x27] @ '' is still open.'')))
     else (case open_mode fs api filename permission w of
             (w', Inl e) \<Rightarrow> ((w', s), Inl e)
           | (w', Inr f) \<Rightarrow> ((w', s\<lparr>m_fptr := Some f, m_filename := filename, m_permission := permission\<rparr>), Inr ())))"

definition file_init :: "('w, 'f) storage \<Rightarrow> 'f cfitsio \<Rightarrow> string \<Rightarrow> file_mode \<Rightarrow> 'w \<Rightarrow> ('w \<times> 'f fits_file) \<times> unit result" where
  "file_init fs api filename permission w =
     open_impl fs api filename permission (w, \<lparr>m_fptr = None, m_filename = filename, m_permission = permission\<rparr>)"

definition on_pointer :: "('w \<times> 'f option, unit) io \<Rightarrow> ('w \<times> ('f, 'z) fits_file_scheme, unit) io" where
  "on_pointer m = (\<lambda>(w, s). case m (w, m_fptr s) of ((w', p), r) \<Rightarrow> ((w', s\<lparr>m_fptr := p\<rparr>), r))"

definition close_remove :: "('w, 'f) storage \<Rightarrow> 'f cfitsio \<Rightarrow> ('w \<times> ('f, 'z) fits_file_scheme, unit) io" where
  "close_remove fs api = (\<lambda>(w, s).
     if \<not> is_open s then ((w, s), Inr ()) else on_pointer (close_delete fs api) (w, s))"

definition close_impl :: "('w, 'f) storage \<Rightarrow> 'f cfitsio \<Rightarrow> ('w \<times> ('f, 'z) fits_file_scheme, unit) io" where
  "close_impl fs api = (\<lambda>(w, s).
     if \<not> is_open s then ((w, s), Inr ())
     else if m_permission s = Temporary then close_remove fs api (w, s)
     else on_pointer (close_pointer fs) (w, s))"

definition reopen :: "('w, 'f) storage \<Rightarrow> 'f cfitsio \<Rightarrow> ('w \<times> ('f, 'z) fits_file_scheme, unit) io" where
  "reopen fs api = (\<lambda>(w, s).
     if is_open s then ((w, s), Inr ())
     else case m_permission s of
            Create \<Rightarrow> open_impl fs api (m_filename s) Edit (w, s)
          | Overwrite \<Rightarrow> open_impl fs api (m_filename s) Edit (w, s)
          | Temporary \<Rightarrow> ((w, s), Inl (FitsError ''Cannot reopen closed temporary file.''))
          | _ \<Rightarrow> open_impl fs api (m_filename s) (m_permission s) (w, s))"

definition handover_to_cfitsio :: "('f, 'z) fits_file_scheme \<Rightarrow> ('f, 'z) fits_file_scheme \<times> 'f option" where
  "handover_to_cfitsio s = (s\<lparr>m_fptr := None\<rparr>, m_fptr s)"

section \<open>The life of a file handler\<close>

text \<open>What can happen to a handler once its constructor has returned; \<open>work\<close> is anything done through the HDUs.\<close>

inductive file_step :: "('w, 'f) storage \<Rightarrow> 'f cfitsio \<Rightarrow> 'w \<times> 'f fits_file \<Rightarrow> 'w \<times> 'f fits_file \<Rightarrow> bool"
  for fs api where
  step_open: "open_impl fs api filename permission ws = (ws', r) \<Longrightarrow> file_step fs api ws ws'"
| step_reopen: "reopen fs api ws = (ws', r) \<Longrightarrow> file_step fs api ws ws'"
| step_close: "close_impl fs api ws = (ws', r) \<Longrightarrow> file_step fs api ws ws'"
| step_remove: "close_remove fs api ws = (ws', r) \<Longrightarrow> file_step fs api ws ws'"
| step_handover: "file_step fs api (w, s) (w, fst (handover_to_cfitsio s))"
| step_work: "m_fptr s = Some f \<Longrightarrow> is_writable api f' = is_writable api f \<Longrightarrow>
    file_step fs api (w, s) (w, s\<lparr>m_fptr := Some f'\<rparr>)"

inductive file_reachable :: "('w, 'f) storage \<Rightarrow> 'f cfitsio \<Rightarrow> 'w \<times> 'f fits_file \<Rightarrow> bool" for fs api where
  constructed: "file_init fs api filename permission w = (ws, Inr ()) \<Longrightarrow> file_reachable fs api ws"
| stepped: "file_reachable fs api ws \<Longrightarrow> file_step fs api ws ws' \<Longrightarrow> file_reachable fs api ws'"

text \<open>The documented behaviour of CFITSIO: a file has the mode it was opened with, and a created one is writable.\<close>

definition modes_documented :: "('w, 'f) storage \<Rightarrow> 'f cfitsio \<Rightarrow> bool" where
  "modes_documented fs api \<longleftrightarrow>
     (\<forall>n m w w' f. fs_open_file fs n m w = ((w', f), 0) \<longrightarrow> is_writable api f = (m = READWRITE)) \<and>
     (\<forall>n w w' f f' b. fs_create_file fs n w = ((w', f), 0) \<and> init_primary api f = (f', Inr b) \<longrightarrow> is_writable api f')"

definition mode_invariant :: "'f cfitsio \<Rightarrow> ('f, 'z) fits_file_scheme \<Rightarrow> bool" where
  "mode_invariant api s \<longleftrightarrow> (\<forall>f. m_fptr s = Some f \<longrightarrow> is_writable api f = (m_permission s \<noteq> Read))"

lemma cfitsio_may_throw_Inr [simp]: "cfitsio_may_throw st msg = Inr u \<longleftrightarrow> st = 0"
  by (simp add: cfitsio_may_throw_def)

lemma create_open_writable:
  "modes_documented fs api \<Longrightarrow> create_open fs api n p w = (w', Inr f) \<Longrightarrow> is_writable api f"
  by (auto simp: create_open_def modes_documented_def Let_def rbind_eq_Inr split: prod.splits if_splits) blast+

lemma open_file_writable:
  "modes_documented fs api \<Longrightarrow> open_file fs n p w = (w', Inr f) \<Longrightarrow> is_writable api f = (p = ReadWrite)"
  by (cases p) (auto simp: open_file_def modes_documented_def Let_def rbind_eq_Inr READONLY_def READWRITE_def split: prod.splits)

lemma open_mode_writable:
  "modes_documented fs api \<Longrightarrow> open_mode fs api n m w = (w', Inr f) \<Longrightarrow> is_writable api f = (m \<noteq> Read)"
  by (auto simp: open_mode_def dest: create_open_writable open_file_writable split: file_mode.splits if_splits)

lemma open_impl_invariant:
  assumes "modes_documented fs api" and "mode_invariant api s" and "open_impl fs api n m (w, s) = ((w', s'), r)"
  shows "mode_invariant api s'"
  using assms open_mode_writable [OF assms(1)]
  by (auto simp: open_impl_def mode_invariant_def split: if_splits prod.splits sum.splits)

lemma close_invariant:
  assumes "mode_invariant api s"
  shows "close_impl fs api (w, s) = ((w', s'), r) \<Longrightarrow> mode_invariant api s'"
    and "close_remove fs api (w, s) = ((w', s'), r) \<Longrightarrow> mode_invariant api s'"
  using assms
  by (auto simp: close_impl_def close_remove_def on_pointer_def close_pointer_def close_delete_def mode_invariant_def
      split: if_splits prod.splits option.splits sum.splits)

lemma reopen_invariant:
  assumes "modes_documented fs api" and "mode_invariant api s" and "reopen fs api (w, s) = ((w', s'), r)"
  shows "mode_invariant api s'"
  using assms(2,3) open_impl_invariant [OF assms(1,2)]
  by (auto simp: reopen_def split: if_splits file_mode.splits)

lemma file_step_invariant:
  assumes "file_step fs api ws ws'" and "modes_documented fs api" and "mode_invariant api (snd ws)"
  shows "mode_invariant api (snd ws')"
  using assms
proof cases
  case (step_open n m r)
  then show ?thesis
    using open_impl_invariant [OF assms(2,3), of n m "fst ws" "fst ws'" "snd ws'" r] by simp
next
  case (step_reopen r)
  then show ?thesis
    using reopen_invariant [OF assms(2,3), of "fst ws" "fst ws'" "snd ws'" r] by simp
next
  case (step_close r)
  then show ?thesis
    using close_invariant(1) [OF assms(3), of fs "fst ws" "fst ws'" "snd ws'" r] by simp
next
  case (step_remove r)
  then show ?thesis
    using close_invariant(2) [OF assms(3), of fs "fst ws" "fst ws'" "snd ws'" r] by simp
qed (auto simp: handover_to_cfitsio_def mode_invariant_def)

text \<open>
  C12: in every state a handler can reach, through any sequence of openings, closings, hand-overs and work on the HDUs,
  and whichever of them fail, the file behind the pointer is writable exactly when the mode of the handler is not
  \<^verbatim>\<open>Read\<close>; in particular closing a temporary file never fails for lack of permission and always releases the pointer.
\<close>

theorem file_mode_kept:
  assumes "modes_documented fs api" and "file_reachable fs api (w, s)"
  shows "(m_fptr s = Some f \<longrightarrow> is_writable api f = (m_permission s \<noteq> Read)) \<and>
         (m_permission s = Temporary \<longrightarrow> \<not> is_open (snd (fst (close_impl fs api (w, s)))) \<and>
            (\<forall>e. snd (close_impl fs api (w, s)) = Inl e \<longrightarrow> (\<exists>st. st \<noteq> 0 \<and> e = CfitsioError st ''Cannot close and delete file'')))"
proof -
  have "mode_invariant api (snd ws)" if "file_reachable fs api ws" for ws
    using that
  proof induction
    case (constructed n m w ws)
    have "mode_invariant api \<lparr>m_fptr = None, m_filename = n, m_permission = m\<rparr>"
      by (simp add: mode_invariant_def)
    from open_impl_invariant [OF assms(1) this, of n m w "fst ws" "snd ws"] constructed show ?case
      by (simp add: file_init_def)
  next
    case (stepped ws ws')
    then show ?case
      using file_step_invariant [OF stepped.hyps(2) assms(1)] by blast
  qed
  from this [OF assms(2)] show ?thesis
    by (auto simp: mode_invariant_def close_impl_def close_remove_def on_pointer_def close_delete_def is_open_def
        may_throw_readonly_def cfitsio_may_throw_def split: prod.splits option.splits)
qed

text \<open>A storage that knows the names of its files; an open file is its writability.\<close>

definition disk_api :: "bool cfitsio" where
  "disk_api =
     \<lparr>api_get_hdu_num = \<lambda>f. 1, api_get_num_hdus = \<lambda>f. (1, 0), api_get_hdu_type = \<lambda>f. (IMAGE_HDU, 0),
      api_get_hduaddr = \<lambda>f. ((0, 2880), 0), api_movabs_hdu = \<lambda>i f. (f, 0), api_movrel_hdu = \<lambda>i f. (f, 0),
      api_movnam_hdu = \<lambda>t n v f. (f, 0), api_delete_hdu = \<lambda>f. (f, 0), api_create_img = \<lambda>t s f. (f, 0),
      api_verify_chksum = \<lambda>f. ((1, 1), 0), api_write_chksum = \<lambda>f. (f, 0),
      api_file_mode = \<lambda>f. (if f then READWRITE else READONLY, 0),
      api_hdr2str = \<lambda>b f. ([], 0), api_get_hdrspace = \<lambda>f. (0, 0), api_read_keyn = \<lambda>i f. (([], []), 0),
      api_get_key_strlen = \<lambda>k f. (0, KEY_NO_EXIST), api_read_key = \<lambda>t k f. ((IntVal 0, []), KEY_NO_EXIST),
      api_read_key_longstr = \<lambda>k f. (([], []), KEY_NO_EXIST), api_read_key_unit = \<lambda>k f. ([], KEY_NO_EXIST),
      api_read_keyword = \<lambda>k f. ([], KEY_NO_EXIST), api_get_keytype = \<lambda>v. (CHR ''I'', 0),
      api_write_key = \<lambda>t k v c f. (f, 0), api_update_key = \<lambda>t k v c f. (f, 0), api_write_key_longwarn = \<lambda>f. (f, 0),
      api_write_key_longstr = \<lambda>k s c f. (f, 0), api_delete_key = \<lambda>k f. (f, 0), api_write_comment = \<lambda>c f. (f, 0),
      api_write_history = \<lambda>h f. (f, 0), api_get_img_equivtype = \<lambda>f. (8, 0), api_get_img_size = \<lambda>f. ([], 0),
      api_is_compressed_image = \<lambda>f. (False, 0), api_get_num_cols = \<lambda>f. (0, 0), api_get_num_rows = \<lambda>f. (0, 0)\<rparr>"

definition disk :: "(string list, bool) storage" where
  "disk =
     \<lparr>fs_readable = \<lambda>n w. n \<in> set w,
      fs_create_file = \<lambda>n w. if n \<in> set w then ((w, True), 105) else ((n # w, True), 0),
      fs_open_file = \<lambda>n m w. if n \<in> set w then ((w, m = READWRITE), 0) else ((w, False), 104),
      fs_close_file = \<lambda>f w. (w, 0), fs_delete_file = \<lambda>f w. (tl w, 0)\<rparr>"

lemma disk_writable: "is_writable disk_api f = f"
  by (simp add: is_writable_def disk_api_def READWRITE_def READONLY_def)

lemma disk_primary: "init_primary disk_api f = (f, Inr False)"
  by (simp add: init_primary_def io_bind_apply hdu_count_def) (simp add: disk_api_def)

lemma disk_modes: "modes_documented disk disk_api"
  unfolding modes_documented_def disk_writable disk_primary by (auto simp: disk_def split: if_splits)

lemma disk_create: "file_init disk disk_api ''a'' Temporary [] = (([''a''], \<lparr>m_fptr = Some True, m_filename = ''a'', m_permission = Temporary\<rparr>), Inr ())"
  by (simp add: file_init_def open_impl_def is_open_def open_mode_def create_open_def disk_primary) (simp add: disk_def)

theorem file_mode_kept_witness:
  "\<not> is_open (snd (fst (close_impl disk disk_api ([''a''], \<lparr>m_fptr = Some True, m_filename = ''a'', m_permission = Temporary\<rparr>))))"
  using file_mode_kept [OF disk_modes file_reachable.constructed [OF disk_create]] by simp



end
