(* ===== verification/Fits_Iterator.thy ===== *)
theory Fits_Iterator
  imports Fits_Position
begin

text \<open>
  Screening the positions of a region: \<^verbatim>\<open>PositionIterator\<close> (\<^verbatim>\<open>EleFitsData/PositionIterator.h\<close>), which
  stops past the back of the region, and \<^verbatim>\<open>RegionScreener\<close> (\<^verbatim>\<open>EleFitsData/Region.h\<close>), which wraps
  around.  Both classes have the same members and the same carry loop; every access to a coordinate
  goes through the checked accessors, so a carry beyond the last axis is visible as \<open>Undefined\<close>.
\<close>

section \<open>The model\<close>

record screener =
  m_region :: region
  m_current :: position
  m_fronts :: "position list"
  m_followers :: "position list"

definition screener_init :: "region \<Rightarrow> position list \<Rightarrow> screener" where
  "screener_init r followers =
     \<lparr>m_region = r, m_current = rg_front r, m_fronts = followers, m_followers = followers\<rparr>"

definition screener_reset :: "screener \<Rightarrow> screener" where
  "screener_reset s = s\<lparr>m_current := rg_front (m_region s), m_followers := m_fronts s\<rparr>"

text \<open>\<^verbatim>\<open>p[i]++\<close>\<close>

definition incr_at :: "nat \<Rightarrow> position \<Rightarrow> position result" where
  "incr_at i p = rbind (rd p (int i)) (\<lambda>v. wr p (int i) (v + 1))"

text \<open>The loop over the followers at axis \<open>i\<close>: \<^verbatim>\<open>f[i] = front[i]; f[i + 1]++\<close>.\<close>

definition carry_follower :: "nat \<Rightarrow> position \<times> position \<Rightarrow> position result" where
  "carry_follower i = (\<lambda>(fr, f). rbind (rd fr (int i)) (\<lambda>v. rbind (wr f (int i) v) (incr_at (i + 1))))"

text \<open>One iteration of the loop over the axes.\<close>

definition carry_axis ::
  "region \<Rightarrow> position list \<Rightarrow> nat \<Rightarrow> position \<times> position list \<Rightarrow> (position \<times> position list) result" where
  "carry_axis r fronts i = (\<lambda>(current, followers).
     rbind (rd current (int i)) (\<lambda>c.
     rbind (rd (rg_back r) (int i)) (\<lambda>b.
     if c > b then
       rbind (rd (rg_front r) (int i)) (\<lambda>f.
       rbind (wr current (int i) f) (\<lambda>current1.
       rbind (incr_at (i + 1) current1) (\<lambda>current2.
       rbind (rmap (carry_follower i) (zip fronts followers)) (\<lambda>followers2.
       Inr (current2, followers2)))))
     else Inr (current, followers))))"

text \<open>The common part of the two \<^verbatim>\<open>next()\<close> methods, once the back position is excluded.\<close>

definition screener_advance :: "screener \<Rightarrow> screener result" where
  "screener_advance s =
     rbind (incr_at 0 (m_current s)) (\<lambda>current1.
     rbind (rmap (incr_at 0) (m_followers s)) (\<lambda>followers1.
     rbind (rfold (carry_axis (m_region s) (m_fronts s)) [0..<length current1] (current1, followers1))
       (\<lambda>(current2, followers2). Inr (s\<lparr>m_current := current2, m_followers := followers2\<rparr>))))"

definition iterator_next :: "screener \<Rightarrow> screener result" where
  "iterator_next s =
     (if container_eq (m_current s) (rg_back (m_region s))
      then rbind (incr_at 0 (m_current s)) (\<lambda>c. Inr (s\<lparr>m_current := c\<rparr>))
      else screener_advance s)"

definition screener_next :: "screener \<Rightarrow> screener result" where
  "screener_next s =
     (if container_eq (m_current s) (rg_back (m_region s))
      then Inr (s\<lparr>m_current := rg_front (m_region s), m_followers := m_fronts s\<rparr>)
      else screener_advance s)"

definition iterator_begin :: "region \<Rightarrow> screener" where
  "iterator_begin r = screener_init r []"

definition iterator_end :: "region \<Rightarrow> screener result" where
  "iterator_end r =
     rbind (incr_at 0 (rg_back r)) (\<lambda>past. Inr (screener_init \<lparr>rg_front = past, rg_back = rg_back r\<rparr> []))"

definition iterator_neq :: "screener \<Rightarrow> screener \<Rightarrow> bool" where
  "iterator_neq lhs rhs \<longleftrightarrow> container_neq (m_current lhs) (m_current rhs)"

definition iterator_eq :: "screener \<Rightarrow> screener \<Rightarrow> bool" where
  "iterator_eq lhs rhs \<longleftrightarrow> container_eq (m_current lhs) (m_current rhs)"

text \<open>
  The range-based loop \<^verbatim>\<open>for (const auto& p : region)\<close>: the positions it visits, in order.  The first
  argument is fuel; \<open>None\<close> means that the loop is still running when the fuel is spent.
\<close>

fun screen_loop :: "nat \<Rightarrow> screener \<Rightarrow> screener \<Rightarrow> position list result option" where
  "screen_loop 0 it stop = None"
| "screen_loop (Suc fuel) it stop =
     (if iterator_neq it stop
      then case iterator_next it of
             Inl e \<Rightarrow> Some (Inl e)
           | Inr it' \<Rightarrow> map_option (\<lambda>res. rbind res (\<lambda>ps. Inr (m_current it # ps))) (screen_loop fuel it' stop)
      else Some (Inr []))"

definition screen_region :: "nat \<Rightarrow> region \<Rightarrow> position list result option" where
  "screen_region fuel r =
     (case iterator_end r of Inl e \<Rightarrow> Some (Inl e) | Inr stop \<Rightarrow> screen_loop fuel (iterator_begin r) stop)"

section \<open>Displacements\<close>

text \<open>
  The current position and every follower move together: they are their initial value plus a common
  displacement.  The carry loop is first proved for displacements.
\<close>

fun dsucc :: "int list \<Rightarrow> int list \<Rightarrow> int list" where
  "dsucc (e # es) (x # xs) = (if x < e then (x + 1) # xs else 0 # dsucc es xs)"
| "dsucc es xs = []"

fun inc_head :: "int list \<Rightarrow> int list" where
  "inc_head [] = []"
| "inc_head (x # xs) = (x + 1) # xs"

definition dcarry :: "int list \<Rightarrow> nat \<Rightarrow> int list \<Rightarrow> int list result" where
  "dcarry ext i d =
     (if d ! i > ext ! i
      then if i + 1 < length d then Inr (d[i := 0, i + 1 := d ! (i + 1) + 1]) else Inl Undefined
      else Inr d)"

abbreviation zeros :: "nat \<Rightarrow> int list" where
  "zeros n \<equiv> replicate n 0"

definition extent :: "region \<Rightarrow> int list" where
  "extent r = op_minus (rg_back r) (rg_front r)"

definition screener_at :: "region \<Rightarrow> position list \<Rightarrow> int list \<Rightarrow> screener" where
  "screener_at r fronts d =
     \<lparr>m_region = r, m_current = op_plus (rg_front r) d, m_fronts = fronts,
      m_followers = map (\<lambda>f. op_plus f d) fronts\<rparr>"

definition followers_fit :: "region \<Rightarrow> position list \<Rightarrow> bool" where
  "followers_fit r fronts \<longleftrightarrow> (\<forall>f \<in> set fronts. length f = length (rg_front r))"

lemma inc_head_length [simp]: "length (inc_head xs) = length xs"
  by (cases xs) auto

lemma in_box_zeros_nonneg: "in_box (zeros (length es)) es xs \<Longrightarrow> i < length xs \<Longrightarrow> xs ! i \<le> es ! i"
  by (simp add: in_box_nth)

lemma dcarry_idle:
  assumes "\<forall>i < length d. d ! i \<le> ext ! i" and "\<forall>i \<in> set is. i < length d"
  shows "rfold (dcarry ext) is d = Inr d"
  using assms by (induction "is") (auto simp: dcarry_def leD)

lemma dcarry_Cons: "dcarry (e # es) (Suc i) (x # d) = rbind (dcarry es i d) (\<lambda>d'. Inr (x # d'))"
  by (auto simp: dcarry_def)

lemma rfold_dcarry_Cons:
  "rfold (dcarry (e # es)) (map Suc is) (x # d) = rbind (rfold (dcarry es) is d) (\<lambda>d'. Inr (x # d'))"
proof (induction "is" arbitrary: d)
  case (Cons i "is")
  then show ?case
    by (cases "dcarry es i d") (auto simp: dcarry_Cons)
qed simp

lemma upt_Suc_map: "[0..<Suc n] = 0 # map Suc [0..<n]"
  by (simp add: map_Suc_upt upt_conv_Cons del: upt_Suc)

lemma dcarry_loop:
  assumes "in_box (zeros (length ext)) ext d" and "d \<noteq> ext"
  shows "rfold (dcarry ext) [0..<length d] (inc_head d) = Inr (dsucc ext d)"
  using assms
proof (induction ext d rule: dsucc.induct)
  case (1 e es x xs)
  then have box: "0 \<le> x" "x \<le> e" "in_box (zeros (length es)) es xs"
    by auto
  show ?case
  proof (cases "x < e")
    case True
    have "\<forall>i < length ((x + 1) # xs). ((x + 1) # xs) ! i \<le> (e # es) ! i"
      using True box in_box_zeros_nonneg [OF box(3)] by (auto simp: nth_Cons split: nat.splits)
    then show ?thesis
      using True dcarry_idle [of "(x + 1) # xs" "e # es" "[0..<length (x # xs)]"] by simp
  next
    case False
    with box 1 have x: "x = e" and ne: "xs \<noteq> es" by auto
    then obtain y ys where xs: "xs = y # ys"
      using box(3) by (cases xs) (auto simp: in_box_nth)
    have step: "dcarry (e # es) 0 (inc_head (x # xs)) = Inr (0 # inc_head xs)"
      using x xs by (simp add: dcarry_def)
    have "rfold (dcarry es) [0..<length xs] (inc_head xs) = Inr (dsucc es xs)"
      using 1 False box(3) ne by simp
    then show ?thesis
      using step False by (simp add: upt_Suc_map rfold_dcarry_Cons del: upt_Suc)
  qed
qed (auto simp: in_box_nth)

section \<open>The carry loop moves everything by the same displacement\<close>

lemma incr_at_zero: "p \<noteq> [] \<Longrightarrow> incr_at 0 p = Inr (inc_head p)"
  by (cases p) (simp_all add: incr_at_def)

lemma incr_at_in: "i < length p \<Longrightarrow> incr_at i p = Inr (p[i := p ! i + 1])"
  by (simp add: incr_at_def)

lemma incr_at_out: "\<not> i < length p \<Longrightarrow> incr_at i p = Inl Undefined"
  by (simp add: incr_at_def rd_def)

lemma inc_head_op_plus: "length f = length d \<Longrightarrow> inc_head (op_plus f d) = op_plus f (inc_head d)"
  by (cases f; cases d) auto

lemma carry_follower_disp:
  assumes "length f = length d" and "i + 1 < length d"
  shows "carry_follower i (f, op_plus f d) = Inr (op_plus f (d[i := 0, i + 1 := d ! (i + 1) + 1]))"
proof -
  have "(op_plus f d)[i := f ! i, i + 1 := f ! (i + 1) + (d ! (i + 1) + 1)]
      = op_plus f (d[i := 0, i + 1 := d ! (i + 1) + 1])"
    using assms by (simp add: list_eq_iff_nth_eq nth_list_update)
  with assms show ?thesis
    by (simp add: carry_follower_def incr_at_in add.assoc)
qed

lemma carry_axis_disp:
  assumes len: "length (rg_front r) = length d" "length (rg_back r) = length d"
    and fit: "followers_fit r fronts" and i: "i < length d"
  shows "carry_axis r fronts i (op_plus (rg_front r) d, map (\<lambda>f. op_plus f d) fronts)
       = rbind (dcarry (extent r) i d) (\<lambda>d'. Inr (op_plus (rg_front r) d', map (\<lambda>f. op_plus f d') fronts))"
proof (cases "d ! i > extent r ! i")
  case False
  then show ?thesis
    using len i by (simp add: carry_axis_def dcarry_def extent_def)
next
  case True
  have cond: "op_plus (rg_front r) d ! i > rg_back r ! i"
    using True len i by (simp add: extent_def)
  show ?thesis
  proof (cases "i + 1 < length d")
    case False
    then show ?thesis
      using True cond len i by (simp add: carry_axis_def dcarry_def incr_at_out)
  next
    case inside: True
    have "rmap (carry_follower i) (zip fronts (map (\<lambda>f. op_plus f d) fronts))
        = Inr (map (\<lambda>f. op_plus f (d[i := 0, i + 1 := d ! (i + 1) + 1])) fronts)"
      using fit inside len unfolding followers_fit_def
      by (induction fronts) (auto simp: carry_follower_disp)
    moreover have "carry_follower i (rg_front r, op_plus (rg_front r) d)
        = Inr (op_plus (rg_front r) (d[i := 0, i + 1 := d ! (i + 1) + 1]))"
      using len inside by (intro carry_follower_disp) auto
    ultimately show ?thesis
      using True cond len i inside by (simp add: carry_axis_def dcarry_def carry_follower_def)
  qed
qed

lemma dcarry_length: "dcarry ext i d = Inr d' \<Longrightarrow> length d' = length d"
  by (auto simp: dcarry_def split: if_splits)

lemma carry_loop_disp:
  assumes "length (rg_front r) = length d" "length (rg_back r) = length d"
    and "followers_fit r fronts" and "\<forall>i \<in> set is. i < length d"
  shows "rfold (carry_axis r fronts) is (op_plus (rg_front r) d, map (\<lambda>f. op_plus f d) fronts)
       = rbind (rfold (dcarry (extent r)) is d) (\<lambda>d'. Inr (op_plus (rg_front r) d', map (\<lambda>f. op_plus f d') fronts))"
  using assms
proof (induction "is" arbitrary: d)
  case (Cons i "is")
  show ?case
  proof (cases "dcarry (extent r) i d")
    case (Inl e)
    then show ?thesis
      using Cons.prems carry_axis_disp [of r d fronts i] by simp
  next
    case (Inr d')
    then show ?thesis
      using Cons.prems carry_axis_disp [of r d fronts i] Cons.IH [of d'] dcarry_length [OF Inr] by simp
  qed
qed simp

lemma extent_length: "rg_proper r \<Longrightarrow> length (extent r) = length (rg_front r)"
  by (simp add: extent_def rg_proper_def list_all2_iff)

lemma back_is_front_plus_extent: "rg_proper r \<Longrightarrow> op_plus (rg_front r) (extent r) = rg_back r"
  by (rule nth_equalityI) (simp_all add: extent_def rg_proper_def list_all2_conv_all_nth)

lemma op_plus_inject:
  fixes f :: "int list"
  assumes "length d = length f" and "length e = length f"
  shows "op_plus f d = op_plus f e \<longleftrightarrow> d = e"
proof
  assume "op_plus f d = op_plus f e"
  then have "f ! i + d ! i = f ! i + e ! i" if "i < length f" for i
    using op_nth(2) [of i f d] op_nth(2) [of i f e] assms that by simp
  then show "d = e"
    using assms by (intro nth_equalityI) simp_all
qed simp

lemma screener_advance_at:
  assumes r: "rg_proper r" and fit: "followers_fit r fronts"
    and box: "in_box (zeros (length (extent r))) (extent r) d" and ne: "d \<noteq> extent r"
  shows "screener_advance (screener_at r fronts d) = Inr (screener_at r fronts (dsucc (extent r) d))"
proof -
  have len: "length d = length (rg_front r)" "length (rg_back r) = length (rg_front r)" "d \<noteq> []"
    using r in_box_length [OF box] extent_length [OF r] by (auto simp: rg_proper_def list_all2_iff)
  have one: "incr_at 0 (op_plus f d) = Inr (op_plus f (inc_head d))" if "length f = length d" for f
    using that len(3) by (cases f; cases d) (simp_all add: incr_at_zero)
  have first: "incr_at 0 (op_plus (rg_front r) d) = Inr (op_plus (rg_front r) (inc_head d))"
    using len by (intro one) simp
  have foll: "rmap (incr_at 0) (map (\<lambda>f. op_plus f d) fronts) = Inr (map (\<lambda>f. op_plus f (inc_head d)) fronts)"
    using fit len one unfolding followers_fit_def by (induction fronts) simp_all
  have "rfold (carry_axis r fronts) [0..<length d] (op_plus (rg_front r) (inc_head d), map (\<lambda>f. op_plus f (inc_head d)) fronts)
      = Inr (op_plus (rg_front r) (dsucc (extent r) d), map (\<lambda>f. op_plus f (dsucc (extent r) d)) fronts)"
    using carry_loop_disp [of r "inc_head d" fronts "[0..<length d]"] len fit dcarry_loop [OF box ne] by simp
  with first foll len show ?thesis
    by (simp add: screener_advance_def screener_at_def)
qed

section \<open>The interface of a screener\<close>

text \<open>
  What the loops over a region rely on: inside of the region \<open>nxt\<close> moves the current position and all
  the followers to the next position of the box, and never reads or writes out of bounds.
\<close>

fun nsteps :: "('s \<Rightarrow> 's result) \<Rightarrow> nat \<Rightarrow> 's \<Rightarrow> 's result" where
  "nsteps f 0 s = Inr s"
| "nsteps f (Suc n) s = rbind (nsteps f n s) f"

definition displacements :: "region \<Rightarrow> int list list" where
  "displacements r = positions (zeros (length (extent r))) (extent r)"

lemma successively_blocks:
  assumes "successively (\<lambda>a b. a \<noteq> es \<and> b = dsucc es a) ts" and "0 \<le> e"
  shows "successively (\<lambda>a b. a \<noteq> e # es \<and> b = dsucc (e # es) a)
           (concat (map (\<lambda>t. map (\<lambda>x. x # t) [0..e]) ts))"
  using assms
proof (induction ts)
  case (Cons t ts)
  have up: "[0..e] = 0 # [1..e]"
    using \<open>0 \<le> e\<close> by (simp add: upto_rec1)
  have un: "[0..e] = [0..e - 1] @ [e]"
    using \<open>0 \<le> e\<close> by (rule upto_rec2)
  have gen: "successively (\<lambda>a b. a \<noteq> e # es \<and> b = dsucc (e # es) a) (map (\<lambda>x. x # t) [i..e])" for i
  proof (induction i e rule: upto.induct)
    case (1 i e)
    then show ?case
      by (cases "i + 1 \<le> e"; cases "i = e") (auto simp: upto_rec1)
  qed
  show ?case
  proof (cases ts)
    case Nil
    then show ?thesis using gen by simp
  next
    case (Cons u us)
    then have u: "t \<noteq> es" "u = dsucc es t"
      using Cons.prems(1) by auto
    have "last (map (\<lambda>x. x # t) [0..e]) = e # t"
      by (simp add: un)
    moreover have "hd (concat (map (\<lambda>t. map (\<lambda>x. x # t) [0..e]) ts)) = 0 # u"
      by (simp add: Cons up)
    moreover have "successively (\<lambda>a b. a \<noteq> es \<and> b = dsucc es a) ts"
      using Cons.prems(1) Cons by auto
    ultimately have "successively (\<lambda>a b. a \<noteq> e # es \<and> b = dsucc (e # es) a)
        (map (\<lambda>x. x # t) [0..e] @ concat (map (\<lambda>t. map (\<lambda>x. x # t) [0..e]) ts))"
      using gen [of 0] Cons.IH Cons.prems(2) u unfolding successively_append_iff by simp
    then show ?thesis by simp
  qed
qed simp

lemma last_concat_map:
  "xs \<noteq> [] \<Longrightarrow> (\<And>x. x \<in> set xs \<Longrightarrow> g x \<noteq> []) \<Longrightarrow>
   concat (map g xs) \<noteq> [] \<and> hd (concat (map g xs)) = hd (g (hd xs)) \<and> last (concat (map g xs)) = last (g (last xs))"
proof (induction xs)
  case (Cons x xs)
  then show ?case by (cases xs) auto
qed simp

lemma positions_ends:
  "list_all2 (\<le>) f b \<Longrightarrow> positions f b \<noteq> [] \<and> hd (positions f b) = f \<and> last (positions f b) = b"
proof (induction f b rule: list_all2_induct)
  case (Cons f fs b bs)
  have "[f..b] = f # [f + 1..b]"
    using Cons.hyps(1) by (rule upto_rec1)
  moreover have "last [f..b] = b"
    using upto_rec2 [OF Cons.hyps(1)] by simp
  ultimately show ?case
    using Cons last_concat_map [of "positions fs bs" "\<lambda>t. map (\<lambda>x. x # t) [f..b]"]
    by (auto simp: last_map hd_map)
qed simp

lemma positions_successively:
  "\<forall>e \<in> set es. 0 \<le> e \<Longrightarrow>
   successively (\<lambda>a b. a \<noteq> es \<and> b = dsucc es a) (positions (zeros (length es)) es)"
  by (induction es) (simp_all add: successively_blocks)

lemma extent_nonneg: "rg_proper r \<Longrightarrow> \<forall>e \<in> set (extent r). 0 \<le> e"
  by (auto simp: rg_proper_def extent_def list_all2_conv_all_nth in_set_conv_nth)

lemma extent_box: "rg_proper r \<Longrightarrow> list_all2 (\<le>) (zeros (length (extent r))) (extent r)"
  using extent_nonneg by (simp add: list_all2_conv_all_nth)

lemma displacements_ends:
  assumes "rg_proper r"
  shows "displacements r \<noteq> []" "displacements r ! 0 = zeros (length (extent r))"
    "displacements r ! (length (displacements r) - 1) = extent r"
  using positions_ends [OF extent_box [OF assms]]
  by (auto simp: displacements_def hd_conv_nth [symmetric] last_conv_nth [symmetric] simp del: One_nat_def)

lemma displacements_box:
  assumes "rg_proper r" and "k < length (displacements r)"
  shows "in_box (zeros (length (extent r))) (extent r) (displacements r ! k)"
proof -
  have "displacements r ! k \<in> set (displacements r)"
    using assms(2) by simp
  then show ?thesis
    by (simp add: displacements_def set_positions)
qed

lemma displacements_step:
  assumes "rg_proper r" and "Suc k < length (displacements r)"
  shows "displacements r ! k \<noteq> extent r" "displacements r ! Suc k = dsucc (extent r) (displacements r ! k)"
  using positions_successively [OF extent_nonneg [OF assms(1)]] assms(2)
  by (auto simp: displacements_def successively_conv_nth)

lemma positions_displacements:
  assumes "rg_proper r"
  shows "positions (rg_front r) (rg_back r) = map (op_plus (rg_front r)) (displacements r)"
proof -
  have len: "length (extent r) = length (rg_front r)"
    using extent_length [OF assms] .
  have "op_plus (rg_front r) (zeros (length (extent r))) = rg_front r"
    by (rule nth_equalityI) (simp_all add: len)
  then show ?thesis
    using positions_shift [of "rg_front r" "zeros (length (extent r))" "extent r"] len
      back_is_front_plus_extent [OF assms] by (simp add: displacements_def)
qed

lemma screener_init_at:
  assumes "rg_proper r" and "followers_fit r fronts"
  shows "screener_init r fronts = screener_at r fronts (zeros (length (extent r)))"
proof -
  have "op_plus f (zeros (length (extent r))) = f" if "length f = length (rg_front r)" for f :: position
    by (rule nth_equalityI) (simp_all add: that extent_length [OF assms(1)])
  with assms(2) show ?thesis
    by (simp add: screener_init_def screener_at_def followers_fit_def map_idI)
qed

lemma screener_at_back_iff:
  assumes "rg_proper r" and "length d = length (extent r)"
  shows "m_current (screener_at r fronts d) = rg_back r \<longleftrightarrow> d = extent r"
  using op_plus_inject [of d "rg_front r" "extent r"] assms
  by (simp add: screener_at_def back_is_front_plus_extent extent_length)

locale region_walk =
  fixes nxt :: "screener \<Rightarrow> screener result"
  assumes inside: "rg_proper r \<Longrightarrow> followers_fit r fronts \<Longrightarrow>
      in_box (zeros (length (extent r))) (extent r) d \<Longrightarrow> d \<noteq> extent r \<Longrightarrow>
      nxt (screener_at r fronts d) = Inr (screener_at r fronts (dsucc (extent r) d))"
begin

lemma one_step:
  assumes "rg_proper r" and "followers_fit r fronts" and "Suc k < length (displacements r)"
  shows "nxt (screener_at r fronts (displacements r ! k)) = Inr (screener_at r fronts (displacements r ! Suc k))"
  using assms inside [of r fronts "displacements r ! k"] displacements_box [of r k]
    displacements_step [of r k] by simp

lemma many_steps:
  assumes "rg_proper r" and "followers_fit r fronts" and "k < length (displacements r)"
  shows "nsteps nxt k (screener_init r fronts) = Inr (screener_at r fronts (displacements r ! k))"
  using assms(3)
proof (induction k)
  case 0
  then show ?case
    using assms(1,2) by (simp add: screener_init_at displacements_ends(2))
next
  case (Suc k)
  then show ?case
    using one_step [OF assms(1,2)] by simp
qed

end

lemma container_eq_back:
  assumes "rg_proper r" and "in_box (zeros (length (extent r))) (extent r) d" and "d \<noteq> extent r"
  shows "\<not> container_eq (m_current (screener_at r fronts d)) (rg_back (m_region (screener_at r fronts d)))"
  using screener_at_back_iff [OF assms(1), of d fronts] in_box_length [OF assms(2)] assms(3)
  by (simp add: screener_at_def)

interpretation iterator_walk: region_walk iterator_next
  by unfold_locales (simp add: iterator_next_def container_eq_back screener_advance_at del: container_eq_iff)

interpretation screener_walk: region_walk screener_next
  by unfold_locales (simp add: screener_next_def container_eq_back screener_advance_at del: container_eq_iff)

lemma positions_below_back:
  assumes "rg_proper r" and "in_box (zeros (length (extent r))) (extent r) d"
  shows "op_plus (rg_front r) d \<noteq> inc_head (rg_back r)"
proof
  assume eq: "op_plus (rg_front r) d = inc_head (rg_back r)"
  have len: "length d = length (rg_front r)" "length (rg_back r) = length (rg_front r)" "rg_front r \<noteq> []"
    using assms in_box_length [OF assms(2)] extent_length by (auto simp: rg_proper_def list_all2_iff)
  have "d ! 0 \<le> rg_back r ! 0 - rg_front r ! 0"
    using assms(2) len by (simp add: in_box_nth extent_def)
  moreover have "rg_front r ! 0 + d ! 0 = inc_head (rg_back r) ! 0"
    using eq len op_nth(2) [of 0 "rg_front r" d] by simp
  moreover have "inc_head (rg_back r) ! 0 = rg_back r ! 0 + 1"
    using len by (cases "rg_back r") auto
  ultimately show False by simp
qed

lemma screen_loop_from:
  assumes r: "rg_proper r" and stop: "m_current stop = inc_head (rg_back r)"
    and "k < length (displacements r)" and "length (displacements r) - k < fuel"
  shows "screen_loop fuel (screener_at r [] (displacements r ! k)) stop
       = Some (Inr (map (op_plus (rg_front r)) (drop k (displacements r))))"
  using assms(3,4)
proof (induction fuel arbitrary: k)
  case (Suc fuel)
  let ?it = "screener_at r [] (displacements r ! k)"
  have fit: "followers_fit r []" by (simp add: followers_fit_def)
  have now: "m_current ?it = op_plus (rg_front r) (displacements r ! k)"
    by (simp add: screener_at_def)
  have run: "iterator_neq ?it stop"
    using positions_below_back [OF r displacements_box [OF r Suc.prems(1)]] stop
    by (simp add: iterator_neq_def container_neq_def now)
  have cons: "drop k (displacements r) = displacements r ! k # drop (Suc k) (displacements r)"
    using Suc.prems(1) by (simp add: Cons_nth_drop_Suc)
  show ?case
  proof (cases "Suc k < length (displacements r)")
    case True
    then show ?thesis
      using Suc iterator_walk.one_step [OF r fit True] run now cons by simp
  next
    case False
    then have k: "displacements r ! k = extent r"
      using Suc.prems(1) displacements_ends(3) [OF r] by (metis Suc_lessI diff_Suc_1)
    have at_back: "m_current ?it = rg_back r" and ne: "rg_back r \<noteq> []"
      using now k back_is_front_plus_extent [OF r] r by (auto simp: rg_proper_def)
    obtain fuel' where "fuel = Suc fuel'"
      using Suc.prems False by (cases fuel) auto
    then show ?thesis
      using run now cons False at_back ne stop k
      by (simp add: iterator_next_def screener_at_def incr_at_zero iterator_neq_def container_neq_def)
  qed
qed simp

lemma screen_region_positions:
  assumes "rg_proper r" and "rg_size r < int fuel"
  shows "screen_region fuel r = Some (Inr (positions (rg_front r) (rg_back r)))"
proof -
  have len: "length (displacements r) < fuel" "length (rg_front r) = length (rg_back r)" "rg_back r \<noteq> []"
    using assms rg_size_positions [OF assms(1)] positions_displacements [OF assms(1)]
    by (auto simp: rg_proper_def list_all2_iff)
  have fit: "followers_fit r []" by (simp add: followers_fit_def)
  have "screen_region fuel r = Some (Inr (map (op_plus (rg_front r)) (displacements r)))"
    using screen_loop_from [OF assms(1), of _ 0 fuel] displacements_ends [OF assms(1)] len
      screener_init_at [OF assms(1) fit]
    by (simp add: screen_region_def iterator_end_def incr_at_zero iterator_begin_def screener_init_def)
  then show ?thesis
    using positions_displacements [OF assms(1)] by simp
qed

text \<open>
  C1: the range-based loop over a non-empty region returns once it has fuel for one more step than
  there are positions; it visits every position of the region exactly once, the first axis running
  fastest, and never touches a coordinate out of bounds.
\<close>

theorem region_iteration_complete:
  assumes "rg_proper r" and "rg_size r < int fuel"
  shows "\<exists>ps. screen_region fuel r = Some (Inr ps) \<and> ps = positions (rg_front r) (rg_back r) \<and>
           distinct ps \<and> set ps = {p. in_region r p} \<and> int (length ps) = rg_size r"
proof -
  have len: "length (rg_front r) = length (rg_back r)"
    using assms by (auto simp: rg_proper_def list_all2_iff)
  then show ?thesis
    using screen_region_positions [OF assms] distinct_positions [of "rg_front r" "rg_back r"] set_positions [OF len]
      rg_size_positions [OF assms(1)] by (simp add: in_region_def)
qed

theorem region_iteration_complete_witness:
  "\<exists>ps. screen_region 7 \<lparr>rg_front = [1, 2], rg_back = [2, 4]\<rparr> = Some (Inr ps) \<and> length ps = 6"
  using region_iteration_complete [of "\<lparr>rg_front = [1, 2], rg_back = [2, 4]\<rparr>" 7]
  by (simp add: rg_proper_def rg_size_def rg_shape_def shapeSize_def)

lemma screener_next_wraps:
  assumes "rg_proper r" and "followers_fit r fronts"
  shows "screener_next (screener_at r fronts (extent r)) = Inr (screener_init r fronts)"
  using back_is_front_plus_extent [OF assms(1)]
  by (simp add: screener_next_def screener_at_def screener_init_def)

text \<open>
  C11: a \<^verbatim>\<open>RegionScreener\<close> never fails on a non-empty region; after \<open>k\<close> calls of \<^verbatim>\<open>next\<close> its current
  position is position number \<open>k mod size\<close> of the region and every follower is displaced from its
  own front by the same vector, so the screener runs around the region for ever.
\<close>

theorem region_screener_cycles:
  assumes "rg_proper r" and "followers_fit r fronts"
  shows "\<exists>s. nsteps screener_next k (screener_init r fronts) = Inr s \<and>
           m_current s = positions (rg_front r) (rg_back r) ! (k mod nat (rg_size r)) \<and>
           m_followers s = map (\<lambda>f. op_plus f (op_minus (m_current s) (rg_front r))) fronts"
proof -
  let ?n = "length (displacements r)"
  have n: "nat (rg_size r) = ?n" "0 < ?n"
    using rg_size_positions positions_displacements displacements_ends assms(1) by auto
  have "nsteps screener_next k (screener_init r fronts) = Inr (screener_at r fronts (displacements r ! (k mod ?n)))"
  proof (induction k)
    case 0
    then show ?case
      using screener_init_at [OF assms] displacements_ends [OF assms(1)] by simp
  next
    case (Suc k)
    show ?case
    proof (cases "Suc (k mod ?n) = ?n")
      case True
      then have "k mod ?n = ?n - 1" and "Suc k mod ?n = 0"
        by (simp_all add: mod_Suc)
      then show ?thesis
        using Suc screener_next_wraps [OF assms] screener_init_at [OF assms] displacements_ends [OF assms(1)]
        by simp
    next
      case False
      have "k mod ?n < ?n" using n(2) by simp
      then show ?thesis
        using Suc False screener_walk.one_step [OF assms, of "k mod ?n"] by (simp add: mod_Suc)
    qed
  qed
  moreover have "op_minus (op_plus (rg_front r) (displacements r ! (k mod ?n))) (rg_front r)
      = displacements r ! (k mod ?n)"
    using op_plus_minus_cancel(1) [of "displacements r ! (k mod ?n)" "rg_front r"]
      in_box_length [OF displacements_box [OF assms(1), of "k mod ?n"]] extent_length [OF assms(1)] n(2)
    by (simp add: op_plus_commute)
  ultimately show ?thesis
    using n positions_displacements [OF assms(1)] by (simp add: screener_at_def)
qed

theorem region_screener_cycles_witness:
  "\<exists>s. nsteps screener_next 8 (screener_init \<lparr>rg_front = [1, 2], rg_back = [2, 4]\<rparr> [[10, 10]]) = Inr s \<and>
     m_current s = [1, 3]"
  using region_screener_cycles [of "\<lparr>rg_front = [1, 2], rg_back = [2, 4]\<rparr>" "[[10, 10]]" 8]
  by (auto simp: rg_proper_def followers_fit_def rg_size_def rg_shape_def shapeSize_def upto_rec1)

text \<open>
  Screening an empty region is only defined in dimension one, where the loop body never runs.
  In dimension two, the region of a shape with no line sends the first increment beyond the last
  axis: \<^verbatim>\<open>m_current[i + 1]++\<close> is executed for the last \<open>i\<close>.
\<close>

theorem empty_region_iteration:
  "screen_region (Suc fuel) (rg_fromShape [f] [0]) = Some (Inr []) \<and>
   (0 < w \<longrightarrow> screen_region (Suc fuel) (rg_fromShape [f, g] [w, 0]) = Some (Inl Undefined))"
proof (intro conjI impI)
  show "screen_region (Suc fuel) (rg_fromShape [f] [0]) = Some (Inr [])"
    by (simp add: screen_region_def iterator_end_def iterator_begin_def rg_fromShape_def screener_init_def
        incr_at_zero iterator_neq_def container_neq_def)
next
  assume "0 < w"
  then show "screen_region (Suc fuel) (rg_fromShape [f, g] [w, 0]) = Some (Inl Undefined)"
    by (simp add: screen_region_def iterator_end_def iterator_begin_def rg_fromShape_def screener_init_def
        incr_at_zero iterator_neq_def container_neq_def iterator_next_def screener_advance_def upt_conv_Cons
        carry_axis_def incr_at_in incr_at_out)
qed

theorem empty_region_iteration_witness:
  "screen_region 1 (rg_fromShape [0, 0] [3, 0]) = Some (Inl Undefined)"
  using empty_region_iteration [of 0 0 3 0] by simp

end
