(* ===== verification/Fits_Raster.thy ===== *)
theory Fits_Raster
  imports Fits_Iterator
begin

text \<open>
  Rasters (\<^verbatim>\<open>EleFitsData/Raster.h\<close>, \<^verbatim>\<open>impl/Raster.hpp\<close>, \<^verbatim>\<open>Subraster.h\<close>): the index of a position, both
  as the compile-time recursion of the fixed dimensions and as the loop of the variable dimension,
  element access, backward indexing with bounds checking, contiguity, slices, sections and
  subrasters.  A slice is a \<^verbatim>\<open>PtrRaster\<close>: a view on the memory of its parent, at some offset.
\<close>

section \<open>The model\<close>

record 'a raster =
  Dim :: int
  m_shape :: position
  m_data :: "'a list"

text \<open>\<^verbatim>\<open>explicit Raster(Position<N> shape)\<close> on a vector, and the constructors that adopt a container.\<close>

definition raster_zero :: "'a \<Rightarrow> int \<Rightarrow> position \<Rightarrow> 'a raster result" where
  "raster_zero zero N shape =
     (if shapeSize shape < 0 then Inl Undefined
      else rbind (holder_vector zero (nat (shapeSize shape)) None)
             (\<lambda>d. Inr \<lparr>Dim = N, m_shape = shape, m_data = d\<rparr>))"

definition raster_copy :: "'a \<Rightarrow> int \<Rightarrow> position \<Rightarrow> 'a list \<Rightarrow> 'a raster result" where
  "raster_copy zero N shape data =
     (if shapeSize shape < 0 then Inl Undefined
      else rbind (holder_vector zero (nat (shapeSize shape)) (Some data))
             (\<lambda>d. Inr \<lparr>Dim = N, m_shape = shape, m_data = d\<rparr>))"

definition makeRaster :: "'a list \<Rightarrow> position \<Rightarrow> 'a raster" where
  "makeRaster data shape = \<lparr>Dim = int (length shape), m_shape = shape, m_data = data\<rparr>"

definition raster_domain :: "'a raster \<Rightarrow> region" where
  "raster_domain ra = rg_fromShape (pos_zero (Dim ra)) (m_shape ra)"

definition raster_dimension :: "'a raster \<Rightarrow> int" where
  "raster_dimension ra = int (length (m_shape ra))"

definition raster_length :: "nat \<Rightarrow> 'a raster \<Rightarrow> int result" where
  "raster_length i ra = rd (m_shape ra) (int i)"

text \<open>
  \<^verbatim>\<open>IndexRecursionImpl<N, I>\<close>: the indices \<open>N - 1 - I\<close> of \<^verbatim>\<open>std::get\<close> are checked by the compiler.
\<close>

fun index_recursion :: "nat \<Rightarrow> nat \<Rightarrow> position \<Rightarrow> position \<Rightarrow> int" where
  "index_recursion N 0 shape pos = pos ! (N - 1)"
| "index_recursion N (Suc I) shape pos =
     pos ! (N - 1 - Suc I) + shape ! (N - 1 - Suc I) * index_recursion N I shape pos"

definition index_dynamic :: "position \<Rightarrow> position \<Rightarrow> int result" where
  "index_dynamic shape pos =
     (let n = length shape in
      if length pos \<noteq> n
      then Inl (FitsError (''Dimension mismatch. Raster is of dimension '' @ to_string (int n) @
             '' while position is of dimension '' @ to_string (int (length pos))))
      else Inr (fold (\<lambda>j res. pos ! (n - 1 - j) + shape ! (n - 1 - j) * res) [0..<n] 0))"

definition raster_index :: "'a raster \<Rightarrow> position \<Rightarrow> int result" where
  "raster_index ra pos =
     (if Dim ra = - 1 then index_dynamic (m_shape ra) pos
      else Inr (index_recursion (nat (Dim ra)) (nat (Dim ra) - 1) (m_shape ra) pos))"

definition raster_subscript :: "'a raster \<Rightarrow> position \<Rightarrow> 'a result" where
  "raster_subscript ra pos = rbind (raster_index ra pos) (container_subscript (m_data ra))"

definition raster_assign :: "'a raster \<Rightarrow> position \<Rightarrow> 'a \<Rightarrow> 'a raster result" where
  "raster_assign ra pos v =
     rbind (raster_index ra pos) (\<lambda>i. rbind (wr (m_data ra) i v) (\<lambda>d. Inr (ra\<lparr>m_data := d\<rparr>)))"

text \<open>The body of the loop of \<^verbatim>\<open>at\<close>.\<close>

definition at_axis :: "position \<Rightarrow> nat \<Rightarrow> position \<Rightarrow> position result" where
  "at_axis shape i boundedPos =
     rbind (rd boundedPos (int i)) (\<lambda>b.
     rbind (rd shape (int i)) (\<lambda>s.
     rbind (out_of_bounds_may_throw (''pos['' @ to_string (int i) @ '']'') b (- s, s - 1)) (\<lambda>_.
     if b < 0 then wr boundedPos (int i) (b + s) else Inr boundedPos)))"

definition raster_at :: "'a raster \<Rightarrow> position \<Rightarrow> 'a result" where
  "raster_at ra pos =
     rbind (rfold (at_axis (m_shape ra)) [0..<length (m_shape ra)] pos) (raster_subscript ra)"

text \<open>
  \<^verbatim>\<open>isContiguous<M>\<close> with its two loops; \<open>M\<close> is negative for rasters of variable dimension, and every
  coordinate is read as the code reads it.
\<close>

fun all_axes :: "(int \<Rightarrow> bool result) \<Rightarrow> int list \<Rightarrow> bool result" where
  "all_axes ok [] = Inr True"
| "all_axes ok (i # is) = rbind (ok i) (\<lambda>c. if c then all_axes ok is else Inr False)"

definition spans_axis :: "position \<Rightarrow> region \<Rightarrow> int \<Rightarrow> bool result" where
  "spans_axis shape r i =
     rbind (rd (rg_front r) i) (\<lambda>f.
       if f \<noteq> 0 then Inr False
       else rbind (rd (rg_back r) i) (\<lambda>b. rbind (rd shape i) (\<lambda>s. Inr (b = s - 1))))"

definition flat_axis :: "region \<Rightarrow> int \<Rightarrow> bool result" where
  "flat_axis r i = rbind (rd (rg_back r) i) (\<lambda>b. rbind (rd (rg_front r) i) (\<lambda>f. Inr (b = f)))"

definition isContiguous :: "int \<Rightarrow> 'a raster \<Rightarrow> region \<Rightarrow> bool result" where
  "isContiguous M ra r =
     rbind (all_axes (spans_axis (m_shape ra) r) [0..M - 2]) (\<lambda>c.
       if c then all_axes (flat_axis r) [M..raster_dimension ra - 1] else Inr False)"

text \<open>A \<^verbatim>\<open>PtrRaster\<close> on the elements of another raster: where it starts, and its shape.\<close>

record ptr_raster =
  pr_offset :: int
  pr_shape :: position

definition raster_slice :: "int \<Rightarrow> 'a raster \<Rightarrow> region \<Rightarrow> ptr_raster result" where
  "raster_slice M ra r =
     rbind (isContiguous M ra r) (\<lambda>c.
       if \<not> c then Inl (FitsError ''Cannot slice: Region is not contiguous.'')
       else rbind (rmap (\<lambda>i. rbind (rd (rg_back r) i) (\<lambda>b. rbind (rd (rg_front r) i) (\<lambda>f. Inr (b - f + 1)))) [0..M - 1]) (\<lambda>reduced.
            rbind (raster_index ra (rg_front r)) (\<lambda>i. Inr \<lparr>pr_offset = i, pr_shape = reduced\<rparr>)))"

text \<open>The elements of the view, in memory order.\<close>

definition ptr_elements :: "'a list \<Rightarrow> ptr_raster \<Rightarrow> 'a list result" where
  "ptr_elements data v = rmap (\<lambda>k. rd data (pr_offset v + k)) [0..shapeSize (pr_shape v) - 1]"

definition section_region :: "'a raster \<Rightarrow> int \<Rightarrow> int \<Rightarrow> region result" where
  "section_region ra front bk =
     (let r = raster_domain ra; l = raster_dimension ra - 1 in
      rbind (wr (rg_front r) l front) (\<lambda>f.
      rbind (wr (rg_back r) l bk) (\<lambda>b. Inr \<lparr>rg_front = f, rg_back = b\<rparr>)))"

definition raster_section :: "'a raster \<Rightarrow> int \<Rightarrow> int \<Rightarrow> ptr_raster result" where
  "raster_section ra front bk = rbind (section_region ra front bk) (raster_slice (Dim ra) ra)"

definition raster_section_at :: "'a raster \<Rightarrow> int \<Rightarrow> ptr_raster result" where
  "raster_section_at ra index =
     rbind (section_region ra index index) (raster_slice (if Dim ra = - 1 then - 1 else Dim ra - 1) ra)"

text \<open>Subrasters: a parent and a region of it.\<close>

record 'a subraster =
  sr_parent :: "'a raster"
  sr_region :: region

definition raster_subraster :: "'a raster \<Rightarrow> region \<Rightarrow> 'a subraster" where
  "raster_subraster ra r = \<lparr>sr_parent = ra, sr_region = r\<rparr>"

definition subraster_shape :: "'a subraster \<Rightarrow> position" where
  "subraster_shape sub = rg_shape (sr_region sub)"

definition subraster_size :: "'a subraster \<Rightarrow> int" where
  "subraster_size sub = rg_size (sr_region sub)"

definition subraster_subscript :: "'a subraster \<Rightarrow> position \<Rightarrow> 'a result" where
  "subraster_subscript sub pos = raster_subscript (sr_parent sub) (op_plus pos (rg_front (sr_region sub)))"

text \<open>
  A raster as its users build it: the number of elements is that of its shape, no axis is empty, and
  the template parameter is either the dimension or \<open>-1\<close>.
\<close>

definition raster_wf :: "'a raster \<Rightarrow> bool" where
  "raster_wf ra \<longleftrightarrow> m_shape ra \<noteq> [] \<and> (\<forall>s \<in> set (m_shape ra). 0 < s) \<and>
     int (length (m_data ra)) = shapeSize (m_shape ra) \<and>
     (Dim ra = - 1 \<or> Dim ra = int (length (m_shape ra)))"

text \<open>The positions of the raster, and the specification of an index.\<close>

abbreviation shape_positions :: "position \<Rightarrow> position list" where
  "shape_positions shape \<equiv> positions (zeros (length shape)) (op_minus_scalar shape 1)"

fun lin_index :: "position \<Rightarrow> position \<Rightarrow> int" where
  "lin_index (s # ss) (p # ps) = p + s * lin_index ss ps"
| "lin_index ss ps = 0"

section \<open>Indices\<close>

lemma index_recursion_lin:
  assumes "length pos = N" and "length shape = N" and "I < N"
  shows "index_recursion N I shape pos = lin_index (drop (N - 1 - I) shape) (drop (N - 1 - I) pos)"
  using assms(3)
proof (induction I)
  case 0
  with assms show ?case
    by (simp add: Cons_nth_drop_Suc [symmetric])
next
  case (Suc I)
  have d: "drop (N - 1 - Suc I) xs = xs ! (N - 1 - Suc I) # drop (N - 1 - I) xs" if "length xs = N" for xs :: "int list"
    using that Suc.prems Cons_nth_drop_Suc [of "N - 1 - Suc I" xs] by (simp add: Suc_diff_Suc)
  show ?case
    unfolding index_recursion.simps d [OF assms(1)] d [OF assms(2)] using Suc by simp
qed

lemma lin_index_snoc:
  "length ss = length ps \<Longrightarrow> lin_index (ss @ [s]) (ps @ [p]) = lin_index ss ps + prod_list ss * p"
  by (induction ss ps rule: list_induct2) (simp_all add: algebra_simps)

lemma index_fold_lin:
  assumes "length pos = length shape" and "k \<le> length shape"
  shows "fold (\<lambda>j res. pos ! (length shape - 1 - j) + shape ! (length shape - 1 - j) * res) [0..<k] 0
       = lin_index (drop (length shape - k) shape) (drop (length shape - k) pos)"
  using assms(2)
proof (induction k)
  case (Suc k)
  have d: "drop (length shape - Suc k) xs = xs ! (length shape - 1 - k) # drop (length shape - k) xs"
    if "length xs = length shape" for xs :: "int list"
    using that Suc.prems Cons_nth_drop_Suc [of "length shape - Suc k" xs] by (simp add: Suc_diff_Suc)
  show ?case
    using Suc d [of shape] d [of pos] assms(1) by simp
qed (simp add: assms(1))

lemma raster_index_lin:
  assumes "raster_wf ra" and "length pos = length (m_shape ra)"
  shows "raster_index ra pos = Inr (lin_index (m_shape ra) pos)"
proof (cases "Dim ra = - 1")
  case True
  then show ?thesis
    using index_fold_lin [of pos "m_shape ra" "length (m_shape ra)"] assms(2)
    by (simp add: raster_index_def index_dynamic_def Let_def)
next
  case False
  then have "Dim ra = int (length (m_shape ra))" "m_shape ra \<noteq> []"
    using assms(1) by (auto simp: raster_wf_def)
  then show ?thesis
    using index_recursion_lin [of pos "length (m_shape ra)" "m_shape ra" "length (m_shape ra) - 1"] assms(2)
    by (simp add: raster_index_def)
qed

lemma concat_intervals:
  "0 \<le> s \<Longrightarrow> concat (map (\<lambda>v. [s * v..s * v + s - 1]) [a..a + int n - 1]) = [s * a..s * (a + int n) - 1]"
proof (induction n)
  case (Suc n)
  have "[a..a + int (Suc n) - 1] = [a..a + int n - 1] @ [a + int n]"
    using upto_rec2 [of a "a + int n"] by simp
  moreover have "[s * a..s * (a + int (Suc n)) - 1] = [s * a..s * (a + int n) - 1] @ [s * (a + int n)..s * (a + int n) + s - 1]"
    using upto_split1 [of "s * a" "s * (a + int n)" "s * (a + int (Suc n)) - 1"] Suc.prems
    by (cases "s = 0") (simp_all add: algebra_simps)
  ultimately show ?case
    using Suc by simp
qed simp

lemma interval_shift: "map (\<lambda>x. x + k) [i..j] = [i + k..j + k]" for k :: int
  using upto_shift [of k i j] by (simp add: add.commute [of _ k])

lemma interval_row: "map (\<lambda>x. x + k) [0..s - 1] = [k..k + s - 1]" for k :: int
  using interval_shift [of k 0 "s - 1"] by (simp add: algebra_simps)

lemma map_lin_index:
  "\<forall>s \<in> set shape. 0 < s \<Longrightarrow> map (lin_index shape) (shape_positions shape) = [0..prod_list shape - 1]"
proof (induction shape)
  case Nil
  then show ?case by simp
next
  case (Cons s ss)
  have "map (lin_index (s # ss)) (shape_positions (s # ss))
      = concat (map (\<lambda>v. [s * v..s * v + s - 1]) (map (lin_index ss) (shape_positions ss)))"
    by (simp add: map_concat comp_def interval_row)
  also have "\<dots> = [0..s * prod_list ss - 1]"
    using Cons concat_intervals [of s 0 "nat (prod_list ss)"] prod_list_pos [of ss] by simp
  finally show ?case by simp
qed

lemma lin_index_bounds:
  assumes "\<forall>s \<in> set shape. 0 < s" and "in_box (zeros (length shape)) (op_minus_scalar shape 1) p"
  shows "0 \<le> lin_index shape p" "lin_index shape p < prod_list shape"
proof -
  have "p \<in> set (shape_positions shape)"
    using assms(2) by (simp add: set_positions)
  then have "lin_index shape p \<in> set [0..prod_list shape - 1]"
    using map_lin_index [OF assms(1)] by (metis image_eqI list.set_map)
  then show "0 \<le> lin_index shape p" "lin_index shape p < prod_list shape"
    by simp_all
qed

lemma raster_wf_size: "raster_wf ra \<Longrightarrow> int (length (m_data ra)) = prod_list (m_shape ra)"
  by (simp add: raster_wf_def shapeSize_prod)

lemma raster_subscript_in:
  assumes "raster_wf ra" and "in_box (zeros (length (m_shape ra))) (op_minus_scalar (m_shape ra) 1) p"
  shows "raster_subscript ra p = Inr (m_data ra ! nat (lin_index (m_shape ra) p))"
proof -
  have "0 \<le> lin_index (m_shape ra) p" "lin_index (m_shape ra) p < int (length (m_data ra))"
    using lin_index_bounds [of "m_shape ra" p] assms raster_wf_size [OF assms(1)]
    by (simp_all add: raster_wf_def)
  then show ?thesis
    using assms raster_index_lin [OF assms(1), of p] in_box_length [OF assms(2)]
    by (simp add: raster_subscript_def container_subscript_def)
qed



lemma lin_index_inject:
  assumes "\<forall>s \<in> set shape. 0 < s"
    and "in_box (zeros (length shape)) (op_minus_scalar shape 1) p" "in_box (zeros (length shape)) (op_minus_scalar shape 1) q"
  shows "lin_index shape p = lin_index shape q \<longleftrightarrow> p = q"
proof -
  have "distinct (map (lin_index shape) (shape_positions shape))"
    by (simp only: map_lin_index [OF assms(1)] distinct_upto)
  then show ?thesis
    using assms(2,3) by (auto simp: distinct_map set_positions inj_on_def)
qed

lemma map_nth_upto: "map (\<lambda>k. xs ! nat k) [0..int (length xs) - 1] = xs"
  by (rule nth_equalityI) simp_all

lemma raster_read_all:
  assumes "raster_wf ra"
  shows "rmap (raster_subscript ra) (shape_positions (m_shape ra)) = Inr (m_data ra)"
proof -
  have "rmap (raster_subscript ra) (shape_positions (m_shape ra))
      = Inr (map (\<lambda>p. m_data ra ! nat (lin_index (m_shape ra) p)) (shape_positions (m_shape ra)))"
    using raster_subscript_in [OF assms] by (intro rmap_Inr) (simp add: set_positions)
  also have "map (\<lambda>p. m_data ra ! nat (lin_index (m_shape ra) p)) (shape_positions (m_shape ra))
      = map (\<lambda>k. m_data ra ! nat k) (map (lin_index (m_shape ra)) (shape_positions (m_shape ra)))"
    by simp
  also have "\<dots> = m_data ra"
    using map_lin_index [of "m_shape ra"] assms raster_wf_size [OF assms] map_nth_upto [of "m_data ra"]
    by (simp add: raster_wf_def)
  finally show ?thesis .
qed

text \<open>
  C10: reading a raster through the iteration over its region gives its elements in memory order,
  and an assignment changes exactly the element at the given position.
\<close>

theorem raster_read_write:
  assumes "raster_wf ra" and "in_box (zeros (length (m_shape ra))) (op_minus_scalar (m_shape ra) 1) p"
    and "in_box (zeros (length (m_shape ra))) (op_minus_scalar (m_shape ra) 1) q"
  shows "rmap (raster_subscript ra) (shape_positions (m_shape ra)) = Inr (m_data ra) \<and>
         (\<exists>ra'. raster_assign ra p v = Inr ra' \<and> raster_wf ra' \<and>
            raster_subscript ra' q = (if q = p then Inr v else raster_subscript ra q))"
proof -
  let ?i = "lin_index (m_shape ra) p" and ?j = "lin_index (m_shape ra) q"
  define ra' where "ra' = ra\<lparr>m_data := (m_data ra)[nat ?i := v]\<rparr>"
  have pos: "\<forall>s \<in> set (m_shape ra). 0 < s"
    using assms(1) by (simp add: raster_wf_def)
  have b: "0 \<le> ?i" "?i < int (length (m_data ra))" "0 \<le> ?j" "?j < int (length (m_data ra))"
    using lin_index_bounds [OF pos assms(2)] lin_index_bounds [OF pos assms(3)] raster_wf_size [OF assms(1)] by auto
  have wf: "raster_wf ra'"
    using assms(1) by (simp add: raster_wf_def ra'_def)
  have "raster_assign ra p v = Inr ra'"
    using raster_index_lin [OF assms(1), of p] in_box_length [OF assms(2)] b
    by (simp add: raster_assign_def ra'_def)
  moreover have "raster_subscript ra' q = (if q = p then Inr v else raster_subscript ra q)"
    using raster_subscript_in [OF wf, of q] raster_subscript_in [OF assms(1,3)] assms(3) b
      lin_index_inject [OF pos assms(2,3)] by (auto simp: ra'_def nth_list_update)
  ultimately show ?thesis
    using wf raster_read_all [OF assms(1)] by blast
qed

theorem raster_read_write_witness:
  "rmap (raster_subscript \<lparr>Dim = 2, m_shape = [2, 2], m_data = ''abcd''\<rparr>) [[0, 0], [1, 0], [0, 1], [1, 1]] = Inr ''abcd''"
  using raster_read_write [of "\<lparr>Dim = 2, m_shape = [2, 2], m_data = ''abcd''\<rparr>" "[0, 0]" "[1, 1]" "CHR ''x''"]
  by (simp add: raster_wf_def shapeSize_def upto_rec1)

section \<open>Backward indexing\<close>

definition wrap_axis :: "int \<Rightarrow> int \<Rightarrow> int" where
  "wrap_axis s b = (if b < 0 then b + s else b)"

definition axis_ok :: "position \<Rightarrow> position \<Rightarrow> nat \<Rightarrow> bool" where
  "axis_ok shape pos i \<longleftrightarrow> - (shape ! i) \<le> pos ! i \<and> pos ! i \<le> shape ! i - 1"

lemma at_loop:
  assumes "length pos = length shape" and "k \<le> length shape" and "\<forall>i < k. axis_ok shape pos i"
  shows "rfold (at_axis shape) [0..<k] pos = Inr (map2 wrap_axis (take k shape) (take k pos) @ drop k pos)"
  using assms(2,3)
proof (induction k)
  case (Suc k)
  let ?p = "map2 wrap_axis (take k shape) (take k pos) @ drop k pos"
  have k: "k < length pos" "k < length shape" and len: "length ?p = length pos"
    using Suc.prems assms(1) by auto
  have nth: "?p ! k = pos ! k"
    using k by (simp add: nth_append)
  have "at_axis shape k ?p = Inr (?p[k := wrap_axis (shape ! k) (pos ! k)])"
    using k len nth Suc.prems list_update_id [of ?p k] by (simp add: at_axis_def axis_ok_def wrap_axis_def)
  moreover have "?p[k := wrap_axis (shape ! k) (pos ! k)]
      = map2 wrap_axis (take (Suc k) shape) (take (Suc k) pos) @ drop (Suc k) pos"
    using k by (simp add: list_update_append take_Suc_conv_app_nth Cons_nth_drop_Suc [symmetric])
  ultimately show ?case
    using Suc by (simp add: rfold_append)
qed simp

lemma wrapped_in_box:
  assumes "length pos = length shape" and "\<forall>i < length shape. axis_ok shape pos i"
  shows "in_box (zeros (length shape)) (op_minus_scalar shape 1) (map2 wrap_axis shape pos)"
  using assms by (auto simp: in_box_nth axis_ok_def wrap_axis_def)

text \<open>
  \<^verbatim>\<open>at\<close> accepts exactly the coordinates from \<open>-s\<close> to \<open>s - 1\<close> on each axis of length \<open>s\<close> and returns
  the element at the position where the negative ones have been counted from the end; otherwise it
  throws the out-of-bounds error of the first offending axis, and never reads outside of the raster.
\<close>

theorem raster_at_wraps:
  assumes "raster_wf ra" and "length pos = length (m_shape ra)"
  shows "((\<forall>i < length pos. axis_ok (m_shape ra) pos i) \<longrightarrow>
            raster_at ra pos = raster_subscript ra (map2 wrap_axis (m_shape ra) pos) \<and>
            (\<exists>x \<in> set (m_data ra). raster_at ra pos = Inr x)) \<and>
         (\<forall>i < length pos. \<not> axis_ok (m_shape ra) pos i \<longrightarrow> (\<forall>j < i. axis_ok (m_shape ra) pos j) \<longrightarrow>
            raster_at ra pos = Inl (OutOfBoundsError (''pos['' @ to_string (int i) @ '']'') (pos ! i)
                                      (- (m_shape ra ! i), m_shape ra ! i - 1)))"
proof (intro conjI impI allI)
  let ?q = "map2 wrap_axis (m_shape ra) pos"
  assume ok: "\<forall>i < length pos. axis_ok (m_shape ra) pos i"
  then show eq: "raster_at ra pos = raster_subscript ra ?q"
    using at_loop [of pos "m_shape ra" "length (m_shape ra)"] assms(2) by (simp add: raster_at_def)
  have box: "in_box (zeros (length (m_shape ra))) (op_minus_scalar (m_shape ra) 1) ?q"
    using wrapped_in_box [OF assms(2)] ok assms(2) by simp
  have "\<forall>s \<in> set (m_shape ra). 0 < s"
    using assms(1) by (simp add: raster_wf_def)
  then have "nat (lin_index (m_shape ra) ?q) < length (m_data ra)"
    using lin_index_bounds [OF _ box] raster_wf_size [OF assms(1)] by simp
  then show "\<exists>x \<in> set (m_data ra). raster_at ra pos = Inr x"
    using eq raster_subscript_in [OF assms(1) box] by simp
next
  fix i
  assume i: "i < length pos" "\<not> axis_ok (m_shape ra) pos i" "\<forall>j < i. axis_ok (m_shape ra) pos j"
  have split: "[0..<length (m_shape ra)] = [0..<i] @ i # [Suc i..<length (m_shape ra)]"
    using i(1) assms(2) by (metis le_add1 less_imp_le_nat upt_add_eq_append upt_conv_Cons add_0 le_add_diff_inverse)
  have "out_of_bounds_may_throw (''pos['' @ to_string (int i) @ '']'') (pos ! i) (- (m_shape ra ! i), m_shape ra ! i - 1)
      = Inl (OutOfBoundsError (''pos['' @ to_string (int i) @ '']'') (pos ! i) (- (m_shape ra ! i), m_shape ra ! i - 1))"
    using i(2) by (intro out_of_bounds_may_throw_out) (auto simp: axis_ok_def)
  then show "raster_at ra pos = Inl (OutOfBoundsError (''pos['' @ to_string (int i) @ '']'') (pos ! i)
                                      (- (m_shape ra ! i), m_shape ra ! i - 1))"
    using at_loop [OF assms(2), of i] i assms(2) unfolding raster_at_def split
    by (simp add: rfold_append at_axis_def nth_append)
qed

theorem raster_at_wraps_witness:
  "raster_at \<lparr>Dim = 2, m_shape = [2, 2], m_data = ''abcd''\<rparr> [- 1, 0] = Inr (CHR ''b'')"
  using raster_at_wraps [of "\<lparr>Dim = 2, m_shape = [2, 2], m_data = ''abcd''\<rparr>" "[- 1, 0]"]
  by (simp add: raster_wf_def shapeSize_def axis_ok_def wrap_axis_def less_Suc_eq raster_subscript_def
      raster_index_def container_subscript_def numeral_2_eq_2)

section \<open>Slices and sections\<close>

fun contiguous :: "nat \<Rightarrow> position \<Rightarrow> position \<Rightarrow> position \<Rightarrow> bool" where
  "contiguous (Suc 0) (s # ss) (f # fs) (b # bs) \<longleftrightarrow> fs = bs"
| "contiguous (Suc (Suc M)) (s # ss) (f # fs) (b # bs) \<longleftrightarrow> f = 0 \<and> b = s - 1 \<and> contiguous (Suc M) ss fs bs"
| "contiguous M ss fs bs \<longleftrightarrow> False"

lemma contiguous_nth:
  assumes "0 < M" "M \<le> length shape" "length f = length shape" "length b = length shape"
  shows "contiguous M shape f b \<longleftrightarrow>
         (\<forall>i < M - 1. f ! i = 0 \<and> b ! i = shape ! i - 1) \<and> (\<forall>i. M \<le> i \<and> i < length shape \<longrightarrow> b ! i = f ! i)"
  using assms
proof (induction M shape f b rule: contiguous.induct)
  case (1 s ss f fs b bs)
  have "(\<forall>i. Suc 0 \<le> i \<and> i < Suc (length ss) \<longrightarrow> (b # bs) ! i = (f # fs) ! i) \<longleftrightarrow> (\<forall>i < length ss. bs ! i = fs ! i)"
    by (auto simp: nth_Cons split: nat.splits)
  then show ?case
    using 1 by (auto simp: list_eq_iff_nth_eq)
next
  case (2 M s ss f fs b bs)
  have "(\<forall>i. Suc (Suc M) \<le> i \<and> i < Suc (length ss) \<longrightarrow> (b # bs) ! i = (f # fs) ! i)
      \<longleftrightarrow> (\<forall>i. Suc M \<le> i \<and> i < length ss \<longrightarrow> bs ! i = fs ! i)"
    by (auto simp: nth_Cons split: nat.splits)
  moreover have "(\<forall>i < Suc (Suc M) - 1. (f # fs) ! i = 0 \<and> (b # bs) ! i = (s # ss) ! i - 1)
      \<longleftrightarrow> f = 0 \<and> b = s - 1 \<and> (\<forall>i < Suc M - 1. fs ! i = 0 \<and> bs ! i = ss ! i - 1)"
    by (auto simp: nth_Cons less_Suc_eq_0_disj split: nat.splits)
  ultimately show ?case
    using 2 by auto
qed auto

lemma positions_singleton: "positions f f = [f]"
  by (induction f) simp_all

lemma contiguous_lin_index:
  assumes "contiguous M shape f b" and "list_all2 (\<le>) f b" and "\<forall>s \<in> set shape. 0 < s" and "length shape = length f"
  shows "map (lin_index shape) (positions f b)
       = [lin_index shape f..lin_index shape f + prod_list (op_plus_scalar (op_minus b f) 1) - 1]"
  using assms
proof (induction M shape f b rule: contiguous.induct)
  case (1 s ss f fs b bs)
  have "prod_list (op_plus_scalar (op_minus bs bs) 1) = 1"
    by (induction bs) simp_all
  then show ?case
    using 1 interval_shift [of "s * lin_index ss bs" f b]
    by (simp add: positions_singleton comp_def algebra_simps)
next
  case (2 M s ss f fs b bs)
  let ?P = "prod_list (op_plus_scalar (op_minus bs fs) 1)"
  have le: "list_all2 (\<le>) fs bs" and fb: "f = 0" "b = s - 1" and s: "0 < s"
    using 2 by auto
  have P: "?P = int (length (positions fs bs))"
    using length_positions [OF le] by simp
  have "map (lin_index (s # ss)) (positions (f # fs) (b # bs))
      = concat (map (\<lambda>v. [s * v..s * v + s - 1]) (map (lin_index ss) (positions fs bs)))"
    unfolding fb by (simp add: map_concat comp_def interval_row)
  also have "\<dots> = [s * lin_index ss fs..s * (lin_index ss fs + ?P) - 1]"
    using 2 le concat_intervals [of s "lin_index ss fs" "length (positions fs bs)"] P by simp
  finally show ?case
    unfolding fb by (simp add: algebra_simps)
qed auto

lemma all_axes_Inr:
  "(\<And>i. i \<in> set is \<Longrightarrow> ok i = Inr (P i)) \<Longrightarrow> all_axes ok is = Inr (\<forall>i \<in> set is. P i)"
  by (induction "is") auto

text \<open>A region inside of a raster.\<close>

definition region_inside :: "'a raster \<Rightarrow> region \<Rightarrow> bool" where
  "region_inside ra r \<longleftrightarrow> list_all2 (\<le>) (rg_front r) (rg_back r) \<and>
     in_box (zeros (length (m_shape ra))) (op_minus_scalar (m_shape ra) 1) (rg_front r) \<and>
     in_box (zeros (length (m_shape ra))) (op_minus_scalar (m_shape ra) 1) (rg_back r)"

lemma region_inside_length:
  "region_inside ra r \<Longrightarrow> length (rg_front r) = length (m_shape ra) \<and> length (rg_back r) = length (m_shape ra)"
  by (auto simp: region_inside_def dest!: in_box_length)

lemma ball_upto_nat: "0 \<le> i \<Longrightarrow> (\<forall>k \<in> set [i..j - 1]. P (nat k)) \<longleftrightarrow> (\<forall>k. nat i \<le> k \<and> k < nat j \<longrightarrow> P k)" for i j :: int
proof (intro iffI allI impI ballI)
  fix k assume "0 \<le> i" "\<forall>k \<in> set [i..j - 1]. P (nat k)" "nat i \<le> k \<and> k < nat j"
  then show "P k"
    by (metis atLeastAtMost_iff int_nat_eq nat_int nat_le_iff set_upto zle_diff1_eq zless_nat_eq_int_zless)
qed auto

lemma isContiguous_correct:
  assumes "length (rg_front r) = length (m_shape ra)" "length (rg_back r) = length (m_shape ra)"
    and "0 < M" "M \<le> length (m_shape ra)"
  shows "isContiguous (int M) ra r = Inr (contiguous M (m_shape ra) (rg_front r) (rg_back r))"
proof -
  let ?f = "rg_front r" and ?b = "rg_back r" and ?s = "m_shape ra"
  have "all_axes (spans_axis ?s r) [0..int M - 2] = Inr (\<forall>i \<in> set [0..int M - 2]. ?f ! nat i = 0 \<and> ?b ! nat i = ?s ! nat i - 1)"
    using assms by (intro all_axes_Inr) (auto simp: spans_axis_def)
  moreover have "all_axes (flat_axis r) [int M..raster_dimension ra - 1] = Inr (\<forall>i \<in> set [int M..raster_dimension ra - 1]. ?b ! nat i = ?f ! nat i)"
    using assms by (intro all_axes_Inr) (auto simp: flat_axis_def raster_dimension_def)
  moreover have "(\<forall>i \<in> set [0..int M - 2]. ?f ! nat i = 0 \<and> ?b ! nat i = ?s ! nat i - 1) \<longleftrightarrow> (\<forall>i < M - 1. ?f ! i = 0 \<and> ?b ! i = ?s ! i - 1)"
    using ball_upto_nat [of 0 "int M - 1" "\<lambda>i. ?f ! i = 0 \<and> ?b ! i = ?s ! i - 1"] assms(3)
    by (simp add: nat_diff_distrib)
  moreover have "(\<forall>i \<in> set [int M..raster_dimension ra - 1]. ?b ! nat i = ?f ! nat i) \<longleftrightarrow> (\<forall>i. M \<le> i \<and> i < length ?s \<longrightarrow> ?b ! i = ?f ! i)"
    using ball_upto_nat [of "int M" "int (length ?s)" "\<lambda>i. ?b ! i = ?f ! i"] by (simp add: raster_dimension_def)
  ultimately show ?thesis
    using contiguous_nth [of M ?s ?f ?b] assms by (simp add: isContiguous_def)
qed

lemma prod_take_flat:
  "contiguous M shape f b \<Longrightarrow> length shape = length f \<Longrightarrow> length b = length f \<Longrightarrow>
   prod_list (take M (op_plus_scalar (op_minus b f) 1)) = prod_list (op_plus_scalar (op_minus b f) 1)"
proof (induction M shape f b rule: contiguous.induct)
  case (1 s ss f fs b bs)
  have "prod_list (op_plus_scalar (op_minus bs bs) 1) = 1"
    by (induction bs) simp_all
  then show ?case using 1 by simp
qed auto

lemma slice_reduced:
  assumes "length f = length b" and "M \<le> length f"
  shows "rmap (\<lambda>i. rbind (rd b i) (\<lambda>x. rbind (rd f i) (\<lambda>y. Inr (x - y + 1)))) [0..int M - 1]
       = Inr (take M (op_plus_scalar (op_minus b f) 1))"
proof -
  have "rmap (\<lambda>i. rbind (rd b i) (\<lambda>x. rbind (rd f i) (\<lambda>y. Inr (x - y + 1)))) [0..int M - 1]
      = Inr (map (\<lambda>i. b ! nat i - f ! nat i + 1) [0..int M - 1])"
    using assms by (intro rmap_Inr) auto
  also have "map (\<lambda>i. b ! nat i - f ! nat i + 1) [0..int M - 1] = take M (op_plus_scalar (op_minus b f) 1)"
    using assms by (intro nth_equalityI) simp_all
  finally show ?thesis .
qed

lemma slice_correct:
  assumes wf: "raster_wf ra" and inside: "region_inside ra r" and M: "0 < M" "M \<le> length (m_shape ra)"
    and c: "contiguous M (m_shape ra) (rg_front r) (rg_back r)"
  shows "\<exists>v xs. raster_slice (int M) ra r = Inr v \<and> pr_shape v = take M (rg_shape r) \<and>
           ptr_elements (m_data ra) v = Inr xs \<and> rmap (raster_subscript ra) (positions (rg_front r) (rg_back r)) = Inr xs"
proof -
  let ?s = "m_shape ra" and ?f = "rg_front r" and ?b = "rg_back r"
  let ?P = "prod_list (rg_shape r)" and ?i = "lin_index (m_shape ra) (rg_front r)"
  note len = region_inside_length [OF inside]
  have pos: "\<forall>s \<in> set ?s. 0 < s" and le: "list_all2 (\<le>) ?f ?b" and ne: "?s \<noteq> []"
    using wf inside by (auto simp: raster_wf_def region_inside_def)
  define v where "v = \<lparr>pr_offset = ?i, pr_shape = take M (rg_shape r)\<rparr>"
  have slice: "raster_slice (int M) ra r = Inr v"
    using isContiguous_correct [of r ra M] slice_reduced [of ?f ?b M] raster_index_lin [OF wf, of ?f] len M c
    by (simp add: raster_slice_def v_def rg_shape_def)
  have sz: "shapeSize (pr_shape v) = ?P"
    using prod_take_flat [OF c] len M ne by (simp add: v_def rg_shape_def shapeSize_def foldl_times)
  have box: "in_box (zeros (length ?s)) (op_minus_scalar ?s 1) p" if "p \<in> set (positions ?f ?b)" for p
  proof -
    have "in_box ?f ?b p"
      using that len by (simp add: set_positions)
    then show ?thesis
      using inside len unfolding region_inside_def in_box_nth by (metis order_trans)
  qed
  have "rmap (raster_subscript ra) (positions ?f ?b) = Inr (map (\<lambda>p. m_data ra ! nat (lin_index ?s p)) (positions ?f ?b))"
    by (intro rmap_Inr raster_subscript_in [OF wf] box)
  also have "map (\<lambda>p. m_data ra ! nat (lin_index ?s p)) (positions ?f ?b)
      = map (\<lambda>k. m_data ra ! nat k) (map (lin_index ?s) (positions ?f ?b))"
    by simp
  also have "\<dots> = map (\<lambda>k. m_data ra ! nat k) [?i..?i + ?P - 1]"
    using contiguous_lin_index [OF c le pos] len by (simp add: rg_shape_def)
  finally have read: "rmap (raster_subscript ra) (positions ?f ?b) = Inr (map (\<lambda>k. m_data ra ! nat k) [?i..?i + ?P - 1])" .
  have idx: "0 \<le> k \<and> k < int (length (m_data ra))" if "k \<in> set [?i..?i + ?P - 1]" for k
  proof -
    have "k \<in> set (map (lin_index ?s) (positions ?f ?b))"
      using that contiguous_lin_index [OF c le pos] len by (simp add: rg_shape_def)
    then obtain p where "k = lin_index ?s p" "p \<in> set (positions ?f ?b)" by auto
    then show ?thesis
      using lin_index_bounds [OF pos box] raster_wf_size [OF wf] by simp
  qed
  have "ptr_elements (m_data ra) v = Inr (map (\<lambda>k. m_data ra ! nat (?i + k)) [0..?P - 1])"
    unfolding ptr_elements_def sz using idx by (intro rmap_Inr rd_in) (auto simp: v_def)
  also have "map (\<lambda>k. m_data ra ! nat (?i + k)) [0..?P - 1] = map (\<lambda>k. m_data ra ! nat k) (map ((+) ?i) [0..?P - 1])"
    by simp
  also have "map ((+) ?i) [0..?P - 1] = [?i..?i + ?P - 1]"
    by (simp add: upto_shift add_diff_eq)
  finally show ?thesis
    using slice read by (simp add: v_def)
qed



lemma domain_fixed:
  "Dim ra = int (length (m_shape ra)) \<Longrightarrow>
   raster_domain ra = \<lparr>rg_front = zeros (length (m_shape ra)), rg_back = op_minus_scalar (m_shape ra) 1\<rparr>"
proof -
  have "op_plus (zeros (length xs)) xs = xs" for xs :: "int list"
    by (rule nth_equalityI) simp_all
  from this [of "op_minus_scalar (m_shape ra) 1"] show "Dim ra = int (length (m_shape ra)) \<Longrightarrow> ?thesis"
    by (simp add: raster_domain_def rg_fromShape_def pos_zero_def)
qed

definition section_box :: "'a raster \<Rightarrow> int \<Rightarrow> int \<Rightarrow> region" where
  "section_box ra i j =
     \<lparr>rg_front = (zeros (length (m_shape ra)))[length (m_shape ra) - 1 := i],
      rg_back = (op_minus_scalar (m_shape ra) 1)[length (m_shape ra) - 1 := j]\<rparr>"

lemma section_region_fixed:
  assumes "raster_wf ra" and "Dim ra \<noteq> - 1"
  shows "section_region ra i j = Inr (section_box ra i j)"
proof -
  have D: "Dim ra = int (length (m_shape ra))" "0 < length (m_shape ra)"
    using assms by (auto simp: raster_wf_def)
  then have "nat (int (length (m_shape ra)) - 1) = length (m_shape ra) - 1" by simp
  with D show ?thesis
    by (simp add: section_region_def section_box_def domain_fixed Let_def raster_dimension_def)
qed

lemma section_box_inside:
  assumes "raster_wf ra" and "0 \<le> i" "i \<le> j" "j < last (m_shape ra)"
  shows "region_inside ra (section_box ra i j)"
proof -
  have "last (m_shape ra) = m_shape ra ! (length (m_shape ra) - 1)"
    using assms(1) by (simp add: raster_wf_def last_conv_nth)
  moreover have "0 < m_shape ra ! k" if "k < length (m_shape ra)" for k
    using assms(1) that by (simp add: raster_wf_def)
  ultimately show ?thesis
    using assms by (auto simp: region_inside_def section_box_def in_box_nth list_all2_conv_all_nth nth_list_update)
qed

text \<open>
  With a fixed dimension, \<^verbatim>\<open>section(front, back)\<close> never throws when the bounds lie on the last axis:
  it returns the view, inside of the raster, of the elements whose last coordinate is between the
  bounds; \<^verbatim>\<open>section(index)\<close> returns the same elements for \<open>front = back = index\<close> with one axis less.
\<close>

theorem raster_section_correct:
  assumes "raster_wf ra" and "Dim ra \<noteq> - 1" and "0 \<le> i" "i \<le> j" "j < last (m_shape ra)"
  shows "(\<exists>v xs. raster_section ra i j = Inr v \<and> pr_shape v = butlast (m_shape ra) @ [j - i + 1] \<and>
            ptr_elements (m_data ra) v = Inr xs \<and>
            rmap (raster_subscript ra) (positions (rg_front (section_box ra i j)) (rg_back (section_box ra i j))) = Inr xs) \<and>
         (1 < length (m_shape ra) \<longrightarrow>
           (\<exists>v xs. raster_section_at ra i = Inr v \<and> pr_shape v = butlast (m_shape ra) \<and> ptr_elements (m_data ra) v = Inr xs \<and>
              rmap (raster_subscript ra) (positions (rg_front (section_box ra i i)) (rg_back (section_box ra i i))) = Inr xs))"
proof (intro conjI impI)
  let ?n = "length (m_shape ra)"
  have n: "Dim ra = int ?n" "0 < ?n"
    using assms by (auto simp: raster_wf_def)
  have shape: "rg_shape (section_box ra i j) = butlast (m_shape ra) @ [j - i + 1]" for i j
    using n(2) by (intro nth_equalityI) (auto simp: rg_shape_def section_box_def nth_append nth_butlast nth_list_update)
  have whole: "contiguous ?n (m_shape ra) (rg_front (section_box ra i j)) (rg_back (section_box ra i j))" for i j
    using n(2) by (subst contiguous_nth) (auto simp: section_box_def nth_list_update)
  show "\<exists>v xs. raster_section ra i j = Inr v \<and> pr_shape v = butlast (m_shape ra) @ [j - i + 1] \<and>
            ptr_elements (m_data ra) v = Inr xs \<and>
            rmap (raster_subscript ra) (positions (rg_front (section_box ra i j)) (rg_back (section_box ra i j))) = Inr xs"
    using slice_correct [OF assms(1) section_box_inside [OF assms(1,3-5)] n(2) _ whole] shape n
      section_region_fixed [OF assms(1,2), of i j] by (auto simp: raster_section_def)
  assume more: "1 < ?n"
  have flat: "contiguous (?n - 1) (m_shape ra) (rg_front (section_box ra i i)) (rg_back (section_box ra i i))"
    using more by (subst contiguous_nth) (auto simp: section_box_def nth_list_update)
  have "region_inside ra (section_box ra i i)"
    using section_box_inside [OF assms(1,3)] assms(4,5) by simp
  from slice_correct [OF assms(1) this _ _ flat] show
    "\<exists>v xs. raster_section_at ra i = Inr v \<and> pr_shape v = butlast (m_shape ra) \<and> ptr_elements (m_data ra) v = Inr xs \<and>
       rmap (raster_subscript ra) (positions (rg_front (section_box ra i i)) (rg_back (section_box ra i i))) = Inr xs"
    using shape [of i i] n more section_region_fixed [OF assms(1,2), of i i]
    by (auto simp: raster_section_at_def of_nat_diff)
qed

theorem raster_section_correct_witness:
  "\<exists>v. raster_section \<lparr>Dim = 2, m_shape = [2, 3], m_data = ''abcdef''\<rparr> 1 2 = Inr v \<and> pr_shape v = [2, 2]"
  using raster_section_correct [of "\<lparr>Dim = 2, m_shape = [2, 3], m_data = ''abcdef''\<rparr>" 1 2]
  by (auto simp: raster_wf_def shapeSize_def)

text \<open>
  With a variable dimension (\<open>N = -1\<close>), \<^verbatim>\<open>domain()\<close> builds a one-dimensional region whatever the
  dimension of the raster, because \<^verbatim>\<open>Position<-1>::zero()\<close> has one coordinate; therefore \<^verbatim>\<open>section\<close> of a
  raster of two axes or more writes outside of that region, and \<^verbatim>\<open>slice<-1>\<close> always reads the
  coordinate of index \<open>-1\<close>.
\<close>

theorem dynamic_section_undefined:
  assumes "Dim ra = - 1" and "1 < length (m_shape ra)"
  shows "length (rg_front (raster_domain ra)) = 1 \<and> raster_section ra i j = Inl Undefined \<and>
         raster_section_at ra i = Inl Undefined \<and> raster_slice (- 1) ra r = Inl Undefined"
proof -
  have front: "rg_front (raster_domain ra) = [0]"
    using assms(1) by (simp add: raster_domain_def rg_fromShape_def pos_zero_def)
  have "section_region ra i j = Inl Undefined" for i j
    using assms(2) front by (simp add: section_region_def Let_def raster_dimension_def wr_def)
  moreover have "[- 1..raster_dimension ra - 1] = - 1 # [0..raster_dimension ra - 1]"
    using upto_rec1 [of "- 1" "raster_dimension ra - 1"] by (simp add: raster_dimension_def)
  ultimately show ?thesis
    using front by (simp add: raster_section_def raster_section_at_def raster_slice_def isContiguous_def flat_axis_def rd_def)
qed

theorem dynamic_section_undefined_witness:
  "raster_section \<lparr>Dim = - 1, m_shape = [2, 3], m_data = ''abcdef''\<rparr> 1 2 = Inl Undefined"
  using dynamic_section_undefined [of "\<lparr>Dim = - 1, m_shape = [2, 3], m_data = ''abcdef''\<rparr>" 1 2 undefined] by simp

lemma subraster_subscript_in:
  assumes "raster_wf ra" and "region_inside ra r" and "in_box (zeros (length (m_shape ra))) (extent r) p"
  shows "subraster_subscript (raster_subraster ra r) p = raster_subscript ra (op_plus p (rg_front r)) \<and>
         in_region r (op_plus p (rg_front r))"
proof -
  have "length p = length (m_shape ra)"
    using in_box_length [OF assms(3)] by simp
  then show ?thesis
    using assms(3) region_inside_length [OF assms(2)]
    by (auto simp: subraster_subscript_def raster_subraster_def in_region_def in_box_nth extent_def)
qed

end
