(* ===== verification/Fits_FileMem.thy ===== *)
theory Fits_FileMem
  imports Fits_Position
begin

text \<open>
  Associated in-file and in-memory extents (\<^verbatim>\<open>EleFits/FileMemSegments.h\<close>, \<^verbatim>\<open>FileMemSegments.cpp\<close>,
  \<^verbatim>\<open>FileMemRegions.h\<close>): a reader or writer gives one of them, the other is deduced, and open ends (the
  special values \<open>-1\<close> and \<open>-2\<close>) are resolved once the lengths in the file and in memory are known.
\<close>

section \<open>Segments\<close>

record file_mem_segments =
  fm_file :: segment
  fm_memory :: segment

definition fms_of_file :: "segment \<Rightarrow> int \<Rightarrow> file_mem_segments" where
  "fms_of_file fileSegment memoryIndex =
     (let file = fileSegment; memory = seg_fromSize memoryIndex (seg_size fileSegment)
      in \<lparr>fm_file = file, fm_memory = (if seg_back file = - 1 then memory\<lparr>seg_back := - 2\<rparr> else memory)\<rparr>)"

definition fms_of_memory :: "int \<Rightarrow> segment \<Rightarrow> file_mem_segments" where
  "fms_of_memory fileIndex memorySegment =
     (let file = seg_fromSize fileIndex (seg_size memorySegment); memory = memorySegment
      in \<lparr>fm_file = (if seg_back memory = - 1 then file\<lparr>seg_back := - 2\<rparr> else file), fm_memory = memory\<rparr>)"

definition fms_size :: "file_mem_segments \<Rightarrow> int" where
  "fms_size s = seg_size (fm_file s)"

definition fms_resolve :: "int \<Rightarrow> int \<Rightarrow> file_mem_segments \<Rightarrow> file_mem_segments" where
  "fms_resolve fileBack memoryBack s =
     (let file0 = fm_file s; memory0 = fm_memory s;
          file1 = (if seg_front file0 = - 1 then file0\<lparr>seg_front := fileBack + 1\<rparr>
                   else if seg_back file0 = - 1 then file0\<lparr>seg_back := fileBack\<rparr> else file0);
          memory1 = (if seg_back memory0 = - 1 then memory0\<lparr>seg_back := memoryBack\<rparr> else memory0)
      in if seg_back file1 = - 2
         then \<lparr>fm_file = file1\<lparr>seg_back := seg_front file1 + seg_size memory1 - 1\<rparr>, fm_memory = memory1\<rparr>
         else if seg_back memory1 = - 2
         then \<lparr>fm_file = file1, fm_memory = memory1\<lparr>seg_back := seg_front memory1 + seg_size file1 - 1\<rparr>\<rparr>
         else \<lparr>fm_file = file1, fm_memory = memory1\<rparr>)"

definition fms_fileToMemory :: "file_mem_segments \<Rightarrow> int" where
  "fms_fileToMemory s = seg_front (fm_memory s) - seg_front (fm_file s)"

definition fms_memoryToFile :: "file_mem_segments \<Rightarrow> int" where
  "fms_memoryToFile s = seg_front (fm_file s) - seg_front (fm_memory s)"

section \<open>Regions\<close>

record file_mem_regions =
  fmr_file :: region
  fmr_memory :: region

definition fmr_of_file :: "int \<Rightarrow> region \<Rightarrow> position \<Rightarrow> file_mem_regions" where
  "fmr_of_file n fileRegion memoryPosition =
     (let memory = rg_fromShape memoryPosition (rg_shape fileRegion)
      in \<lparr>fmr_file = fileRegion,
          fmr_memory = (if isMax (rg_back fileRegion) then memory\<lparr>rg_back := pos_zero n\<rparr> else memory)\<rparr>)"

definition fmr_of_memory :: "int \<Rightarrow> position \<Rightarrow> region \<Rightarrow> file_mem_regions" where
  "fmr_of_memory n filePosition memoryRegion =
     (let file = rg_fromShape filePosition (rg_shape memoryRegion)
      in \<lparr>fmr_file = (if isMax (rg_back memoryRegion) then file\<lparr>rg_back := pos_zero n\<rparr> else file),
          fmr_memory = memoryRegion\<rparr>)"

definition fmr_fileToMemory :: "file_mem_regions \<Rightarrow> position" where
  "fmr_fileToMemory s = op_minus (rg_front (fmr_memory s)) (rg_front (fmr_file s))"

definition fmr_memoryToFile :: "file_mem_regions \<Rightarrow> position" where
  "fmr_memoryToFile s = op_minus (rg_front (fmr_file s)) (rg_front (fmr_memory s))"

text \<open>The loop of \<^verbatim>\<open>resolve\<close> runs over five sequences at once, one axis at a time.\<close>

definition resolve_axis :: "int \<Rightarrow> int \<Rightarrow> int \<Rightarrow> int \<Rightarrow> int \<Rightarrow> int \<times> int" where
  "resolve_axis fit mit fbit mbit ftom =
     (if fit = - 1 then (fbit, fbit + ftom)
      else if mit = - 1 then (mbit - ftom, mbit)
      else (fit, mit))"

fun resolve_axes :: "int list \<Rightarrow> int list \<Rightarrow> int list \<Rightarrow> int list \<Rightarrow> int list \<Rightarrow> (int list \<times> int list) result" where
  "resolve_axes [] mits fbits mbits ftoms = Inr ([], mits)"
| "resolve_axes (fit # fits) (mit # mits) (fbit # fbits) (mbit # mbits) (ftom # ftoms) =
     rbind (resolve_axes fits mits fbits mbits ftoms) (\<lambda>(fs, ms).
       Inr (fst (resolve_axis fit mit fbit mbit ftom) # fs, snd (resolve_axis fit mit fbit mbit ftom) # ms))"
| "resolve_axes (fit # fits) mits fbits mbits ftoms = Inl Undefined"

definition fmr_resolve :: "position \<Rightarrow> position \<Rightarrow> file_mem_regions \<Rightarrow> file_mem_regions result" where
  "fmr_resolve fileBack memoryBack s =
     rbind (resolve_axes (rg_back (fmr_file s)) (rg_back (fmr_memory s)) fileBack memoryBack (fmr_fileToMemory s))
       (\<lambda>(fs, ms). Inr (s\<lparr>fmr_file := (fmr_file s)\<lparr>rg_back := fs\<rparr>, fmr_memory := (fmr_memory s)\<lparr>rg_back := ms\<rparr>\<rparr>))"

definition makeMemRegion :: "int \<Rightarrow> region \<Rightarrow> file_mem_regions" where
  "makeMemRegion n memoryRegion = fmr_of_memory n (pos_zero n) memoryRegion"

definition makeMemRegion_at :: "int \<Rightarrow> position \<Rightarrow> file_mem_regions" where
  "makeMemRegion_at n memoryPosition = fmr_of_file n (rg_whole n) memoryPosition"

section \<open>What resolution promises\<close>

text \<open>A segment whose rows exist, or whose end is left open.\<close>

definition seg_open :: "segment \<Rightarrow> bool" where
  "seg_open s \<longleftrightarrow> 0 \<le> seg_front s \<and> (seg_back s = - 1 \<or> seg_front s \<le> seg_back s)"

definition seg_close :: "int \<Rightarrow> segment \<Rightarrow> segment" where
  "seg_close bk s = (if seg_back s = - 1 then s\<lparr>seg_back := bk\<rparr> else s)"

text \<open>
  Resolution closes the open end of the segment that was given, keeps its front, and gives the
  other segment the same number of rows; a file index of \<open>-1\<close> stands for the row after the last one,
  when all of the memory is written.
\<close>

theorem segments_resolved:
  assumes "seg_open s" and "0 \<le> index" and "- 1 \<le> fileBack" and "- 1 \<le> memoryBack"
  shows "(let r = fms_resolve fileBack memoryBack (fms_of_file s index) in
            fm_file r = seg_close fileBack s \<and> fm_memory r = seg_fromSize index (seg_size (seg_close fileBack s))) \<and>
         (let r = fms_resolve fileBack memoryBack (fms_of_memory index s) in
            fm_memory r = seg_close memoryBack s \<and> fm_file r = seg_fromSize index (seg_size (seg_close memoryBack s))) \<and>
         (seg_back s = - 1 \<longrightarrow>
           (let r = fms_resolve fileBack memoryBack (fms_of_memory (- 1) s) in
              fm_memory r = seg_close memoryBack s \<and>
              fm_file r = seg_fromSize (fileBack + 1) (seg_size (seg_close memoryBack s))))"
  using assms
  by (auto simp: fms_resolve_def fms_of_file_def fms_of_memory_def Let_def seg_open_def seg_close_def seg_fromSize_def seg_size_def)

theorem segments_resolved_witness:
  "fm_file (fms_resolve 9 4 (fms_of_memory 3 \<lparr>seg_front = 1, seg_back = - 1\<rparr>)) = \<lparr>seg_front = 3, seg_back = 6\<rparr>"
  using segments_resolved [of "\<lparr>seg_front = 1, seg_back = - 1\<rparr>" 3 9 4]
  by (simp add: seg_open_def Let_def seg_close_def seg_fromSize_def seg_size_def)

text \<open>
  Appending an explicit memory segment (file index \<open>-1\<close>) to a table that already has rows leaves
  the back of the file segment where the constructor computed it: the two segments have different
  sizes, although the row to write at is the right one.
\<close>

theorem append_explicit_segment_mismatch:
  assumes "0 \<le> seg_front s" "seg_front s \<le> seg_back s" and "0 \<le> fileBack"
  shows "let r = fms_resolve fileBack memoryBack (fms_of_memory (- 1) s) in
         seg_front (fm_file r) = fileBack + 1 \<and> fm_memory r = s \<and>
         seg_size (fm_file r) = seg_size (fm_memory r) - (fileBack + 2)"
  using assms by (simp add: fms_resolve_def fms_of_memory_def Let_def seg_fromSize_def seg_size_def)

theorem append_explicit_segment_mismatch_witness:
  "seg_size (fm_file (fms_resolve 9 4 (fms_of_memory (- 1) \<lparr>seg_front = 0, seg_back = 4\<rparr>))) = - 6"
  using append_explicit_segment_mismatch [of "\<lparr>seg_front = 0, seg_back = 4\<rparr>" 9 4]
  by (simp add: Let_def seg_size_def [of "\<lparr>seg_front = 0, seg_back = 4\<rparr>"])

text \<open>An axis is well given when its front exists and its back is open or not before the front.\<close>

definition axis_open :: "int \<Rightarrow> int \<Rightarrow> bool" where
  "axis_open f b \<longleftrightarrow> 0 \<le> f \<and> (b = - 1 \<or> f \<le> b)"

definition close_axes :: "position \<Rightarrow> position \<Rightarrow> position" where
  "close_axes bks bs = map2 (\<lambda>bk b. if b = - 1 then bk else b) bks bs"

lemma resolve_axes_total:
  "length mits = length fits \<Longrightarrow> length fbits = length fits \<Longrightarrow> length mbits = length fits \<Longrightarrow> length ftoms = length fits \<Longrightarrow>
   resolve_axes fits mits fbits mbits ftoms =
     Inr (map (\<lambda>i. fst (resolve_axis (fits ! i) (mits ! i) (fbits ! i) (mbits ! i) (ftoms ! i))) [0..<length fits],
          map (\<lambda>i. snd (resolve_axis (fits ! i) (mits ! i) (fbits ! i) (mbits ! i) (ftoms ! i))) [0..<length fits])"
proof (induction fits mits fbits mbits ftoms rule: resolve_axes.induct)
  case (2 fit fits mit mits fbit fbits mbit mbits ftom ftoms)
  have "[0..<length (fit # fits)] = 0 # map Suc [0..<length fits]"
    by (simp add: map_Suc_upt upt_conv_Cons del: upt_Suc)
  then show ?case
    using 2 by (simp add: comp_def del: upt_Suc)
qed auto

text \<open>One resolution step with the given axis in the file (left) or in memory (right).\<close>

lemma fmr_resolve_given:
  assumes "length f = N" "length b = N" "length p = N" "length q = N" "length fileBack = N" "length memoryBack = N"
  shows "(\<forall>i < N. resolve_axis (b ! i) (q ! i) (fileBack ! i) (memoryBack ! i) (p ! i - f ! i) = (fb i, mb i)) \<Longrightarrow>
         fmr_resolve fileBack memoryBack
           \<lparr>fmr_file = \<lparr>rg_front = f, rg_back = b\<rparr>, fmr_memory = \<lparr>rg_front = p, rg_back = q\<rparr>\<rparr> =
         Inr \<lparr>fmr_file = \<lparr>rg_front = f, rg_back = map fb [0..<N]\<rparr>, fmr_memory = \<lparr>rg_front = p, rg_back = map mb [0..<N]\<rparr>\<rparr>"
  using assms by (simp add: fmr_resolve_def fmr_fileToMemory_def resolve_axes_total)

definition closed_back :: "int \<Rightarrow> int \<Rightarrow> int" where
  "closed_back bk b = (if b = - 1 then bk else b)"

lemma close_axes_nth:
  "length bks = length bs \<Longrightarrow> close_axes bks bs = map (\<lambda>i. closed_back (bks ! i) (bs ! i)) [0..<length bs]"
  by (rule nth_equalityI) (simp_all add: close_axes_def closed_back_def)

lemma rg_fromShape_nth:
  "length p = length f \<Longrightarrow> length b = length f \<Longrightarrow>
   rg_fromShape p (rg_shape \<lparr>rg_front = f, rg_back = b\<rparr>) =
     \<lparr>rg_front = p, rg_back = map (\<lambda>i. p ! i + (b ! i - f ! i)) [0..<length f]\<rparr>"
  by (simp add: rg_fromShape_def rg_shape_def) (rule nth_equalityI, simp_all)

text \<open>
  With a file region given, resolution never leaves the coordinate arrays, replaces the open
  backs of the file region by those of the file, and gives the memory region the same shape; with a
  memory region given, it does so for a region that is wholly open or wholly closed.
\<close>

theorem regions_resolved:
  assumes "length f = N" "length b = N" "length p = N" "length fileBack = N" "length memoryBack = N"
    and "\<forall>i < N. axis_open (f ! i) (b ! i) \<and> 0 \<le> p ! i"
  shows "(let file = \<lparr>rg_front = f, rg_back = close_axes fileBack b\<rparr> in
            fmr_resolve fileBack memoryBack (fmr_of_file (int N) \<lparr>rg_front = f, rg_back = b\<rparr> p) =
              Inr \<lparr>fmr_file = file, fmr_memory = rg_fromShape p (rg_shape file)\<rparr>) \<and>
         (isMax b \<or> (\<forall>i < N. b ! i \<noteq> - 1) \<longrightarrow>
           (let memory = \<lparr>rg_front = f, rg_back = close_axes memoryBack b\<rparr> in
              fmr_resolve fileBack memoryBack (fmr_of_memory (int N) p \<lparr>rg_front = f, rg_back = b\<rparr>) =
                Inr \<lparr>fmr_file = rg_fromShape p (rg_shape memory), fmr_memory = memory\<rparr>))"
proof (intro conjI impI)
  have max: "b ! i = - 1" if "isMax b" "i < N" for i
    using that assms(2) isMax_iff [of b] nth_replicate [of i N "- 1"] by metis
  define q where "q = (if isMax b then replicate N 0 else map (\<lambda>i. p ! i + (b ! i - f ! i)) [0..<N])"
  have of_file: "fmr_of_file (int N) \<lparr>rg_front = f, rg_back = b\<rparr> p =
      \<lparr>fmr_file = \<lparr>rg_front = f, rg_back = b\<rparr>, fmr_memory = \<lparr>rg_front = p, rg_back = q\<rparr>\<rparr>"
    using assms by (simp add: fmr_of_file_def rg_fromShape_nth q_def pos_zero_def)
  have of_memory: "fmr_of_memory (int N) p \<lparr>rg_front = f, rg_back = b\<rparr> =
      \<lparr>fmr_file = \<lparr>rg_front = p, rg_back = q\<rparr>, fmr_memory = \<lparr>rg_front = f, rg_back = b\<rparr>\<rparr>"
    using assms by (simp add: fmr_of_memory_def rg_fromShape_nth q_def pos_zero_def)
  have q: "length q = N" "\<And>i. i < N \<Longrightarrow> q ! i = (if isMax b then 0 else p ! i + (b ! i - f ! i))"
    by (simp_all add: q_def)
  have in_file: "\<forall>i < N. resolve_axis (b ! i) (q ! i) (fileBack ! i) (memoryBack ! i) (p ! i - f ! i) =
      (closed_back (fileBack ! i) (b ! i), p ! i + (closed_back (fileBack ! i) (b ! i) - f ! i))"
    using assms(6) q(2) max by (auto simp: resolve_axis_def closed_back_def axis_open_def)
  show "let file = \<lparr>rg_front = f, rg_back = close_axes fileBack b\<rparr> in
            fmr_resolve fileBack memoryBack (fmr_of_file (int N) \<lparr>rg_front = f, rg_back = b\<rparr> p) =
              Inr \<lparr>fmr_file = file, fmr_memory = rg_fromShape p (rg_shape file)\<rparr>"
    using fmr_resolve_given [OF assms(1,2,3) q(1) assms(4,5) in_file] assms
    by (simp add: of_file close_axes_nth rg_fromShape_nth)
  assume "isMax b \<or> (\<forall>i < N. b ! i \<noteq> - 1)"
  then have in_memory: "\<forall>i < N. resolve_axis (q ! i) (b ! i) (fileBack ! i) (memoryBack ! i) (f ! i - p ! i) =
      (p ! i + (closed_back (memoryBack ! i) (b ! i) - f ! i), closed_back (memoryBack ! i) (b ! i))"
    using assms(6) q(2) max by (fastforce simp: resolve_axis_def closed_back_def axis_open_def)
  show "let memory = \<lparr>rg_front = f, rg_back = close_axes memoryBack b\<rparr> in
              fmr_resolve fileBack memoryBack (fmr_of_memory (int N) p \<lparr>rg_front = f, rg_back = b\<rparr>) =
                Inr \<lparr>fmr_file = rg_fromShape p (rg_shape memory), fmr_memory = memory\<rparr>"
    using fmr_resolve_given [OF assms(3) q(1) assms(1,2,4,5) in_memory] assms
    by (simp add: of_memory close_axes_nth rg_fromShape_nth)
qed

theorem regions_resolved_witness:
  "fmr_resolve [9, 9] [4, 4] (fmr_of_file 2 \<lparr>rg_front = [2, 0], rg_back = [5, - 1]\<rparr> [0, 0]) =
     Inr \<lparr>fmr_file = \<lparr>rg_front = [2, 0], rg_back = [5, 9]\<rparr>, fmr_memory = \<lparr>rg_front = [0, 0], rg_back = [3, 9]\<rparr>\<rparr>"
  using regions_resolved [of "[2, 0]" 2 "[5, - 1]" "[0, 0]" "[9, 9]" "[4, 4]"]
  by (simp add: axis_open_def less_Suc_eq numeral_2_eq_2 Let_def close_axes_def rg_fromShape_def rg_shape_def)

text \<open>
  A memory region that is open along some axes only is resolved against the file instead of the
  memory along each open axis whose front is at the same coordinate in the file and in memory.
\<close>

theorem partly_open_memory_region:
  assumes "0 \<le> f" "0 \<le> g" "g \<le> b"
  shows "fmr_resolve [fileBack, fileBack'] [memoryBack, memoryBack']
           (fmr_of_memory 2 [f, g] \<lparr>rg_front = [f, g], rg_back = [- 1, b]\<rparr>) =
         Inr \<lparr>fmr_file = \<lparr>rg_front = [f, g], rg_back = [fileBack, b]\<rparr>, fmr_memory = \<lparr>rg_front = [f, g], rg_back = [fileBack, b]\<rparr>\<rparr>"
  using assms
  by (simp add: fmr_resolve_def fmr_of_memory_def rg_fromShape_def rg_shape_def fmr_fileToMemory_def resolve_axis_def)

theorem partly_open_memory_region_witness:
  "fmr_resolve [9, 9] [4, 4] (fmr_of_memory 2 [0, 0] \<lparr>rg_front = [0, 0], rg_back = [- 1, 3]\<rparr>) =
     Inr \<lparr>fmr_file = \<lparr>rg_front = [0, 0], rg_back = [9, 3]\<rparr>, fmr_memory = \<lparr>rg_front = [0, 0], rg_back = [9, 3]\<rparr>\<rparr>"
  using partly_open_memory_region [of 0 0 3 9 9 4 4] by simp

end
