(* ===== verification/Fits_Image.thy ===== *)
theory Fits_Image
  imports Fits_Header Fits_Raster Fits_FileMem
begin

text \<open>
  Reading and writing the data unit of an image: the wrapper \<^verbatim>\<open>ImageWrapper.hpp\<close>, the handler
  \<^verbatim>\<open>ImageRaster\<close> and the copy of images (\<^verbatim>\<open>ImageHdu::operator=\<close>).  The pixel functions of CFITSIO are a
  parameter; regions of memory that are not contiguous are read and written line by line.
\<close>

section \<open>The pixel functions of CFITSIO\<close>

text \<open>
  Positions are 1-based for CFITSIO.  Readers return the pixels they store at the given address, in
  memory order; the first argument is the type of the pixels in memory.
\<close>

record ('f, 'a) pixel_api =
  px_read_img :: "value_type \<Rightarrow> int \<Rightarrow> int \<Rightarrow> 'f \<Rightarrow> 'a list \<times> int"
  px_read_subset :: "value_type \<Rightarrow> position \<Rightarrow> position \<Rightarrow> position \<Rightarrow> 'f \<Rightarrow> 'a list \<times> int"
  px_write_img :: "value_type \<Rightarrow> int \<Rightarrow> 'a list \<Rightarrow> 'f \<Rightarrow> 'f \<times> int"
  px_write_subset :: "value_type \<Rightarrow> position \<Rightarrow> position \<Rightarrow> 'a list \<Rightarrow> 'f \<Rightarrow> 'f \<times> int"
  px_write_pix :: "value_type \<Rightarrow> position \<Rightarrow> 'a list \<Rightarrow> 'f \<Rightarrow> 'f \<times> int"
  px_get_img_type :: "'f \<Rightarrow> int \<times> int"
  px_resize_img :: "int \<Rightarrow> position \<Rightarrow> 'f \<Rightarrow> 'f \<times> int"

text \<open>Blocks of contiguous memory: \<^verbatim>\<open>n\<close> elements from an address on, and elements stored at an address.\<close>

definition read_block :: "'a list \<Rightarrow> int \<Rightarrow> int \<Rightarrow> 'a list result" where
  "read_block xs i n =
     (if 0 \<le> i \<and> 0 \<le> n \<and> i + n \<le> int (length xs) then Inr (take (nat n) (drop (nat i) xs)) else Inl Undefined)"

definition write_block :: "'a list \<Rightarrow> int \<Rightarrow> 'a list \<Rightarrow> 'a list result" where
  "write_block xs i vs =
     (if 0 \<le> i \<and> i + int (length vs) \<le> int (length xs)
      then Inr (take (nat i) xs @ vs @ drop (nat i + length vs) xs) else Inl Undefined)"

section \<open>Shape and type\<close>

definition read_bitpix :: "('f, 'a) pixel_api \<Rightarrow> 'f \<Rightarrow> int result" where
  "read_bitpix px f =
     (case px_get_img_type px f of (b, st) \<Rightarrow> rbind (cfitsio_may_throw st ''Cannot read image type'') (\<lambda>_. Inr b))"

definition update_shape :: "('f, 'a) pixel_api \<Rightarrow> position \<Rightarrow> ('f, unit) io" where
  "update_shape px shape = (\<lambda>f. case px_get_img_type px f of (imgtype, st) \<Rightarrow>
     checked (after_status st (px_resize_img px imgtype shape)) ''Cannot reshape raster.'' f)"

definition update_type_shape :: "('f, 'a) pixel_api \<Rightarrow> value_type \<Rightarrow> position \<Rightarrow> ('f, unit) io" where
  "update_type_shape px t shape =
     (case bitpix t of
        None \<Rightarrow> io_throw Undefined
      | Some b \<Rightarrow> checked (px_resize_img px b shape) ''Cannot reshape raster.'')"

section \<open>Reading\<close>

definition read_raster_to :: "('f, 'a) pixel_api \<Rightarrow> value_type \<Rightarrow> 'a raster \<Rightarrow> 'f \<Rightarrow> 'a raster result" where
  "read_raster_to px t destination f =
     (case px_read_img px t 1 (int (length (m_data destination))) f of (vs, st) \<Rightarrow>
        rbind (cfitsio_may_throw st ''Cannot read raster.'') (\<lambda>_.
        rbind (write_block (m_data destination) 0 vs) (\<lambda>d. Inr (destination\<lparr>m_data := d\<rparr>))))"

definition read_raster :: "'f cfitsio \<Rightarrow> ('f, 'a) pixel_api \<Rightarrow> 'a \<Rightarrow> value_type \<Rightarrow> 'f \<Rightarrow> 'a raster result" where
  "read_raster api px zero t f =
     rbind (read_shape_dynamic api f) (\<lambda>shape.
     rbind (raster_zero zero (- 1) shape) (\<lambda>ra. read_raster_to px t ra f))"

definition ones :: "int \<Rightarrow> position" where
  "ones n = replicate (nat n) 1"

definition read_region_to :: "('f, 'a) pixel_api \<Rightarrow> value_type \<Rightarrow> region \<Rightarrow> 'a list \<Rightarrow> int \<Rightarrow> 'f \<Rightarrow> 'a list result" where
  "read_region_to px t r memory address f =
     (case px_read_subset px t (op_plus_scalar (rg_front r) 1) (op_plus_scalar (rg_back r) 1) (ones (rg_dimension r)) f of
        (vs, st) \<Rightarrow> rbind (cfitsio_may_throw st ''Cannot read image region.'') (\<lambda>_. write_block memory address vs))"

definition read_region :: "('f, 'a) pixel_api \<Rightarrow> 'a \<Rightarrow> value_type \<Rightarrow> nat \<Rightarrow> region \<Rightarrow> 'f \<Rightarrow> 'a raster result" where
  "read_region px zero t M r f =
     rbind (pos_slice M (rg_shape r)) (\<lambda>shape.
     rbind (raster_zero zero (int M) shape) (\<lambda>ra.
     rbind (read_region_to px t r (m_data ra) 0 f) (\<lambda>d. Inr (ra\<lparr>m_data := d\<rparr>))))"

text \<open>
  The loop over the lines of a subraster.  The screener runs over the first pixels of the lines in
  the file; its two followers are the last pixel of the line in the file and the first one in memory.
\<close>

fun read_lines :: "('f, 'a) pixel_api \<Rightarrow> value_type \<Rightarrow> nat \<Rightarrow> screener \<Rightarrow> position \<Rightarrow> position \<Rightarrow> position \<Rightarrow>
    'a raster \<Rightarrow> 'f \<Rightarrow> 'a raster result" where
  "read_lines px t 0 scr src_front src_back dst_front parent f = Inr parent"
| "read_lines px t (Suc n) scr src_front src_back dst_front parent f =
     rbind (raster_index parent dst_front) (\<lambda>address.
     case px_read_subset px t src_front src_back (ones (rg_dimension (m_region scr))) f of (vs, st) \<Rightarrow>
     rbind (cfitsio_may_throw st ''Cannot read image region.'') (\<lambda>_.
     rbind (write_block (m_data parent) address vs) (\<lambda>d.
     rbind (screener_next scr) (\<lambda>scr'.
     rbind (rd (m_followers scr') 0) (\<lambda>src_back'.
     rbind (rd (m_followers scr') 1) (\<lambda>dst_front'.
     read_lines px t n scr' (m_current scr') src_back' dst_front' (parent\<lparr>m_data := d\<rparr>) f))))))"

definition read_region_to_subraster ::
  "('f, 'a) pixel_api \<Rightarrow> value_type \<Rightarrow> region \<Rightarrow> 'a subraster \<Rightarrow> 'f \<Rightarrow> 'a raster result" where
  "read_region_to_subraster px t r destination f =
     (let src0 = rg_add_scalar r 1 in
      rbind (rd (rg_front src0) 0) (\<lambda>x.
      rbind (wr (rg_back src0) 0 x) (\<lambda>b.
      let src_region = src0\<lparr>rg_back := b\<rparr>; src_count = rg_size src_region; src_front = rg_front src_region in
      rbind (rd (rg_shape r) 0) (\<lambda>w.
      rbind (wr src_front 0 (x + (w - 1))) (\<lambda>src_back.
      let dst_front = rg_front (sr_region destination) in
      read_lines px t (nat src_count) (screener_init src_region [src_back, dst_front]) src_front src_back dst_front
        (sr_parent destination) f)))))"

section \<open>Writing\<close>

definition write_raster :: "'f cfitsio \<Rightarrow> ('f, 'a) pixel_api \<Rightarrow> value_type \<Rightarrow> 'a raster \<Rightarrow> ('f, unit) io" where
  "write_raster api px t ra =
     io_then (may_throw_readonly api) (checked (px_write_img px t 1 (m_data ra)) ''Cannot write image.'')"

text \<open>\<^verbatim>\<open>write_region\<close> for a raster or a slice, given by its shape and its elements.\<close>

definition write_region :: "('f, 'a) pixel_api \<Rightarrow> value_type \<Rightarrow> position \<Rightarrow> 'a list \<Rightarrow> position \<Rightarrow> ('f, unit) io" where
  "write_region px t shape data destination =
     io_bind (io_lift (pos_extend shape destination)) (\<lambda>ext.
       checked (px_write_subset px t (op_plus_scalar destination 1) (op_plus destination ext) data)
         ''Cannot write image region.'')"

text \<open>A range-based loop over a region, with fuel for every position and the final test.\<close>

definition foreach_position :: "region \<Rightarrow> (position \<Rightarrow> ('f, unit) io) \<Rightarrow> ('f, unit) io" where
  "foreach_position r body =
     (case screen_region (Suc (nat (rg_size r))) r of
        Some (Inr ps) \<Rightarrow> io_foreach body ps
      | Some (Inl e) \<Rightarrow> io_throw e
      | None \<Rightarrow> io_throw Undefined)"

definition raster_line :: "'a raster \<Rightarrow> position \<Rightarrow> int \<Rightarrow> 'a list result" where
  "raster_line ra pos n = rbind (raster_index ra pos) (\<lambda>i. read_block (m_data ra) i n)"

definition subraster_line :: "'a subraster \<Rightarrow> position \<Rightarrow> int \<Rightarrow> 'a list result" where
  "subraster_line sub pos n = raster_line (sr_parent sub) (op_plus pos (rg_front (sr_region sub))) n"

definition write_region_subraster ::
  "('f, 'a) pixel_api \<Rightarrow> value_type \<Rightarrow> 'a subraster \<Rightarrow> position \<Rightarrow> ('f, unit) io" where
  "write_region_subraster px t sub destination =
     io_bind (io_lift (pos_extend (subraster_shape sub) destination)) (\<lambda>shape.
     let dst0 = \<lparr>rg_front = op_plus_scalar destination 1, rg_back = op_plus destination shape\<rparr> in
     io_bind (io_lift (rbind (rd (rg_front dst0) 0) (\<lambda>x. wr (rg_back dst0) 0 x))) (\<lambda>b.
     let dst_region = dst0\<lparr>rg_back := b\<rparr> in
     io_bind (io_lift (rd shape 0)) (\<lambda>dst_size.
     io_bind (io_lift (pos_extend (rg_front (sr_region sub)) (rg_front dst_region))) (\<lambda>front.
     let delta = op_minus front (rg_front dst_region) in
     foreach_position dst_region (\<lambda>dst_front.
       io_bind (io_lift (subraster_line sub (op_plus dst_front delta) dst_size)) (\<lambda>line.
         checked (px_write_pix px t dst_front line) ''Cannot write image region.''))))))"

section \<open>The handler of the data unit\<close>

definition raster_read_bitpix :: "'f cfitsio \<Rightarrow> ('f, 'a) pixel_api \<Rightarrow> ('f, int) hio" where
  "raster_read_bitpix api px = io_then (touch api) (on_file (io_read (read_bitpix px)))"

definition raster_update_shape :: "'f cfitsio \<Rightarrow> ('f, 'a) pixel_api \<Rightarrow> position \<Rightarrow> ('f, unit) hio" where
  "raster_update_shape api px shape = io_then (edit api) (on_file (update_shape px shape))"

definition raster_update_type_shape :: "'f cfitsio \<Rightarrow> ('f, 'a) pixel_api \<Rightarrow> value_type \<Rightarrow> position \<Rightarrow> ('f, unit) hio" where
  "raster_update_type_shape api px t shape = io_then (edit api) (on_file (update_type_shape px t shape))"

definition raster_read_to :: "'f cfitsio \<Rightarrow> ('f, 'a) pixel_api \<Rightarrow> value_type \<Rightarrow> 'a raster \<Rightarrow> ('f, 'a raster) hio" where
  "raster_read_to api px t ra = io_then (touch api) (on_file (io_read (read_raster_to px t ra)))"

definition raster_read :: "'f cfitsio \<Rightarrow> ('f, 'a) pixel_api \<Rightarrow> 'a \<Rightarrow> value_type \<Rightarrow> ('f, 'a raster) hio" where
  "raster_read api px zero t =
     io_bind (raster_read_shape api) (\<lambda>shape.
     io_bind (io_lift (raster_zero zero (- 1) shape)) (raster_read_to api px t))"

definition read_region_to_slice ::
  "'f cfitsio \<Rightarrow> ('f, 'a) pixel_api \<Rightarrow> value_type \<Rightarrow> position \<Rightarrow> position \<Rightarrow> 'a list \<Rightarrow> int \<Rightarrow> ('f, 'a list) hio" where
  "read_region_to_slice api px t front shape memory address =
     io_then (touch api) (on_file (io_read (read_region_to px t (rg_fromShape front shape) memory address)))"

definition handler_read_region_to_subraster ::
  "'f cfitsio \<Rightarrow> ('f, 'a) pixel_api \<Rightarrow> value_type \<Rightarrow> position \<Rightarrow> 'a subraster \<Rightarrow> ('f, 'a raster) hio" where
  "handler_read_region_to_subraster api px t front sub =
     io_then (touch api) (on_file (io_read (read_region_to_subraster px t (rg_fromShape front (subraster_shape sub)) sub)))"

definition raster_write :: "'f cfitsio \<Rightarrow> ('f, 'a) pixel_api \<Rightarrow> value_type \<Rightarrow> 'a raster \<Rightarrow> ('f, unit) hio" where
  "raster_write api px t ra = io_then (edit api) (on_file (write_raster api px t ra))"

definition write_slice :: "('f, 'a) pixel_api \<Rightarrow> value_type \<Rightarrow> position \<Rightarrow> position \<Rightarrow> 'a list \<Rightarrow> ('f, unit) hio" where
  "write_slice px t front shape data = on_file (write_region px t shape data front)"

text \<open>\<^verbatim>\<open>write_subraster\<close> ignores the status that \<^verbatim>\<open>fits_write_pix\<close> returns, but passes it on to the next call.\<close>

definition write_pix_status :: "('f, 'a) pixel_api \<Rightarrow> value_type \<Rightarrow> position \<Rightarrow> 'a list \<Rightarrow> ('f \<times> int, unit) io" where
  "write_pix_status px t target line = (\<lambda>(f, st). (after_status st (px_write_pix px t target line) f, Inr ()))"

definition write_subraster ::
  "'f cfitsio \<Rightarrow> ('f, 'a) pixel_api \<Rightarrow> value_type \<Rightarrow> position \<Rightarrow> 'a subraster \<Rightarrow> ('f, unit) hio" where
  "write_subraster api px t front sub =
     io_then (edit api) (on_file (\<lambda>f.
       case io_bind (io_lift (let locus0 = rg_fromShape (zeros (length (subraster_shape sub))) (subraster_shape sub) in
                       rbind (rd (rg_front locus0) 0) (\<lambda>x. rbind (wr (rg_back locus0) 0 x) (\<lambda>b. Inr (locus0\<lparr>rg_back := b\<rparr>))))) (\<lambda>locus.
            io_bind (io_lift (rd (subraster_shape sub) 0)) (\<lambda>nelem.
            io_bind (io_lift (pos_slice (length (subraster_shape sub)) front)) (\<lambda>delta.
            foreach_position locus (\<lambda>source.
              io_bind (io_lift (pos_extend (op_plus source delta) front)) (\<lambda>target.
              io_bind (io_lift (subraster_line sub source nelem)) (\<lambda>line.
                write_pix_status px t (op_plus_scalar target 1) line)))))) (f, 0) of
         ((f', st), r) \<Rightarrow> (f', r)))"

definition raster_write_region ::
  "'f cfitsio \<Rightarrow> ('f, 'a) pixel_api \<Rightarrow> value_type \<Rightarrow> file_mem_regions \<Rightarrow> 'a raster \<Rightarrow> ('f, unit) hio" where
  "raster_write_region api px t regions ra =
     io_bind (raster_read_shape api) (\<lambda>shape.
     io_bind (io_lift (fmr_resolve (op_minus_scalar shape 1) (op_minus_scalar (m_shape ra) 1) regions)) (\<lambda>rs.
     io_bind (io_lift (isContiguous 2 ra (fmr_memory rs))) (\<lambda>c.
     if c
     then io_bind (io_lift (raster_slice 2 ra (fmr_memory rs))) (\<lambda>view.
          io_bind (io_lift (ptr_elements (m_data ra) view)) (\<lambda>vs.
          write_slice px t (rg_front (fmr_file rs)) (pr_shape view) vs))
     else write_subraster api px t (rg_front (fmr_file rs)) (raster_subraster ra (fmr_memory rs)))))"

section \<open>Line-by-line reading\<close>

definition read_line ::
  "('f, 'a) pixel_api \<Rightarrow> value_type \<Rightarrow> int \<Rightarrow> position \<Rightarrow> position \<Rightarrow> position \<Rightarrow> 'f \<Rightarrow> 'a raster \<Rightarrow> 'a raster result" where
  "read_line px t ndim src_front src_back dst_front f parent =
     rbind (raster_index parent dst_front) (\<lambda>address.
     case px_read_subset px t src_front src_back (ones ndim) f of (vs, st) \<Rightarrow>
     rbind (cfitsio_may_throw st ''Cannot read image region.'') (\<lambda>_.
     rbind (write_block (m_data parent) address vs) (\<lambda>m. Inr (parent\<lparr>m_data := m\<rparr>))))"

definition line_step ::
  "('f, 'a) pixel_api \<Rightarrow> value_type \<Rightarrow> position \<Rightarrow> position \<Rightarrow> position \<Rightarrow> 'f \<Rightarrow> int list \<Rightarrow> 'a raster \<Rightarrow> 'a raster result" where
  "line_step px t src_front src_back dst_front f d parent =
     read_line px t (int (length src_front)) (op_plus src_front d) (op_plus src_back d) (op_plus dst_front d) f parent"

lemma read_lines_Suc:
  "read_lines px t (Suc n) scr sf sb df parent f =
     rbind (read_line px t (rg_dimension (m_region scr)) sf sb df f parent) (\<lambda>parent'.
     rbind (screener_next scr) (\<lambda>scr'.
     rbind (rd (m_followers scr') 0) (\<lambda>sb'.
     rbind (rd (m_followers scr') 1) (\<lambda>df'.
     read_lines px t n scr' (m_current scr') sb' df' parent' f))))"
proof -
  obtain vs st where "px_read_subset px t sf sb (ones (rg_dimension (m_region scr))) f = (vs, st)"
    by fastforce
  then show ?thesis
    by (simp add: read_line_def rbind_assoc)
qed

text \<open>The loop visits the lines in the order of the displacements of their first pixels.\<close>

lemma read_lines_fold:
  assumes r: "rg_proper R" and fit: "followers_fit R [sb, df]" and k: "k < length (displacements R)"
  shows "read_lines px t (length (displacements R) - k) (screener_at R [sb, df] (displacements R ! k))
           (op_plus (rg_front R) (displacements R ! k)) (op_plus sb (displacements R ! k)) (op_plus df (displacements R ! k)) parent f
       = rfold (line_step px t (rg_front R) sb df f) (drop k (displacements R)) parent"
  using k
proof (induction "length (displacements R) - k" arbitrary: k parent)
  case (Suc n)
  let ?D = "displacements R"
  have cons: "drop k ?D = ?D ! k # drop (Suc k) ?D"
    using Suc.prems by (simp add: Cons_nth_drop_Suc)
  have dim: "rg_dimension (m_region (screener_at R [sb, df] (?D ! k))) = int (length (rg_front R))"
    by (simp add: screener_at_def rg_dimension_def)
  show ?case
  proof (cases "Suc k < length ?D")
    case True
    have nxt: "screener_next (screener_at R [sb, df] (?D ! k)) = Inr (screener_at R [sb, df] (?D ! Suc k))"
      using screener_walk.one_step [OF r fit True] .
    have cur: "m_current (screener_at R [sb, df] (?D ! Suc k)) = op_plus (rg_front R) (?D ! Suc k)"
      "m_followers (screener_at R [sb, df] (?D ! Suc k)) = [op_plus sb (?D ! Suc k), op_plus df (?D ! Suc k)]"
      by (simp_all add: screener_at_def)
    have n: "n = length ?D - Suc k"
      using Suc.hyps(2) by simp
    show ?thesis
      unfolding Suc.hyps(2) [symmetric] cons read_lines_Suc rfold.simps nxt dim
      using Suc.hyps(1) [OF n True] n by (simp add: line_step_def cur rd_def)
  next
    case False
    then have kk: "?D ! k = extent R" and n: "n = 0"
      using Suc.prems Suc.hyps(2) displacements_ends(3) [OF r] by (metis Suc_lessI diff_Suc_1, simp)
    have nxt: "screener_next (screener_at R [sb, df] (?D ! k)) = Inr (screener_init R [sb, df])"
      using screener_next_wraps [OF r fit] kk by simp
    have final: "drop (Suc k) ?D = []"
      using False by simp
    show ?thesis
      unfolding Suc.hyps(2) [symmetric] n cons read_lines_Suc rfold.simps nxt dim final
      by (simp add: line_step_def screener_init_def rd_def)
  qed
qed simp

lemma in_box_self: "in_box ys ys zs \<longleftrightarrow> zs = ys"
  by (auto simp: in_box_nth intro!: nth_equalityI)

lemma write_block_nth:
  assumes "write_block xs i vs = Inr ys"
  shows "length ys = length xs"
    and "k < length xs \<Longrightarrow> ys ! k = (if nat i \<le> k \<and> k < nat i + length vs then vs ! (k - nat i) else xs ! k)"
  using assms by (auto simp: write_block_def nth_append split: if_splits)

lemma positions_line: "positions (x # xs) ((x + w - 1) # xs) = map (\<lambda>j. (x + j) # xs) [0..w - 1]"
proof -
  have "[x..x + w - 1] = map ((+) x) [0..w - 1]"
    using upto_shift [of x 0 "w - 1"] by (simp add: algebra_simps)
  then show ?thesis
    by (simp add: positions_singleton)
qed

lemma line_window:
  assumes pos: "\<forall>s \<in> set shape. 0 < s" and w: "0 < w"
    and lo: "in_box (zeros (length shape)) (op_minus_scalar shape 1) (y # ys)"
    and hi: "in_box (zeros (length shape)) (op_minus_scalar shape 1) ((y + w - 1) # ys)"
    and q: "in_box (zeros (length shape)) (op_minus_scalar shape 1) q"
  shows "lin_index shape (y # ys) \<le> lin_index shape q \<and> lin_index shape q < lin_index shape (y # ys) + w \<longleftrightarrow>
         in_box (y # ys) ((y + w - 1) # ys) q"
    and "in_box (y # ys) ((y + w - 1) # ys) q \<Longrightarrow> lin_index shape q = lin_index shape (y # ys) + (hd q - y)"
proof -
  obtain s ss where shape: "shape = s # ss"
    using in_box_length [OF lo] by (cases shape) auto
  have row: "lin_index shape ((y + j) # ys) = lin_index shape (y # ys) + j" for j
    by (simp add: shape)
  have inside: "in_box (zeros (length shape)) (op_minus_scalar shape 1) ((y + j) # ys)" if "0 \<le> j" "j < w" for j
    using lo hi that by (simp add: shape)
  show "lin_index shape q = lin_index shape (y # ys) + (hd q - y)" if "in_box (y # ys) ((y + w - 1) # ys) q"
    using that row [of "hd q - y"] by (auto simp: in_box_Cons in_box_self)
  show "lin_index shape (y # ys) \<le> lin_index shape q \<and> lin_index shape q < lin_index shape (y # ys) + w \<longleftrightarrow>
         in_box (y # ys) ((y + w - 1) # ys) q"
  proof
    assume b: "lin_index shape (y # ys) \<le> lin_index shape q \<and> lin_index shape q < lin_index shape (y # ys) + w"
    define j where "j = lin_index shape q - lin_index shape (y # ys)"
    then have j: "0 \<le> j" "j < w"
      using b by simp_all
    then have qj: "q = (y + j) # ys"
      using lin_index_inject [OF pos q inside [of j]] row [of j] j_def by simp
    show "in_box (y # ys) ((y + w - 1) # ys) q"
      unfolding qj using j by (simp add: in_box_self)
  next
    assume "in_box (y # ys) ((y + w - 1) # ys) q"
    then obtain z where "q = z # ys" "y \<le> z" "z \<le> y + w - 1"
      by (auto simp: in_box_Cons in_box_self)
    then show "lin_index shape (y # ys) \<le> lin_index shape q \<and> lin_index shape q < lin_index shape (y # ys) + w"
      using row [of "z - y"] by simp
  qed
qed

lemma read_line_effect:
  assumes wf: "raster_wf ra" and w: "0 < w"
    and lo: "in_box (zeros (length (m_shape ra))) (op_minus_scalar (m_shape ra) 1) (y # ys)"
    and hi: "in_box (zeros (length (m_shape ra))) (op_minus_scalar (m_shape ra) 1) ((y + w - 1) # ys)"
    and rd: "px_read_subset px t (x # xs) ((x + w - 1) # xs) (ones n) f = (map pix (positions (x # xs) ((x + w - 1) # xs)), 0)"
  shows "\<exists>ra'. read_line px t n (x # xs) ((x + w - 1) # xs) (y # ys) f ra = Inr ra' \<and>
           raster_wf ra' \<and> m_shape ra' = m_shape ra \<and>
           (\<forall>q. in_box (zeros (length (m_shape ra))) (op_minus_scalar (m_shape ra) 1) q \<longrightarrow>
              raster_subscript ra' q =
                (if in_box (y # ys) ((y + w - 1) # ys) q then Inr (pix ((hd q - y + x) # xs)) else raster_subscript ra q))"
proof -
  let ?a = "lin_index (m_shape ra) (y # ys)"
  let ?vs = "map pix (positions (x # xs) ((x + w - 1) # xs))"
  have pos: "\<forall>s \<in> set (m_shape ra). 0 < s"
    using wf by (simp add: raster_wf_def)
  have len: "length ?vs = nat w"
    by (simp only: positions_line length_map) simp
  have vs: "?vs ! k = pix ((x + int k) # xs)" if "k < nat w" for k
    using that by (simp only: positions_line map_map) simp
  have "?a + (w - 1) = lin_index (m_shape ra) ((y + w - 1) # ys)"
    using in_box_length [OF lo] by (cases "m_shape ra") auto
  then have fit: "0 \<le> ?a" "?a + w \<le> int (length (m_data ra))"
    using lin_index_bounds [OF pos lo] lin_index_bounds [OF pos hi] raster_wf_size [OF wf] by auto
  then obtain m where m: "write_block (m_data ra) ?a ?vs = Inr m"
    using w len by (simp add: write_block_def)
  define ra' where "ra' = ra\<lparr>m_data := m\<rparr>"
  have run: "read_line px t n (x # xs) ((x + w - 1) # xs) (y # ys) f ra = Inr ra'"
    using raster_index_lin [OF wf, of "y # ys"] in_box_length [OF lo] rd m
    by (simp add: read_line_def ra'_def del: positions.simps)
  have wf': "raster_wf ra'"
    using wf write_block_nth(1) [OF m] by (simp add: raster_wf_def ra'_def)
  have "raster_subscript ra' q =
      (if in_box (y # ys) ((y + w - 1) # ys) q then Inr (pix ((hd q - y + x) # xs)) else raster_subscript ra q)"
    if q: "in_box (zeros (length (m_shape ra))) (op_minus_scalar (m_shape ra) 1) q" for q
  proof -
    let ?k = "lin_index (m_shape ra) q"
    have k: "0 \<le> ?k" "?k < int (length (m_data ra))"
      using lin_index_bounds [OF pos q] raster_wf_size [OF wf] by auto
    have sub: "raster_subscript ra q = Inr (m_data ra ! nat ?k)" "raster_subscript ra' q = Inr (m ! nat ?k)"
      using raster_subscript_in [OF wf q] raster_subscript_in [OF wf', of q] q by (simp_all add: ra'_def)
    have win: "nat ?a \<le> nat ?k \<and> nat ?k < nat ?a + length ?vs \<longleftrightarrow> in_box (y # ys) ((y + w - 1) # ys) q"
      unfolding line_window(1) [OF pos w lo hi q, symmetric] using k(1) fit(1) w len by auto
    have "nat ?k < length (m_data ra)"
      using k by simp
    from write_block_nth(2) [OF m this]
    have mk: "m ! nat ?k = (if in_box (y # ys) ((y + w - 1) # ys) q then ?vs ! (nat ?k - nat ?a) else m_data ra ! nat ?k)"
      unfolding win .
    show ?thesis
    proof (cases "in_box (y # ys) ((y + w - 1) # ys) q")
      case True
      have kk: "nat ?k - nat ?a = nat (hd q - y)" "nat (hd q - y) < nat w" "0 \<le> hd q - y"
        using line_window(2) [OF pos w lo hi q True] fit(1) True w by (auto simp: in_box_Cons)
      have "?vs ! (nat ?k - nat ?a) = pix ((hd q - y + x) # xs)"
        unfolding kk(1) vs [OF kk(2)] using kk(3) by (simp add: add.commute)
      then show ?thesis
        unfolding sub mk using True by (simp only: if_True)
    next
      case False
      then show ?thesis
        unfolding sub mk by (simp only: if_False)
    qed
  qed
  with run wf' show ?thesis
    by (auto simp: ra'_def)
qed


abbreviation raster_box :: "position \<Rightarrow> position \<Rightarrow> bool" where
  "raster_box shape q \<equiv> in_box (zeros (length shape)) (op_minus_scalar shape 1) q"

lemma read_fold_effect:
  assumes "raster_wf ra" and w: "0 < w" and len: "length xs = length ys"
    and lines: "\<And>ds. ds \<in> set L \<Longrightarrow> length ds = length xs \<and>
        raster_box (m_shape ra) (y # op_plus ys ds) \<and> raster_box (m_shape ra) ((y + w - 1) # op_plus ys ds) \<and>
        px_read_subset px t (x # op_plus xs ds) ((x + w - 1) # op_plus xs ds) (ones (int (Suc (length xs)))) f
          = (map pix (positions (x # op_plus xs ds) ((x + w - 1) # op_plus xs ds)), 0)"
  shows "\<exists>ra'. rfold (line_step px t (x # xs) ((x + w - 1) # xs) (y # ys) f) (map ((#) 0) L) ra = Inr ra' \<and>
           raster_wf ra' \<and> m_shape ra' = m_shape ra \<and>
           (\<forall>q. raster_box (m_shape ra) q \<longrightarrow> raster_subscript ra' q =
              (if \<exists>ds \<in> set L. in_box (y # op_plus ys ds) ((y + w - 1) # op_plus ys ds) q
               then Inr (pix (op_plus (op_minus q (y # ys)) (x # xs))) else raster_subscript ra q))"
  using assms(1) lines
proof (induction L arbitrary: ra)
  case Nil
  then show ?case by simp
next
  case (Cons ds L)
  let ?hit = "\<lambda>ds q. in_box (y # op_plus ys ds) ((y + w - 1) # op_plus ys ds) q"
  have ds: "length ds = length xs" "raster_box (m_shape ra) (y # op_plus ys ds)" "raster_box (m_shape ra) ((y + w - 1) # op_plus ys ds)"
    and rd: "px_read_subset px t (x # op_plus xs ds) ((x + w - 1) # op_plus xs ds) (ones (int (Suc (length xs)))) f
          = (map pix (positions (x # op_plus xs ds) ((x + w - 1) # op_plus xs ds)), 0)"
    using Cons.prems(2) [of ds] by simp_all
  obtain r1 where r1: "line_step px t (x # xs) ((x + w - 1) # xs) (y # ys) f (0 # ds) ra = Inr r1" "raster_wf r1" "m_shape r1 = m_shape ra"
    and v1: "\<And>q. raster_box (m_shape ra) q \<Longrightarrow> raster_subscript r1 q =
      (if ?hit ds q then Inr (pix ((hd q - y + x) # op_plus xs ds)) else raster_subscript ra q)"
    using read_line_effect [OF Cons.prems(1) w ds(2,3) rd] by (auto simp: line_step_def)
  obtain r2 where r2: "rfold (line_step px t (x # xs) ((x + w - 1) # xs) (y # ys) f) (map ((#) 0) L) r1 = Inr r2"
      "raster_wf r2" "m_shape r2 = m_shape r1"
    and v2: "\<And>q. raster_box (m_shape r1) q \<Longrightarrow> raster_subscript r2 q =
      (if \<exists>ds \<in> set L. ?hit ds q then Inr (pix (op_plus (op_minus q (y # ys)) (x # xs))) else raster_subscript r1 q)"
    using Cons.IH [OF r1(2)] Cons.prems(2) r1(3) by auto
  have same: "(hd q - y + x) # op_plus xs ds = op_plus (op_minus q (y # ys)) (x # xs)" if hit: "?hit ds q" for q
  proof -
    obtain z where q: "q = z # op_plus ys ds"
      using hit by (auto simp: in_box_Cons in_box_self)
    have "op_minus (op_plus ys ds) ys = ds"
      using op_plus_minus_cancel(1) [of ds ys] ds(1) len by (simp add: op_plus_commute)
    then show ?thesis
      by (simp add: q op_plus_commute)
  qed
  have "raster_subscript r2 q =
      (if \<exists>ds \<in> set (ds # L). ?hit ds q then Inr (pix (op_plus (op_minus q (y # ys)) (x # xs))) else raster_subscript ra q)"
    if "raster_box (m_shape ra) q" for q
    using v1 [OF that] v2 [of q] same [of q] that r1(3) by auto
  then show ?case
    using r1 r2 by (intro exI [of _ r2]) (simp add: r1(1))
qed

definition reads_region :: "('f, 'a) pixel_api \<Rightarrow> value_type \<Rightarrow> (position \<Rightarrow> 'a) \<Rightarrow> region \<Rightarrow> 'f \<Rightarrow> bool" where
  "reads_region px t pix r f \<longleftrightarrow>
     (\<forall>a b. in_region r a \<and> in_region r b \<and> list_all2 (\<le>) a b \<longrightarrow>
        px_read_subset px t a b (ones (rg_dimension r)) f = (map pix (positions a b), 0))"

lemma displacements_lines:
  "displacements \<lparr>rg_front = x # xs, rg_back = x # bs\<rparr> = map ((#) 0) (positions (zeros (length (op_minus bs xs))) (op_minus bs xs))"
  by (simp add: displacements_def extent_def concat_map_singleton flip: map_concat)


lemma read_region_lines_run:
  assumes R: "rg_front r = x # xs" "rg_back r = b # bs" and S: "rg_front s = y # ys" and w: "w = b - x + 1"
    and Q: "Q = \<lparr>rg_front = (x + 1) # op_plus_scalar xs 1, rg_back = (x + 1) # op_plus_scalar bs 1\<rparr>"
    and pR: "rg_proper Q" and fit: "followers_fit Q [(x + w) # op_plus_scalar xs 1, y # ys]"
  shows "read_region_to_subraster px t r (raster_subraster ra s) f =
      rfold (line_step px t ((x + 1) # op_plus_scalar xs 1) ((x + 1 + w - 1) # op_plus_scalar xs 1) (y # ys) f) (displacements Q) ra"
proof -
  have r: "r = \<lparr>rg_front = x # xs, rg_back = b # bs\<rparr>"
    using R by (cases r) simp
  let ?sb = "(x + w) # op_plus_scalar xs 1" and ?Z = "zeros (length (extent Q))"
  have n: "nat (rg_size Q) = length (displacements Q)"
    using rg_size_positions [OF pR] positions_displacements [OF pR] by simp
  have ini: "screener_init Q [?sb, y # ys] = screener_at Q [?sb, y # ys] (displacements Q ! 0)" "0 < length (displacements Q)"
    using screener_init_at [OF pR fit] displacements_ends [OF pR] by simp_all
  have at0: "op_plus (rg_front Q) (displacements Q ! 0) = rg_front Q" "op_plus ?sb (displacements Q ! 0) = ?sb"
    "op_plus (y # ys) (displacements Q ! 0) = y # ys"
    using arg_cong [OF ini(1), of m_current] arg_cong [OF ini(1), of m_followers]
    by (simp_all add: screener_init_def screener_at_def)
  have "read_region_to_subraster px t r (raster_subraster ra s) f =
      read_lines px t (nat (rg_size Q)) (screener_init Q [?sb, y # ys]) (rg_front Q) ?sb (y # ys) ra f"
    by (simp add: Q read_region_to_subraster_def rg_add_scalar_def rg_plus_scalar_def r S w raster_subraster_def rd_def wr_def
        rg_shape_def Let_def add.commute add.left_commute)
  also have "\<dots> = rfold (line_step px t (rg_front Q) ?sb (y # ys) f) (displacements Q) ra"
    using read_lines_fold [OF pR fit ini(2), of px t ra f] at0 n ini(1) by simp
  finally show ?thesis
    by (simp add: Q algebra_simps)
qed

lemma region_inside_box: "region_inside ra s \<Longrightarrow> in_region s q \<Longrightarrow> raster_box (m_shape ra) q"
  by (fastforce simp: region_inside_def in_region_def in_box_nth)

lemma lines_cover:
  fixes bs :: "int list"
  assumes "length bs = length xs" and "length cs = length ys" and "length ys = length xs"
    and "op_minus bs xs = op_minus cs ys"
  shows "(\<exists>ds \<in> set (positions (zeros (length (op_minus bs xs))) (op_minus bs xs)).
            in_box (y # op_plus ys ds) ((y + w - 1) # op_plus ys ds) q) \<longleftrightarrow> in_box (y # ys) ((y + w - 1) # cs) q"
    (is "?lhs \<longleftrightarrow> ?rhs")
proof
  assume ?lhs
  then obtain ds z where ds: "in_box (zeros (length xs)) (op_minus cs ys) ds" and q: "q = z # op_plus ys ds" "y \<le> z" "z \<le> y + w - 1"
    using assms by (auto simp: set_positions in_box_Cons in_box_self)
  have "in_box ys cs (op_plus ys ds)"
    using ds assms by (fastforce simp: in_box_nth)
  then show ?rhs
    using q by simp
next
  assume ?rhs
  then obtain z zs where q: "q = z # zs" "y \<le> z" "z \<le> y + w - 1" "in_box ys cs zs"
    by (auto simp: in_box_Cons)
  have l: "length zs = length ys"
    using in_box_length [OF q(4)] by simp
  have "in_box (zeros (length xs)) (op_minus cs ys) (op_minus zs ys)"
    using q(4) assms l by (fastforce simp: in_box_nth)
  moreover have "op_plus ys (op_minus zs ys) = zs"
    using op_plus_minus_cancel(2) [of zs ys] l by (simp add: op_plus_commute)
  ultimately show ?lhs
    using q assms by (intro bexI [of _ "op_minus zs ys"]) (simp_all add: set_positions in_box_self)
qed

text \<open>
  C2: reading a region of the file into a subraster line by line fills exactly the region of the
  subraster, each position with the pixel at the same place of the file region, and leaves the rest of
  the parent raster as it was; no line is read from outside of the file region or stored outside of
  the raster.  CFITSIO is required to return the pixels of the boxes inside of the file region.
\<close>

theorem read_region_lines_correct:
  assumes wf: "raster_wf ra" and s: "region_inside ra s" and r: "rg_proper r" and shape: "rg_shape r = rg_shape s"
    and reads: "reads_region px t pix (rg_plus_scalar r 1) f"
  shows "\<exists>ra'. read_region_to_subraster px t r (raster_subraster ra s) f = Inr ra' \<and> raster_wf ra' \<and> m_shape ra' = m_shape ra \<and>
           (\<forall>q. raster_box (m_shape ra) q \<longrightarrow> raster_subscript ra' q =
              (if in_region s q
               then Inr (pix (op_plus (op_minus q (rg_front s)) (op_plus_scalar (rg_front r) 1)))
               else raster_subscript ra q))"
proof -
  obtain x xs b bs where R: "rg_front r = x # xs" "rg_back r = b # bs" "x \<le> b" "list_all2 (\<le>) xs bs"
    using r by (cases "rg_front r"; cases "rg_back r") (auto simp: rg_proper_def)
  obtain y ys c cs where S: "rg_front s = y # ys" "rg_back s = c # cs"
    using shape R by (cases "rg_front s"; cases "rg_back s") (auto simp: rg_shape_def)
  define w where "w = b - x + 1"
  have lens: "length bs = length xs"
    using R(4) by (simp add: list_all2_iff)
  have sh: "b - x + 1 = c - y + 1" "op_plus_scalar (op_minus bs xs) 1 = op_plus_scalar (op_minus cs ys) 1"
    using shape by (simp_all add: rg_shape_def R S)
  have cy: "c = y + w - 1"
    using sh(1) by (simp add: w_def)
  have tails: "op_minus bs xs = op_minus cs ys"
    using sh(2) op_plus_scalar_cancel(1) by metis
  have len: "length cs = length ys" "length (m_shape ra) = Suc (length ys)"
    using region_inside_length [OF s] by (simp_all add: S)
  have len': "length ys = length xs"
    using arg_cong [OF tails, of length] len(1) lens by simp
  let ?X = "op_plus_scalar xs 1"
  let ?R = "\<lparr>rg_front = (x + 1) # ?X, rg_back = (x + 1) # op_plus_scalar bs 1\<rparr>"
  let ?L = "positions (zeros (length (op_minus bs xs))) (op_minus bs xs)"
  have "list_all2 (\<le>) ?X (op_plus_scalar bs 1)"
    using R(4) by (simp add: list_all2_conv_all_nth)
  then have pR: "rg_proper ?R"
    by (simp add: rg_proper_def)
  have fit: "followers_fit ?R [(x + w) # ?X, y # ys]"
    using len' by (simp add: followers_fit_def)
  have "op_minus (op_plus_scalar bs 1) ?X = op_minus bs xs"
    by (rule nth_equalityI) simp_all
  then have D: "displacements ?R = map ((#) 0) ?L"
    using displacements_lines [of "x + 1" ?X "op_plus_scalar bs 1"] by simp
  have run: "read_region_to_subraster px t r (raster_subraster ra s) f =
      rfold (line_step px t ((x + 1) # ?X) ((x + 1 + w - 1) # ?X) (y # ys) f) (map ((#) 0) ?L) ra"
    using read_region_lines_run [OF R(1,2) S(1) w_def refl pR fit] D by simp
  have mem: "length ds = length xs \<and> in_box ys cs (op_plus ys ds) \<and>
      in_region (rg_plus_scalar r 1) ((x + 1) # op_plus ?X ds) \<and> in_region (rg_plus_scalar r 1) ((x + w) # op_plus ?X ds)"
    if "ds \<in> set ?L" for ds
  proof -
    have box: "in_box (zeros (length xs)) (op_minus bs xs) ds"
      using that lens by (simp add: set_positions)
    have l: "length ds = length xs"
      using in_box_length [OF box] by simp
    moreover have "in_box ys cs (op_plus ys ds)"
      using box l len len' tails by (fastforce simp: in_box_nth)
    moreover have "in_box ?X (op_plus_scalar bs 1) (op_plus ?X ds)"
      using box l lens by (fastforce simp: in_box_nth)
    ultimately show ?thesis
      using R(3) by (simp add: in_region_def rg_plus_scalar_def R w_def)
  qed
  have box: "raster_box (m_shape ra) (y # op_plus ys ds) \<and> raster_box (m_shape ra) ((y + w - 1) # op_plus ys ds)" if "ds \<in> set ?L" for ds
    using region_inside_box [OF s] mem [OF that] R(3) by (simp add: S cy w_def in_region_def)
  have read: "px_read_subset px t ((x + 1) # op_plus ?X ds) ((x + 1 + w - 1) # op_plus ?X ds) (ones (int (Suc (length ?X)))) f
      = (map pix (positions ((x + 1) # op_plus ?X ds) ((x + 1 + w - 1) # op_plus ?X ds)), 0)" if "ds \<in> set ?L" for ds
    using reads mem [OF that] R(3) unfolding reads_region_def
    by (simp add: rg_dimension_def rg_plus_scalar_def R w_def list_all2_refl algebra_simps del: positions.simps)
  have hit: "(\<exists>ds \<in> set ?L. in_box (y # op_plus ys ds) ((y + w - 1) # op_plus ys ds) q) \<longleftrightarrow> in_region s q" for q
    unfolding in_region_def S cy by (rule lines_cover [OF lens len(1) len' tails])
  have front: "op_plus_scalar (rg_front r) 1 = (x + 1) # ?X"
    by (simp add: R)
  show ?thesis
    unfolding run front S hit [symmetric]
  proof (rule read_fold_effect [OF wf])
    show "0 < w" "length ?X = length ys"
      using R(3) len' by (simp_all add: w_def)
  next
    fix ds assume ds: "ds \<in> set ?L"
    show "length ds = length ?X \<and> raster_box (m_shape ra) (y # op_plus ys ds) \<and> raster_box (m_shape ra) ((y + w - 1) # op_plus ys ds) \<and>
        px_read_subset px t ((x + 1) # op_plus ?X ds) ((x + 1 + w - 1) # op_plus ?X ds) (ones (int (Suc (length ?X)))) f
          = (map pix (positions ((x + 1) # op_plus ?X ds) ((x + 1 + w - 1) # op_plus ?X ds)), 0)"
      using box [OF ds] read [OF ds] mem [OF ds] unfolding op_lengths by blast
  qed
qed

text \<open>An image in memory, as an instance of the pixel functions: a function of the 1-based position.\<close>

definition mem_pixels :: "(position \<Rightarrow> 'a, 'a) pixel_api" where
  "mem_pixels =
     \<lparr>px_read_img = \<lambda>t i n f. (map (\<lambda>k. f [k]) [i..i + n - 1], 0),
      px_read_subset = \<lambda>t a b s f. (map f (positions a b), 0),
      px_write_img = \<lambda>t i vs f. (\<lambda>p. if 0 \<le> hd p - i \<and> hd p - i < int (length vs) then vs ! nat (hd p - i) else f p, 0),
      px_write_subset = \<lambda>t a b vs f. (\<lambda>p. case map_of (zip (positions a b) vs) p of Some v \<Rightarrow> v | None \<Rightarrow> f p, 0),
      px_write_pix = \<lambda>t a vs f. (\<lambda>p. case map_of (zip (positions a (a[0 := a ! 0 + int (length vs) - 1])) vs) p of Some v \<Rightarrow> v | None \<Rightarrow> f p, 0),
      px_get_img_type = \<lambda>f. (32, 0), px_resize_img = \<lambda>b s f. (f, 0)\<rparr>"

lemma mem_pixels_read: "reads_region mem_pixels t f r f"
  by (simp add: reads_region_def mem_pixels_def)

theorem read_region_lines_correct_witness:
  "\<exists>ra'. read_region_to_subraster mem_pixels TInt \<lparr>rg_front = [0, 0], rg_back = [1, 1]\<rparr>
      (raster_subraster \<lparr>Dim = 2, m_shape = [3, 3], m_data = replicate 9 0\<rparr> \<lparr>rg_front = [1, 1], rg_back = [2, 2]\<rparr>)
      (\<lambda>p. p ! 0 + 10 * p ! 1) = Inr ra' \<and> raster_subscript ra' [2, 1] = Inr 12 \<and> raster_subscript ra' [0, 0] = Inr 0"
proof -
  let ?ra = "\<lparr>Dim = 2, m_shape = [3, 3], m_data = replicate 9 (0::int)\<rparr>"
  have wf: "raster_wf ?ra"
    by (simp add: raster_wf_def shapeSize_def)
  have zero: "raster_subscript ?ra [0, 0] = Inr 0"
    using raster_subscript_in [OF wf, of "[0, 0]"] by simp
  let ?s = "\<lparr>rg_front = [1, 1], rg_back = [2, 2]\<rparr>" and ?r = "\<lparr>rg_front = [0, 0], rg_back = [1, 1]\<rparr>" and ?f = "\<lambda>p::position. p ! 0 + 10 * p ! 1"
  have "region_inside ?ra ?s" "rg_proper ?r" "rg_shape ?r = rg_shape ?s"
    by (simp_all add: region_inside_def rg_proper_def rg_shape_def)
  from read_region_lines_correct [OF wf this mem_pixels_read [of TInt ?f]]
  obtain ra' where run: "read_region_to_subraster mem_pixels TInt ?r (raster_subraster ?ra ?s) ?f = Inr ra'"
    and v: "\<And>q. raster_box [3, 3] q \<Longrightarrow> raster_subscript ra' q =
      (if in_region ?s q then Inr (?f (op_plus (op_minus q [1, 1]) [1, 1])) else raster_subscript ?ra q)"
    by auto
  have "raster_subscript ra' [2, 1] = Inr 12" "raster_subscript ra' [0, 0] = Inr 0"
    using v [of "[2, 1]"] v [of "[0, 0]"] zero by (simp_all add: in_region_def)
  then show ?thesis
    using run by blast
qed

section \<open>Writing regions\<close>

lemma foreach_proper:
  assumes "rg_proper r"
  shows "foreach_position r body = io_foreach body (positions (rg_front r) (rg_back r))"
  using screen_region_positions [OF assms, of "Suc (nat (rg_size r))"] by (simp add: foreach_position_def)

text \<open>
  The box that \<^verbatim>\<open>write_region\<close> hands to CFITSIO starts at the destination; its end is the end of
  the raster there when the raster has the dimension of the image.  For a raster of lower dimension,
  the shape is extended with the coordinates of the destination instead of ones: along a missing axis the box is one
  pixel thick only where the destination is 1.
\<close>

theorem write_region_box:
  assumes "length shape \<le> length destination"
  shows "\<exists>bk. write_region px t shape data destination f =
           checked (px_write_subset px t (op_plus_scalar destination 1) bk data) ''Cannot write image region.'' f \<and>
         take (length shape) bk = op_plus (take (length shape) destination) shape \<and>
         (length shape = length destination \<longrightarrow> bk = op_plus destination shape) \<and>
         (\<forall>i. length shape \<le> i \<and> i < length destination \<longrightarrow>
            bk ! i = 2 * destination ! i \<and> (bk ! i = op_plus_scalar destination 1 ! i \<longleftrightarrow> destination ! i = 1))"
proof (intro exI [of _ "op_plus destination (shape @ drop (length shape) destination)"] conjI allI impI)
  show "write_region px t shape data destination f = checked (px_write_subset px t (op_plus_scalar destination 1)
      (op_plus destination (shape @ drop (length shape) destination)) data) ''Cannot write image region.'' f"
    by (simp add: write_region_def pos_extend_correct [OF assms] io_bind_apply)
  show "take (length shape) (op_plus destination (shape @ drop (length shape) destination)) = op_plus (take (length shape) destination) shape"
    using assms by (intro nth_equalityI) (simp_all add: nth_append)
qed (use assms in \<open>auto simp: nth_append\<close>)

theorem write_region_box_witness:
  "\<exists>bk. write_region mem_pixels TInt [2, 2] [1, 2, 3, 4] [0, 0, 5] (\<lambda>p. 0) =
     checked (px_write_subset mem_pixels TInt [1, 1, 6] bk [1, 2, 3, 4::int]) ''Cannot write image region.'' (\<lambda>p. 0) \<and> bk ! 2 = 10"
proof -
  have "length [2, 2::int] \<le> length [0, 0, 5::int]"
    by simp
  from write_region_box [OF this, of mem_pixels TInt "[1, 2, 3, 4]" "\<lambda>p. 0"]
  obtain bk where "write_region mem_pixels TInt [2, 2] [1, 2, 3, 4] [0, 0, 5] (\<lambda>p. 0) =
     checked (px_write_subset mem_pixels TInt (op_plus_scalar [0, 0, 5] 1) bk [1, 2, 3, 4::int]) ''Cannot write image region.'' (\<lambda>p. 0)"
    and "\<forall>i. length [2, 2::int] \<le> i \<and> i < length [0, 0, 5::int] \<longrightarrow> bk ! i = 2 * [0, 0, 5] ! i"
    by blast
  then show ?thesis
    by (intro exI [of _ bk]) (simp add: eval_nat_numeral)
qed

lemma io_foreach_map: "io_foreach g (map h xs) = io_foreach (\<lambda>x. g (h x)) xs"
  by (induction xs) simp_all

lemma io_foreach_cong: "(\<And>x. x \<in> set xs \<Longrightarrow> g x = h x) \<Longrightarrow> io_foreach g xs = io_foreach h xs"
  by (induction xs) simp_all

lemma displacements_cong: "extent r = extent s \<Longrightarrow> displacements r = displacements s"
  by (simp add: displacements_def)

text \<open>
  C38: \<^verbatim>\<open>ImageIo::write_region\<close> on a subraster sends the lines of the region to the right places of the
  file, but reads each of them from the wrong place of the parent raster: it adds the front of the
  subraster to a position that already contains it, so that the line \<open>d\<close> is read at \<open>front + d + front\<close>.
\<close>

theorem write_region_subraster_offset:
  assumes "region_inside ra s" and "rg_proper s" and "length destination = length (rg_front s)"
  shows "write_region_subraster px t (raster_subraster ra s) destination =
     io_foreach (\<lambda>d.
       io_bind (io_lift (raster_line ra (op_plus (op_plus (rg_front s) d) (rg_front s)) (hd (rg_shape s)))) (\<lambda>line.
         checked (px_write_pix px t (op_plus (op_plus_scalar destination 1) d) line) ''Cannot write image region.''))
       (displacements (s\<lparr>rg_back := (rg_back s)[0 := rg_front s ! 0]\<rparr>))"
proof -
  obtain y ys c cs z zs where S: "rg_front s = y # ys" "rg_back s = c # cs" "destination = z # zs"
    using assms by (cases "rg_front s"; cases "rg_back s"; cases destination) (auto simp: rg_proper_def)
  have le: "list_all2 (\<le>) ys cs" "length cs = length ys" "length zs = length ys"
    using assms S by (auto simp: rg_proper_def list_all2_iff)
  define Q where "Q = \<lparr>rg_front = (z + 1) # op_plus_scalar zs 1, rg_back = (z + 1) # op_plus zs (op_plus_scalar (op_minus cs ys) 1)\<rparr>"
  have "list_all2 (\<le>) (op_plus_scalar zs 1) (op_plus zs (op_plus_scalar (op_minus cs ys) 1))"
    using le by (simp add: list_all2_conv_all_nth)
  then have pQ: "rg_proper Q"
    by (simp add: Q_def rg_proper_def)
  have ext: "extent Q = extent (s\<lparr>rg_back := (rg_back s)[0 := rg_front s ! 0]\<rparr>)"
    using le by (auto simp: Q_def extent_def S intro!: nth_equalityI)
  have shape: "rg_shape s = (c - y + 1) # op_plus_scalar (op_minus cs ys) 1"
    by (simp add: rg_shape_def S)
  have pos: "op_plus (op_plus (rg_front Q) d) (op_minus (y # ys) (rg_front Q)) = op_plus (y # ys) d" if "d \<in> set (displacements Q)" for d
  proof -
    have "length d = Suc (length ys)"
      using that le(3) pQ by (auto simp: displacements_def set_positions extent_length Q_def dest!: in_box_length)
    then show ?thesis
      using le(3) by (intro nth_equalityI) (auto simp: Q_def nth_Cons')
  qed
  have "write_region_subraster px t (raster_subraster ra s) destination =
      io_foreach (\<lambda>q. io_bind (io_lift (raster_line ra (op_plus (op_plus q (op_minus (y # ys) (rg_front Q))) (y # ys)) (c - y + 1))) (\<lambda>line.
        checked (px_write_pix px t q line) ''Cannot write image region.'')) (positions (rg_front Q) (rg_back Q))"
    using foreach_proper [OF pQ] le
    by (simp add: write_region_subraster_def raster_subraster_def subraster_shape_def shape S pos_extend_correct
        io_bind_apply rd_def wr_def subraster_line_def Q_def [symmetric] fun_eq_iff) (simp add: Q_def)
  also have "\<dots> = io_foreach (\<lambda>d. io_bind (io_lift (raster_line ra (op_plus (op_plus (y # ys) d) (y # ys)) (c - y + 1))) (\<lambda>line.
        checked (px_write_pix px t (op_plus (rg_front Q) d) line) ''Cannot write image region.'')) (displacements Q)"
    unfolding positions_displacements [OF pQ] io_foreach_map by (rule io_foreach_cong) (simp only: pos)
  finally show ?thesis
    using displacements_cong [OF ext] by (simp add: S shape Q_def)
qed

theorem write_region_subraster_offset_witness:
  "fst (write_region_subraster mem_pixels TInt
     (raster_subraster \<lparr>Dim = 2, m_shape = [3, 3], m_data = [0, 1, 2, 3, 4, 5, 6, 7, 8::int]\<rparr> \<lparr>rg_front = [1, 1], rg_back = [1, 1]\<rparr>) [0, 0] (\<lambda>p. 0))
     [1, 1] = 8"
proof -
  let ?ra = "\<lparr>Dim = 2, m_shape = [3, 3], m_data = [0, 1, 2, 3, 4, 5, 6, 7, 8::int]\<rparr>" and ?s = "\<lparr>rg_front = [1, 1], rg_back = [1, 1]\<rparr>"
  have "region_inside ?ra ?s" "rg_proper ?s" "length [0, 0::int] = length (rg_front ?s)"
    by (simp_all add: region_inside_def rg_proper_def)
  then have run: "write_region_subraster mem_pixels TInt (raster_subraster ?ra ?s) [0, 0] =
     io_foreach (\<lambda>d.
       io_bind (io_lift (raster_line ?ra (op_plus (op_plus (rg_front ?s) d) (rg_front ?s)) (hd (rg_shape ?s)))) (\<lambda>line.
         checked (px_write_pix mem_pixels TInt (op_plus (op_plus_scalar [0, 0] 1) d) line) ''Cannot write image region.''))
       (displacements (?s\<lparr>rg_back := (rg_back ?s)[0 := rg_front ?s ! 0]\<rparr>))"
    by (rule write_region_subraster_offset)
  have line: "raster_line ?ra [2, 2] 1 = Inr [8]"
    by (simp add: raster_line_def raster_index_def read_block_def eval_nat_numeral)
  show ?thesis
    unfolding run
    by (simp add: displacements_def extent_def rg_shape_def io_then_def io_bind_apply line checked_def mem_pixels_def)
qed

text \<open>
  The region of a one-dimensional raster that spans the whole raster passes the contiguity test
  that \<^verbatim>\<open>ImageRaster::write_region\<close> makes for planes, and the slice it then takes reads a second coordinate: undefined behaviour.
\<close>

theorem one_dimensional_write_undefined:
  assumes "0 < n" and "m_shape ra = [n]" and "Dim ra = 1"
    and "api_get_hdu_num api f = m_cfitsio_index h" and "status_reachable (m_status h)"
    and "api_get_img_size api f = (shape, 0)"
    and "fmr_resolve (op_minus_scalar shape 1) [n - 1] regions = Inr rs" and "fmr_memory rs = \<lparr>rg_front = [0], rg_back = [n - 1]\<rparr>"
  shows "snd (raster_write_region api px t regions ra (f, h)) = Inl Undefined"
proof -
  have c: "isContiguous 2 ra (fmr_memory rs) = Inr True"
    using assms(1,2,8) by (simp add: isContiguous_def spans_axis_def flat_axis_def raster_dimension_def rd_def)
  have sl: "raster_slice 2 ra (fmr_memory rs) = Inl Undefined"
    unfolding raster_slice_def c using assms(8) by (simp add: upto_rec1 rd_def)
  show ?thesis
    using assms c sl
    by (simp add: raster_write_region_def raster_read_shape_def io_bind_apply io_then_def edit_at on_file_def read_shape_dynamic_def)
qed

text \<open>A file whose image has one axis of three pixels, and no pixel functions that matter.\<close>

definition line_api :: "mem_header cfitsio" where
  "line_api = mem_api\<lparr>api_get_img_size := \<lambda>f. ([3], 0)\<rparr>"

definition empty_pixels :: "(mem_header, int) pixel_api" where
  "empty_pixels =
     \<lparr>px_read_img = \<lambda>t i n f. ([], 0), px_read_subset = \<lambda>t a b s f. ([], 0), px_write_img = \<lambda>t i vs f. (f, 0),
      px_write_subset = \<lambda>t a b vs f. (f, 0), px_write_pix = \<lambda>t a vs f. (f, 0), px_get_img_type = \<lambda>f. (32, 0), px_resize_img = \<lambda>b s f. (f, 0)\<rparr>"

theorem one_dimensional_write_undefined_witness:
  "snd (raster_write_region line_api empty_pixels TInt
      \<lparr>fmr_file = \<lparr>rg_front = [0], rg_back = [2]\<rparr>, fmr_memory = \<lparr>rg_front = [0], rg_back = [2]\<rparr>\<rparr>
      \<lparr>Dim = 1, m_shape = [3], m_data = [7, 8, 9]\<rparr> ([], hdu_init 0 Image Untouched)) = Inl Undefined"
proof (rule one_dimensional_write_undefined)
  show "fmr_resolve (op_minus_scalar [3] 1) [3 - 1] \<lparr>fmr_file = \<lparr>rg_front = [0], rg_back = [2]\<rparr>, fmr_memory = \<lparr>rg_front = [0], rg_back = [2]\<rparr>\<rparr>
      = Inr \<lparr>fmr_file = \<lparr>rg_front = [0], rg_back = [2]\<rparr>, fmr_memory = \<lparr>rg_front = [0], rg_back = [2]\<rparr>\<rparr>"
    by (simp add: fmr_resolve_def fmr_fileToMemory_def resolve_axis_def)
qed (simp_all add: line_api_def mem_api_def hdu_init_def status_reachable.opened)

end
