(* ===== verification/Fits_Column.thy ===== *)
theory Fits_Column
  imports Fits_Raster
begin

text \<open>
  Binary table columns (\<^verbatim>\<open>EleFitsData/Column.h\<close>, \<^verbatim>\<open>ColumnInfo.h\<close> and their implementations): metadata,
  row-major layout of the fields, element access with and without bounds checking, fields and row
  slices as views on the memory of the column.
\<close>

section \<open>The model\<close>

text \<open>The template parameters of \<^verbatim>\<open>ColumnInfo<T, N>\<close> that the code tests are fields of the record.\<close>

record column_info =
  ci_is_string :: bool
  ci_Dim :: int
  ci_name :: string
  ci_unit :: string
  ci_shape :: position

definition column_info_init :: "bool \<Rightarrow> int \<Rightarrow> string \<Rightarrow> string \<Rightarrow> int \<Rightarrow> column_info result" where
  "column_info_init is_string N n u rep =
     rbind (wr (pos_one N) 0 rep) (\<lambda>s.
       Inr \<lparr>ci_is_string = is_string, ci_Dim = N, ci_name = n, ci_unit = u, ci_shape = s\<rparr>)"

definition make_column_info :: "bool \<Rightarrow> string \<Rightarrow> string \<Rightarrow> position \<Rightarrow> column_info" where
  "make_column_info is_string n u shape =
     \<lparr>ci_is_string = is_string, ci_Dim = int (length shape), ci_name = n, ci_unit = u, ci_shape = shape\<rparr>"

definition repeat_count :: "column_info \<Rightarrow> int" where
  "repeat_count info = shapeSize (ci_shape info)"

definition element_count :: "column_info \<Rightarrow> int" where
  "element_count info = (if ci_is_string info then 1 else repeat_count info)"

definition column_info_eq :: "column_info \<Rightarrow> column_info \<Rightarrow> bool" where
  "column_info_eq lhs rhs \<longleftrightarrow>
     ci_name lhs = ci_name rhs \<and> ci_unit lhs = ci_unit rhs \<and> container_eq (ci_shape lhs) (ci_shape rhs)"

definition column_info_neq :: "column_info \<Rightarrow> column_info \<Rightarrow> bool" where
  "column_info_neq lhs rhs \<longleftrightarrow> \<not> column_info_eq lhs rhs"

record 'a column =
  m_info :: column_info
  c_data :: "'a list"

definition column_zero :: "'a \<Rightarrow> column_info \<Rightarrow> int \<Rightarrow> 'a column result" where
  "column_zero zero info rows =
     (if element_count info * rows < 0 then Inl Undefined
      else rbind (holder_vector zero (nat (element_count info * rows)) None)
             (\<lambda>d. Inr \<lparr>m_info = info, c_data = d\<rparr>))"

definition column_copy :: "'a \<Rightarrow> column_info \<Rightarrow> int \<Rightarrow> 'a list \<Rightarrow> 'a column result" where
  "column_copy zero info rows data =
     (if element_count info * rows < 0 then Inl Undefined
      else rbind (holder_vector zero (nat (element_count info * rows)) (Some data))
             (\<lambda>d. Inr \<lparr>m_info = info, c_data = d\<rparr>))"

definition make_column :: "column_info \<Rightarrow> 'a list \<Rightarrow> 'a column" where
  "make_column info data = \<lparr>m_info = info, c_data = data\<rparr>"

definition column_rename :: "string \<Rightarrow> 'a column \<Rightarrow> 'a column" where
  "column_rename n c = c\<lparr>m_info := (m_info c)\<lparr>ci_name := n\<rparr>\<rparr>"

definition column_reshape :: "position \<Rightarrow> 'a column \<Rightarrow> 'a column" where
  "column_reshape shape c = c\<lparr>m_info := (m_info c)\<lparr>ci_shape := shape\<rparr>\<rparr>"

definition column_reshape_count :: "int \<Rightarrow> 'a column \<Rightarrow> 'a column result" where
  "column_reshape_count rep c =
     rbind (wr (pos_one (ci_Dim (m_info c))) 0 rep) (\<lambda>shape. Inr (column_reshape shape c))"

text \<open>
  \<^verbatim>\<open>size() / element_count()\<close> divides a \<^verbatim>\<open>std::size_t\<close>: a negative count is converted to a value
  greater than any size.
\<close>

definition row_count :: "'a column \<Rightarrow> int result" where
  "row_count c =
     (let n = element_count (m_info c) in
      if n = 0 then Inl Undefined else if n < 0 then Inr 0 else Inr (int (length (c_data c)) div n))"

definition column_index :: "'a column \<Rightarrow> int \<Rightarrow> int \<Rightarrow> int" where
  "column_index c row rep = row * element_count (m_info c) + rep"

definition column_call :: "'a column \<Rightarrow> int \<Rightarrow> int \<Rightarrow> 'a result" where
  "column_call c row rep = rd (c_data c) (column_index c row rep)"

text \<open>The index \<^verbatim>\<open>at\<close> ends up with, or the exception it throws.\<close>

definition column_at_index :: "'a column \<Rightarrow> int \<Rightarrow> int \<Rightarrow> int result" where
  "column_at_index c row rep =
     rbind (row_count c) (\<lambda>rows.
     rbind (out_of_bounds_may_throw ''Cannot access row index'' row (- rows, rows - 1)) (\<lambda>_.
     let bound = element_count (m_info c) in
     rbind (out_of_bounds_may_throw ''Cannot access repeat index'' rep (- bound, bound - 1)) (\<lambda>_.
     let bounded_row = if row < 0 then rows + row else row;
         bounded_repeat = if rep < 0 then bound + rep else rep
     in Inr (column_index c bounded_row bounded_repeat))))"

definition column_at :: "'a column \<Rightarrow> int \<Rightarrow> int \<Rightarrow> 'a result" where
  "column_at c row rep = rbind (column_at_index c row rep) (rd (c_data c))"

definition column_field :: "'a column \<Rightarrow> int \<Rightarrow> ptr_raster result" where
  "column_field c row =
     rbind (column_at_index c row 0) (\<lambda>i. Inr \<lparr>pr_offset = i, pr_shape = ci_shape (m_info c)\<rparr>)"

text \<open>A \<^verbatim>\<open>PtrColumn\<close>: metadata, where the view starts in the memory of the parent, and its size.\<close>

record ptr_column =
  pc_info :: column_info
  pc_offset :: int
  pc_size :: int

definition column_slice :: "'a column \<Rightarrow> segment \<Rightarrow> ptr_column" where
  "column_slice c rows =
     \<lparr>pc_info = m_info c, pc_offset = column_index c (seg_front rows) 0,
      pc_size = element_count (m_info c) * seg_size rows\<rparr>"

definition ptr_column_call :: "'a list \<Rightarrow> ptr_column \<Rightarrow> int \<Rightarrow> int \<Rightarrow> 'a result" where
  "ptr_column_call data v row rep = rd data (pc_offset v + (row * element_count (pc_info v) + rep))"

text \<open>A column that holds whole rows.\<close>

definition column_wf :: "'a column \<Rightarrow> nat \<Rightarrow> bool" where
  "column_wf c rows \<longleftrightarrow> 0 < element_count (m_info c) \<and>
     int (length (c_data c)) = element_count (m_info c) * int rows"

section \<open>Layout\<close>

lemma row_count_wf: "column_wf c rows \<Longrightarrow> row_count c = Inr (int rows)"
  by (simp add: row_count_def column_wf_def Let_def)

lemma column_index_bounds:
  assumes "column_wf c rows" and "0 \<le> i" "i < int rows" "0 \<le> j" "j < element_count (m_info c)"
  shows "0 \<le> column_index c i j" "column_index c i j < int (length (c_data c))"
proof -
  have "0 < element_count (m_info c)" and len: "int (length (c_data c)) = element_count (m_info c) * int rows"
    using assms(1) by (simp_all add: column_wf_def)
  moreover have "(i + 1) * element_count (m_info c) \<le> int rows * element_count (m_info c)"
    using assms(3) calculation(1) by (intro mult_right_mono) simp_all
  ultimately show "0 \<le> column_index c i j" "column_index c i j < int (length (c_data c))"
    using assms(2,4,5) by (simp_all add: column_index_def algebra_simps)
qed

lemma column_call_in:
  assumes "column_wf c rows" and "0 \<le> i" "i < int rows" "0 \<le> j" "j < element_count (m_info c)"
  shows "column_call c i j = Inr (c_data c ! nat (column_index c i j))"
  using column_index_bounds [OF assms] by (simp add: column_call_def)

lemma column_index_inject:
  assumes "0 \<le> j" "j < element_count (m_info c)" "0 \<le> l" "l < element_count (m_info c)"
  shows "column_index c i j = column_index c k l \<longleftrightarrow> i = k \<and> j = l"
proof
  let ?n = "element_count (m_info c)"
  assume "column_index c i j = column_index c k l"
  then have eq: "j + ?n * i = l + ?n * k"
    by (simp add: column_index_def algebra_simps)
  have "(j + ?n * i) div ?n = i" "(l + ?n * k) div ?n = k"
    using assms by simp_all
  then show "i = k \<and> j = l"
    using eq by auto
qed simp

text \<open>
  \<^verbatim>\<open>at\<close> checks the row index, then the repeat index, each against the range from minus the
  count to the count minus one; when both are accepted it returns the element that \<^verbatim>\<open>operator()\<close>
  returns for the indices counted from the start, which exists, and distinct accepted pairs of
  non-negative indices denote distinct elements of the column.
\<close>

theorem column_at_wraps:
  assumes "column_wf c rows"
  shows "(\<not> (- int rows \<le> i \<and> i < int rows) \<longrightarrow>
            column_at c i j = Inl (OutOfBoundsError ''Cannot access row index'' i (- int rows, int rows - 1))) \<and>
         (- int rows \<le> i \<and> i < int rows \<and> \<not> (- element_count (m_info c) \<le> j \<and> j < element_count (m_info c)) \<longrightarrow>
            column_at c i j = Inl (OutOfBoundsError ''Cannot access repeat index'' j
                                     (- element_count (m_info c), element_count (m_info c) - 1))) \<and>
         (- int rows \<le> i \<and> i < int rows \<and> - element_count (m_info c) \<le> j \<and> j < element_count (m_info c) \<longrightarrow>
            column_at c i j = column_call c (if i < 0 then int rows + i else i) (if j < 0 then element_count (m_info c) + j else j) \<and>
            (\<exists>x \<in> set (c_data c). column_at c i j = Inr x))"
proof (intro conjI impI)
  let ?n = "element_count (m_info c)"
  assume ok: "- int rows \<le> i \<and> i < int rows \<and> - ?n \<le> j \<and> j < ?n"
  let ?i = "if i < 0 then int rows + i else i" and ?j = "if j < 0 then ?n + j else j"
  show eq: "column_at c i j = column_call c ?i ?j"
    using ok by (simp add: column_at_def column_at_index_def row_count_wf [OF assms] Let_def column_call_def)
  have in_range: "0 \<le> ?i" "?i < int rows" "0 \<le> ?j" "?j < ?n"
    using ok by auto
  show "\<exists>x \<in> set (c_data c). column_at c i j = Inr x"
    using eq column_call_in [OF assms in_range] column_index_bounds [OF assms in_range] by simp
qed (auto simp: column_at_def column_at_index_def row_count_wf [OF assms] Let_def)

theorem column_at_wraps_witness:
  "column_at (make_column (make_column_info False ''A'' '''' [2]) [1, 2, 3, 4, 5, 6::int]) (- 1) (- 2) = Inr 5 \<and>
   column_at (make_column (make_column_info False ''A'' '''' [2]) [1, 2, 3, 4, 5, 6::int]) 3 0
     = Inl (OutOfBoundsError ''Cannot access row index'' 3 (- 3, 2))"
  using column_at_wraps [of "make_column (make_column_info False ''A'' '''' [2]) [1, 2, 3, 4, 5, 6::int]" 3 "- 1" "- 2"]
    column_at_wraps [of "make_column (make_column_info False ''A'' '''' [2]) [1, 2, 3, 4, 5, 6::int]" 3 3 0]
  by (simp add: column_wf_def make_column_def make_column_info_def element_count_def repeat_count_def
      shapeSize_def column_call_def column_index_def)

text \<open>
  A row slice is the column restricted to its rows: \<^verbatim>\<open>operator()(i, j)\<close> of the slice is
  \<^verbatim>\<open>operator()(front + i, j)\<close> of the column and stays inside of it; and the field of a row of a numeric
  column has the shape of the column and holds, in order, the elements of that row.
\<close>

theorem column_views:
  assumes "column_wf c rows" and "0 \<le> seg_front s" "seg_front s \<le> seg_back s" "seg_back s < int rows"
    and "0 \<le> i" "i < seg_size s" "0 \<le> j" "j < element_count (m_info c)"
  shows "(\<exists>x. ptr_column_call (c_data c) (column_slice c s) i j = Inr x \<and> column_call c (seg_front s + i) j = Inr x) \<and>
         pc_size (column_slice c s) = element_count (m_info c) * seg_size s \<and>
         (\<not> ci_is_string (m_info c) \<longrightarrow>
            (\<exists>v xs. column_field c (seg_front s) = Inr v \<and> pr_shape v = ci_shape (m_info c) \<and>
               ptr_elements (c_data c) v = Inr xs \<and>
               rmap (column_call c (seg_front s)) [0..element_count (m_info c) - 1] = Inr xs))"
proof (intro conjI impI)
  have "seg_front s + i < int rows"
    using assms by (simp add: seg_size_def)
  then show "\<exists>x. ptr_column_call (c_data c) (column_slice c s) i j = Inr x \<and> column_call c (seg_front s + i) j = Inr x"
    using column_call_in [OF assms(1), of "seg_front s + i" j] assms
    by (simp add: ptr_column_call_def column_slice_def column_call_def column_index_def algebra_simps)
next
  show "pc_size (column_slice c s) = element_count (m_info c) * seg_size s"
    by (simp add: column_slice_def)
next
  let ?n = "element_count (m_info c)" and ?f = "seg_front s"
  assume "\<not> ci_is_string (m_info c)"
  then have n: "?n = shapeSize (ci_shape (m_info c))" "0 < ?n"
    using assms(1) by (simp_all add: element_count_def repeat_count_def column_wf_def)
  define v where "v = \<lparr>pr_offset = column_index c ?f 0, pr_shape = ci_shape (m_info c)\<rparr>"
  have "column_field c ?f = Inr v"
    using n assms by (simp add: column_field_def column_at_index_def row_count_wf [OF assms(1)] Let_def v_def)
  moreover have "ptr_elements (c_data c) v = rmap (column_call c ?f) [0..?n - 1]"
    by (simp add: ptr_elements_def n(1) v_def column_call_def [abs_def] column_index_def)
  moreover have "rmap (column_call c ?f) [0..?n - 1] = Inr (map (\<lambda>j. c_data c ! nat (column_index c ?f j)) [0..?n - 1])"
    using assms by (intro rmap_Inr column_call_in [OF assms(1)]) auto
  ultimately show "\<exists>v xs. column_field c ?f = Inr v \<and> pr_shape v = ci_shape (m_info c) \<and>
               ptr_elements (c_data c) v = Inr xs \<and> rmap (column_call c ?f) [0..?n - 1] = Inr xs"
    by (auto simp: v_def)
qed

theorem column_views_witness:
  "\<exists>x. ptr_column_call [1, 2, 3, 4, 5, 6::int]
         (column_slice (make_column (make_column_info False ''A'' '''' [2]) [1, 2, 3, 4, 5, 6::int]) \<lparr>seg_front = 1, seg_back = 2\<rparr>) 1 0 = Inr x"
  using column_views [of "make_column (make_column_info False ''A'' '''' [2]) [1, 2, 3, 4, 5, 6::int]" 3 "\<lparr>seg_front = 1, seg_back = 2\<rparr>" 1 0]
  by (auto simp: column_wf_def make_column_def make_column_info_def element_count_def repeat_count_def
      shapeSize_def seg_size_def)

text \<open>
  The field of the last row of a string column whose repeat count is greater than one runs past
  the end of the column: a string column has one element per row, but the raster of the field has
  as many elements as the repeat count, which is the maximum length of the strings.
\<close>

theorem string_field_overruns:
  assumes "ci_is_string (m_info c)" and "0 < length (c_data c)" and "1 < repeat_count (m_info c)"
  shows "\<exists>v. column_field c (- 1) = Inr v \<and> ptr_elements (c_data c) v = Inl Undefined"
proof -
  have wf: "column_wf c (length (c_data c))"
    using assms(1) by (simp add: column_wf_def element_count_def)
  define v where "v = \<lparr>pr_offset = int (length (c_data c)) - 1, pr_shape = ci_shape (m_info c)\<rparr>"
  have "column_field c (- 1) = Inr v"
    using assms by (cases "c_data c") (simp_all add: column_field_def column_at_index_def row_count_wf [OF wf] Let_def
        column_index_def element_count_def v_def)
  moreover have "[0..shapeSize (pr_shape v) - 1] = 0 # 1 # [2..shapeSize (pr_shape v) - 1]"
    using assms(3) by (simp add: v_def repeat_count_def upto_rec1)
  ultimately show ?thesis
    using assms(2) by (simp add: ptr_elements_def) (simp add: v_def rd_def)
qed

theorem string_field_overruns_witness:
  "\<exists>v. column_field (make_column (make_column_info True ''A'' '''' [3]) [''abc'']) (- 1) = Inr v \<and>
       ptr_elements [''abc''] v = Inl Undefined"
  using string_field_overruns [of "make_column (make_column_info True ''A'' '''' [3]) [''abc'']"]
  by (simp add: make_column_def make_column_info_def repeat_count_def shapeSize_def)

end
