(* ===== verification/Fits_Bintable.thy ===== *)
theory Fits_Bintable
  imports Fits_Image Fits_Column
begin

text \<open>
  Binary tables: the column wrapper (\<^verbatim>\<open>BintableWrapper.h\<close>, \<^verbatim>\<open>BintableWrapper.hpp\<close>, \<^verbatim>\<open>BintableWrapper.cpp\<close>), column keys
  (\<^verbatim>\<open>ColumnKey.cpp\<close>) and the handler of the data unit (\<^verbatim>\<open>BintableColumns.cpp\<close>, \<^verbatim>\<open>BintableColumns.hpp\<close>).  A
  column of a sequence comes with the type of its elements; memory that a read call fills is the list of the elements
  of the column, and leaving it is undefined behaviour.
\<close>

section \<open>The table interface of CFITSIO\<close>

record 'f bintable_api =
  bt_get_colnum :: "string \<Rightarrow> 'f \<Rightarrow> int \<times> int"
  bt_get_bcolparms :: "int \<Rightarrow> 'f \<Rightarrow> (string \<times> string \<times> int) \<times> int"
  bt_set_hdustruc :: "'f \<Rightarrow> 'f \<times> int"
  bt_read_tdim :: "int \<Rightarrow> int \<Rightarrow> 'f \<Rightarrow> (int \<times> int list) \<times> int"
  bt_write_tdim :: "int \<Rightarrow> int list \<Rightarrow> 'f \<Rightarrow> 'f \<times> int"
  bt_get_rowsize :: "'f \<Rightarrow> int \<times> int"
  bt_insert_col :: "int \<Rightarrow> string \<Rightarrow> string \<Rightarrow> 'f \<Rightarrow> 'f \<times> int"
  bt_insert_cols :: "int \<Rightarrow> (string \<times> string) list \<Rightarrow> 'f \<Rightarrow> 'f \<times> int"
  bt_delete_col :: "int \<Rightarrow> 'f \<Rightarrow> 'f \<times> int"
  bt_read_col :: "value_type \<Rightarrow> int \<Rightarrow> int \<Rightarrow> int \<Rightarrow> 'f \<Rightarrow> payload list \<times> int"
  bt_write_col :: "value_type \<Rightarrow> int \<Rightarrow> int \<Rightarrow> payload list \<Rightarrow> 'f \<Rightarrow> 'f \<times> int"
  bt_insert_rows :: "int \<Rightarrow> int \<Rightarrow> 'f \<Rightarrow> 'f \<times> int"
  bt_write_nullrows :: "int \<Rightarrow> int \<Rightarrow> 'f \<Rightarrow> 'f \<times> int"
  bt_create_tbl :: "(string \<times> string \<times> string) list \<Rightarrow> string \<Rightarrow> 'f \<Rightarrow> 'f \<times> int"

definition COL_NOT_UNIQUE :: int where "COL_NOT_UNIQUE = 237"

section \<open>Column metadata\<close>

definition io_column_count :: "'f cfitsio \<Rightarrow> 'f \<Rightarrow> int result" where
  "io_column_count api f = (case api_get_num_cols api f of (n, st) \<Rightarrow>
     rbind (cfitsio_may_throw st ''Cannot read the number of columns'') (\<lambda>_. Inr n))"

definition io_row_count :: "'f cfitsio \<Rightarrow> 'f \<Rightarrow> int result" where
  "io_row_count api f = (case api_get_num_rows api f of (n, st) \<Rightarrow>
     rbind (cfitsio_may_throw st ''Cannot read the number of rows'') (\<lambda>_. Inr n))"

definition has_column :: "'f bintable_api \<Rightarrow> string \<Rightarrow> 'f \<Rightarrow> bool" where
  "has_column bt n f = (case bt_get_colnum bt n f of (i, st) \<Rightarrow> st = 0 \<or> st = COL_NOT_UNIQUE)"

definition io_column_name :: "'f bintable_api \<Rightarrow> int \<Rightarrow> 'f \<Rightarrow> string result" where
  "io_column_name bt index f = (case bt_get_bcolparms bt index f of ((ttype, tunit, rep), st) \<Rightarrow>
     rbind (cfitsio_may_throw st (''Cannot find name of column: '' @ to_string (index - 1))) (\<lambda>_. Inr ttype))"

definition update_column_name :: "'f cfitsio \<Rightarrow> 'f bintable_api \<Rightarrow> int \<Rightarrow> string \<Rightarrow> ('f, unit) io" where
  "update_column_name api bt index new_name =
     io_then (update_record_string api (record_init (''TTYPE'' @ to_string index) (StrVal new_name) [] []))
       (checked (bt_set_hdustruc bt) (''Cannot update name of column #'' @ to_string (index - 1)))"

definition io_column_index :: "'f bintable_api \<Rightarrow> string \<Rightarrow> 'f \<Rightarrow> int result" where
  "io_column_index bt n f = (case bt_get_colnum bt n f of (i, st) \<Rightarrow>
     rbind (cfitsio_may_throw st (''Cannot find index of column: '' @ n)) (\<lambda>_. Inr i))"

text \<open>
  \<^verbatim>\<open>fits_read_tdim\<close> stores the axes in the array it is given, without knowing its length.  In the variable dimension
  case the axes are stored in the shape itself, which is then replaced by an array that nothing was stored in.
\<close>

definition read_column_dim :: "'f cfitsio \<Rightarrow> 'f bintable_api \<Rightarrow> int \<Rightarrow> position \<Rightarrow> 'f \<Rightarrow> position result" where
  "read_column_dim api bt index shape f =
     rbind (has_keyword api (''TDIM'' @ to_string index) f) (\<lambda>b.
     if \<not> b then Inr shape
     else case bt_read_tdim bt index (int (length shape)) f of ((naxis, naxes), st) \<Rightarrow>
          rbind (write_block shape 0 naxes) (\<lambda>shape'.
          rbind (cfitsio_may_throw st (''Cannot read column dimension: #'' @ to_string (index - 1))) (\<lambda>_. Inr shape')))"

definition read_column_dim_dynamic :: "'f cfitsio \<Rightarrow> 'f bintable_api \<Rightarrow> int \<Rightarrow> position \<Rightarrow> 'f \<Rightarrow> position result" where
  "read_column_dim_dynamic api bt index shape f =
     rbind (has_keyword api (''TDIM'' @ to_string index) f) (\<lambda>b.
     if \<not> b then Inr shape
     else case bt_read_tdim bt index 999 f of ((naxis, naxes), st) \<Rightarrow>
          rbind (write_block shape 0 naxes) (\<lambda>shape'.
          rbind (cfitsio_may_throw st (''Cannot read column dimension: #'' @ to_string (index - 1))) (\<lambda>_.
          Inr (replicate (nat naxis) 0))))"

definition read_column_info :: "'f cfitsio \<Rightarrow> 'f bintable_api \<Rightarrow> value_type \<Rightarrow> int \<Rightarrow> int \<Rightarrow> 'f \<Rightarrow> column_info result" where
  "read_column_info api bt t N index f =
     (case bt_get_bcolparms bt index f of ((n, u, rep), st) \<Rightarrow>
      rbind (cfitsio_may_throw st (''Cannot read column info: #'' @ to_string (index - 1))) (\<lambda>_.
      rbind (column_info_init (t = TString) N n u rep) (\<lambda>info.
      rbind ((if N = - 1 then read_column_dim_dynamic else read_column_dim) api bt index (ci_shape info) f) (\<lambda>shape.
      Inr (info\<lparr>ci_shape := shape\<rparr>)))))"

definition write_column_dim :: "'f bintable_api \<Rightarrow> int \<Rightarrow> position \<Rightarrow> ('f, unit) io" where
  "write_column_dim bt index shape =
     (if length shape = 1 then io_return ()
      else checked (bt_write_tdim bt index shape) (''Cannot write column dimension: #'' @ to_string (index - 1)))"

fun write_column_dims :: "'f bintable_api \<Rightarrow> int \<Rightarrow> column_info list \<Rightarrow> ('f, unit) io" where
  "write_column_dims bt index [] = io_return ()"
| "write_column_dims bt index (info # infos) =
     io_then (write_column_dim bt index (ci_shape info)) (write_column_dims bt (index + 1) infos)"

section \<open>Column data\<close>

text \<open>
  A string field is read into a buffer of as many bytes as the field is wide; CFITSIO also stores the final null.
\<close>

definition read_string_data ::
  "'f bintable_api \<Rightarrow> segment \<Rightarrow> int \<Rightarrow> int \<Rightarrow> payload list \<Rightarrow> int \<Rightarrow> 'f \<Rightarrow> payload list result" where
  "read_string_data bt rows index rep memory address f =
     (if seg_size rows < 0 then Inl (StdException ''length_error'')
      else case bt_read_col bt TString index (seg_front rows) (seg_size rows) f of (vs, st) \<Rightarrow>
      if \<exists>v \<in> set vs. int (length (string_payload v)) \<ge> rep then Inl Undefined
      else rbind (cfitsio_may_throw st (''Cannot read column data: #'' @ to_string (index - 1))) (\<lambda>_. write_block memory address vs))"

definition read_column_data ::
  "'f bintable_api \<Rightarrow> value_type \<Rightarrow> segment \<Rightarrow> int \<Rightarrow> int \<Rightarrow> payload list \<Rightarrow> int \<Rightarrow> 'f \<Rightarrow> payload list result" where
  "read_column_data bt t rows index rep memory address f =
     (if t = TString then read_string_data bt rows index rep memory address f
      else case bt_read_col bt t index (seg_front rows) (seg_size rows * rep) f of (vs, st) \<Rightarrow>
      rbind (write_block memory address vs) (\<lambda>memory'.
      rbind (cfitsio_may_throw st (''Cannot read column data: #'' @ to_string (index - 1))) (\<lambda>_. Inr memory')))"

definition write_column_data ::
  "'f bintable_api \<Rightarrow> value_type \<Rightarrow> segment \<Rightarrow> int \<Rightarrow> int \<Rightarrow> payload list \<Rightarrow> int \<Rightarrow> ('f, unit) io" where
  "write_column_data bt t rows index rep memory address =
     io_bind (io_lift (read_block memory address (if t = TString then seg_size rows else seg_size rows * rep))) (\<lambda>vs.
       checked (bt_write_col bt t index (seg_front rows) vs) (''Cannot write column data: #'' @ to_string (index - 1)))"

type_synonym typed_column = "value_type \<times> payload column"

definition read_column ::
  "'f cfitsio \<Rightarrow> 'f bintable_api \<Rightarrow> payload \<Rightarrow> value_type \<Rightarrow> int \<Rightarrow> 'f \<Rightarrow> payload column result" where
  "read_column api bt zero t index f =
     rbind (io_row_count api f) (\<lambda>rows.
     rbind (read_column_info api bt t 1 index f) (\<lambda>info.
     rbind (column_zero zero info rows) (\<lambda>c.
     rbind (read_column_data bt t \<lparr>seg_front = 1, seg_back = rows\<rparr> index (repeat_count info) (c_data c) 0 f) (\<lambda>d.
     Inr (c\<lparr>c_data := d\<rparr>)))))"

definition read_column_named ::
  "'f cfitsio \<Rightarrow> 'f bintable_api \<Rightarrow> payload \<Rightarrow> value_type \<Rightarrow> string \<Rightarrow> 'f \<Rightarrow> payload column result" where
  "read_column_named api bt zero t n f = rbind (io_column_index bt n f) (\<lambda>i. read_column api bt zero t i f)"

definition read_column_segment ::
  "'f bintable_api \<Rightarrow> value_type \<Rightarrow> segment \<Rightarrow> int \<Rightarrow> payload column \<Rightarrow> 'f \<Rightarrow> payload column result" where
  "read_column_segment bt t rows index c f =
     rbind (read_column_data bt t rows index (repeat_count (m_info c)) (c_data c) 0 f) (\<lambda>d. Inr (c\<lparr>c_data := d\<rparr>))"

definition write_column_segment :: "'f bintable_api \<Rightarrow> int \<Rightarrow> typed_column \<Rightarrow> ('f, unit) io" where
  "write_column_segment bt first_row = (\<lambda>(t, c).
     io_bind (io_read (io_column_index bt (ci_name (m_info c)))) (\<lambda>index.
     io_bind (io_lift (row_count c)) (\<lambda>rows.
       write_column_data bt t (seg_fromSize first_row rows) index (repeat_count (m_info c)) (c_data c) 0)))"

definition write_column :: "'f bintable_api \<Rightarrow> typed_column \<Rightarrow> ('f, unit) io" where
  "write_column bt tc = write_column_segment bt 1 tc"

section \<open>Several columns by chunks of rows\<close>

text \<open>
  The metadata of a column are read into a column that still has its default metadata when its memory is allocated.  The
  recursion of \<^verbatim>\<open>ColumnLooperImpl\<close> goes from the last column to the first.
\<close>

definition read_column_info_impl ::
  "'f cfitsio \<Rightarrow> 'f bintable_api \<Rightarrow> payload \<Rightarrow> value_type \<Rightarrow> int \<Rightarrow> int \<Rightarrow> 'f \<Rightarrow> payload column result" where
  "read_column_info_impl api bt zero t index rows f =
     rbind (column_info_init (t = TString) 1 [] [] 1) (\<lambda>old.
     rbind (read_column_info api bt t 1 index f) (\<lambda>info.
     if element_count old * rows < 0 then Inl Undefined
     else Inr (make_column info (replicate (nat (element_count old * rows)) zero))))"

fun read_infos ::
  "'f cfitsio \<Rightarrow> 'f bintable_api \<Rightarrow> payload \<Rightarrow> (value_type \<times> int) list \<Rightarrow> int \<Rightarrow> 'f \<Rightarrow> payload column list result" where
  "read_infos api bt zero [] rows f = Inr []"
| "read_infos api bt zero ((t, index) # keys) rows f =
     rbind (read_infos api bt zero keys rows f) (\<lambda>cs.
     rbind (read_column_info_impl api bt zero t index rows f) (\<lambda>c. Inr (c # cs)))"

fun read_chunks ::
  "'f bintable_api \<Rightarrow> (value_type \<times> int) list \<Rightarrow> payload column list \<Rightarrow> int \<Rightarrow> int \<Rightarrow> 'f \<Rightarrow> payload column list result" where
  "read_chunks bt ((t, index) # keys) (c # cs) first_row rows f =
     rbind (read_chunks bt keys cs first_row rows f) (\<lambda>cs'.
     rbind (read_column_data bt t (seg_fromSize first_row rows) index (repeat_count (m_info c)) (c_data c)
              (Fits_Column.column_index c (first_row - 1) 0) f) (\<lambda>d.
     Inr (c\<lparr>c_data := d\<rparr> # cs')))"
| "read_chunks bt keys cs first_row rows f = Inr cs"

partial_function (option) read_columns_loop ::
  "'f bintable_api \<Rightarrow> (value_type \<times> int) list \<Rightarrow> int \<Rightarrow> int \<Rightarrow> int \<Rightarrow> payload column list \<Rightarrow> 'f \<Rightarrow>
     payload column list result option" where
  "read_columns_loop bt keys rows first chunk cs f =
     (if first \<le> rows
      then let chunk' = (if first + chunk - 1 > rows then rows - first + 1 else chunk) in
           case read_chunks bt keys cs first chunk' f of
             Inl e \<Rightarrow> Some (Inl e)
           | Inr cs' \<Rightarrow> read_columns_loop bt keys rows (first + chunk') chunk' cs' f
      else Some (Inr cs))"

definition read_columns ::
  "'f cfitsio \<Rightarrow> 'f bintable_api \<Rightarrow> payload \<Rightarrow> (value_type \<times> int) list \<Rightarrow> 'f \<Rightarrow> payload column list result option" where
  "read_columns api bt zero keys f =
     (case rbind (io_row_count api f) (\<lambda>rows. rbind (read_infos api bt zero keys rows f) (\<lambda>cs. Inr (rows, cs))) of
        Inl e \<Rightarrow> Some (Inl e)
      | Inr (rows, cs) \<Rightarrow>
          if fst (bt_get_rowsize bt f) = 0
          then Some (Inl (FitsError ''Cannot compute the optimal number of rows to be read at once''))
          else read_columns_loop bt keys rows 1 (fst (bt_get_rowsize bt f)) cs f)"

definition read_columns_named ::
  "'f cfitsio \<Rightarrow> 'f bintable_api \<Rightarrow> payload \<Rightarrow> (value_type \<times> string) list \<Rightarrow> 'f \<Rightarrow> payload column list result option" where
  "read_columns_named api bt zero keys f =
     (case rmap (\<lambda>(t, n). io_column_index bt n f) keys of
        Inl e \<Rightarrow> Some (Inl e)
      | Inr indices \<Rightarrow> read_columns api bt zero (zip (map fst keys) indices) f)"

fun max_row_count :: "typed_column list \<Rightarrow> int \<Rightarrow> int result" where
  "max_row_count [] count = Inr count"
| "max_row_count cs count = rbind (row_count (snd (last cs))) (\<lambda>rows. max_row_count (butlast cs) (max rows count))"

fun write_chunks :: "'f bintable_api \<Rightarrow> int list \<Rightarrow> typed_column list \<Rightarrow> int \<Rightarrow> int \<Rightarrow> ('f, unit) io" where
  "write_chunks bt (index # indices) ((t, c) # cs) first_row rows =
     io_then (write_chunks bt indices cs first_row rows)
       (write_column_data bt t (seg_fromSize first_row rows) index (repeat_count (m_info c)) (c_data c)
          (Fits_Column.column_index c (first_row - 1) 0))"
| "write_chunks bt indices cs first_row rows = io_return ()"

partial_function (option) write_columns_loop ::
  "'f bintable_api \<Rightarrow> int list \<Rightarrow> typed_column list \<Rightarrow> int \<Rightarrow> int \<Rightarrow> int \<Rightarrow> 'f \<Rightarrow> ('f \<times> unit result) option" where
  "write_columns_loop bt indices cs rows first chunk f =
     (if first \<le> rows
      then let chunk' = (if first + chunk - 1 > rows then rows - first + 1 else chunk) in
           case write_chunks bt indices cs first chunk' f of (f', r) \<Rightarrow>
             (case r of Inl e \<Rightarrow> Some (f', Inl e)
              | Inr _ \<Rightarrow> write_columns_loop bt indices cs rows (first + chunk') chunk' f')
      else Some (f, Inr ()))"

definition write_columns :: "'f bintable_api \<Rightarrow> typed_column list \<Rightarrow> 'f \<Rightarrow> ('f \<times> unit result) option" where
  "write_columns bt cs f =
     (case max_row_count cs 0 of
        Inl e \<Rightarrow> Some (f, Inl e)
      | Inr rows \<Rightarrow>
          if fst (bt_get_rowsize bt f) = 0
          then Some (f, Inl (FitsError ''Cannot compute the optimal number of rows to be read at once''))
          else (case rmap (\<lambda>(t, c). io_column_index bt (ci_name (m_info c)) f) cs of
                  Inl e \<Rightarrow> Some (f, Inl e)
                | Inr indices \<Rightarrow> write_columns_loop bt indices cs rows 1 (fst (bt_get_rowsize bt f)) f))"

text \<open>\<^verbatim>\<open>insert_columns\<close> goes on whatever the status of the insertion.\<close>

definition io_insert_columns :: "'f bintable_api \<Rightarrow> int \<Rightarrow> typed_column list \<Rightarrow> 'f \<Rightarrow> ('f \<times> unit result) option" where
  "io_insert_columns bt index cs f =
     (case rmap (\<lambda>(t, c). case tform t (repeat_count (m_info c)) of None \<Rightarrow> Inl Undefined | Some s \<Rightarrow> Inr (ci_name (m_info c), s)) cs of
        Inl e \<Rightarrow> Some (f, Inl e)
      | Inr forms \<Rightarrow>
          (case write_column_dims bt index (map (m_info \<circ> snd) cs) (fst (bt_insert_cols bt index forms f)) of
             (f', Inl e) \<Rightarrow> Some (f', Inl e)
           | (f', Inr _) \<Rightarrow> write_columns bt cs f'))"

definition io_insert_column :: "'f bintable_api \<Rightarrow> int \<Rightarrow> typed_column \<Rightarrow> ('f, unit) io" where
  "io_insert_column bt index = (\<lambda>(t, c).
     io_bind (io_lift (case tform t (repeat_count (m_info c)) of None \<Rightarrow> Inl Undefined | Some s \<Rightarrow> Inr s)) (\<lambda>form.
     io_then (\<lambda>f. (fst (bt_insert_col bt index (ci_name (m_info c)) form f), Inr ()))
     (io_then (write_column_dim bt index (ci_shape (m_info c))) (write_column bt (t, c)))))"

definition io_append_column :: "'f cfitsio \<Rightarrow> 'f bintable_api \<Rightarrow> typed_column \<Rightarrow> ('f, unit) io" where
  "io_append_column api bt tc = (\<lambda>f. io_insert_column bt (fst (api_get_num_cols api f) + 1) tc f)"

definition io_append_columns :: "'f cfitsio \<Rightarrow> 'f bintable_api \<Rightarrow> typed_column list \<Rightarrow> 'f \<Rightarrow> ('f \<times> unit result) option" where
  "io_append_columns api bt cs f = io_insert_columns bt (fst (api_get_num_cols api f) + 1) cs f"

definition init_bintable :: "'f bintable_api \<Rightarrow> string \<Rightarrow> (value_type \<times> column_info) list \<Rightarrow> ('f, unit) io" where
  "init_bintable bt n infos =
     io_bind (io_lift (rmap (\<lambda>(t, info). case tform t (repeat_count info) of
         None \<Rightarrow> Inl Undefined | Some s \<Rightarrow> Inr (ci_name info, s, ci_unit info)) infos)) (\<lambda>forms.
     io_then (checked (bt_create_tbl bt forms n) (''Cannot create binary table extension: '' @ n))
       (write_column_dims bt 1 (map snd infos)))"

definition assign_bintable :: "'f bintable_api \<Rightarrow> string \<Rightarrow> typed_column list \<Rightarrow> 'f \<Rightarrow> ('f \<times> unit result) option" where
  "assign_bintable bt n cs f =
     (case init_bintable bt n (map (\<lambda>(t, c). (t, m_info c)) cs) f of
        (f', Inl e) \<Rightarrow> Some (f', Inl e)
      | (f', Inr _) \<Rightarrow> write_columns bt cs f')"

section \<open>The handler of the data unit\<close>

definition columns_read_column_count :: "'f cfitsio \<Rightarrow> ('f, int) hio" where
  "columns_read_column_count api = io_then (touch api) (on_file (io_read (io_column_count api)))"

definition columns_read_row_count :: "'f cfitsio \<Rightarrow> ('f, int) hio" where
  "columns_read_row_count api = io_then (touch api) (on_file (io_read (io_row_count api)))"

definition read_buffer_row_count :: "'f bintable_api \<Rightarrow> ('f, int) hio" where
  "read_buffer_row_count bt = on_file (io_read (\<lambda>f. case bt_get_rowsize bt f of (n, st) \<Rightarrow>
     rbind (cfitsio_may_throw st ''Cannot compute buffer row count.'') (\<lambda>_. Inr n)))"

definition columns_has :: "'f cfitsio \<Rightarrow> 'f bintable_api \<Rightarrow> string \<Rightarrow> ('f, bool) hio" where
  "columns_has api bt n = io_then (touch api) (on_file (io_read (\<lambda>f. Inr (has_column bt n f))))"

definition columns_read_index :: "'f cfitsio \<Rightarrow> 'f bintable_api \<Rightarrow> string \<Rightarrow> ('f, int) hio" where
  "columns_read_index api bt n =
     io_then (touch api) (on_file (io_read (\<lambda>f. rbind (io_column_index bt n f) (\<lambda>i. Inr (i - 1)))))"

definition columns_read_indices :: "'f cfitsio \<Rightarrow> 'f bintable_api \<Rightarrow> string list \<Rightarrow> ('f, int list) hio" where
  "columns_read_indices api bt ns =
     io_then (touch api) (on_file (io_read (\<lambda>f. rmap (\<lambda>n. rbind (io_column_index bt n f) (\<lambda>i. Inr (i - 1))) ns)))"

definition columns_read_name :: "'f cfitsio \<Rightarrow> 'f bintable_api \<Rightarrow> int \<Rightarrow> ('f, string) hio" where
  "columns_read_name api bt index = io_then (touch api) (on_file (io_read (io_column_name bt (index + 1))))"

definition read_all_names :: "'f cfitsio \<Rightarrow> 'f bintable_api \<Rightarrow> ('f, string list) hio" where
  "read_all_names api bt =
     io_bind (columns_read_column_count api) (\<lambda>n. io_map (columns_read_name api bt) [0..n - 1])"

text \<open>Keys resolve, and remember, their index or their name.\<close>

record column_key =
  k_index :: "int option"
  k_name :: "string option"

definition key_of_index :: "int \<Rightarrow> column_key" where
  "key_of_index i = \<lparr>k_index = Some i, k_name = None\<rparr>"

definition key_of_name :: "string \<Rightarrow> column_key" where
  "key_of_name n = \<lparr>k_index = None, k_name = Some n\<rparr>"

definition key_index :: "'f cfitsio \<Rightarrow> 'f bintable_api \<Rightarrow> column_key \<Rightarrow> ('f, int \<times> column_key) hio" where
  "key_index api bt k =
     (case k_index k of
        Some i \<Rightarrow>
          if i < 0
          then io_bind (columns_read_column_count api) (\<lambda>n. io_return (i + n, k\<lparr>k_index := Some (i + n)\<rparr>))
          else io_return (i, k)
      | None \<Rightarrow>
          (case k_name k of
             None \<Rightarrow> io_throw Undefined
           | Some n \<Rightarrow> io_bind (columns_read_index api bt n) (\<lambda>i. io_return (i, k\<lparr>k_index := Some i\<rparr>))))"

definition key_name :: "'f cfitsio \<Rightarrow> 'f bintable_api \<Rightarrow> column_key \<Rightarrow> ('f, string \<times> column_key) hio" where
  "key_name api bt k =
     (case k_name k of
        Some n \<Rightarrow> io_return (n, k)
      | None \<Rightarrow>
          (case k_index k of
             None \<Rightarrow> io_throw Undefined
           | Some i \<Rightarrow> io_bind (columns_read_name api bt i) (\<lambda>n. io_return (n, k\<lparr>k_name := Some n\<rparr>))))"

definition columns_rename :: "'f cfitsio \<Rightarrow> 'f bintable_api \<Rightarrow> column_key \<Rightarrow> string \<Rightarrow> ('f, unit) hio" where
  "columns_rename api bt key n =
     io_then (edit api) (io_bind (key_index api bt key) (\<lambda>(i, k). on_file (update_column_name api bt (i + 1) n)))"

text \<open>The message of \<^verbatim>\<open>remove\<close> is built, and the key resolved again, whether the deletion fails or not.\<close>

definition columns_remove :: "'f cfitsio \<Rightarrow> 'f bintable_api \<Rightarrow> column_key \<Rightarrow> ('f, unit) hio" where
  "columns_remove api bt key =
     io_then (edit api) (io_bind (key_index api bt key) (\<lambda>(i, k). \<lambda>(f, h).
       case bt_delete_col bt (i + 1) f of (f', st) \<Rightarrow>
         io_bind (key_index api bt k) (\<lambda>(j, k'). io_lift (cfitsio_may_throw st (''Cannot remove column #'' @ to_string j))) (f', h)))"

text \<open>
  \<^verbatim>\<open>std::sort\<close> resolves the keys as it compares them, any number of times if there are two of them or more.  A key that is
  still negative once resolved has no definite index.
\<close>

definition resolve_keys :: "'f cfitsio \<Rightarrow> 'f bintable_api \<Rightarrow> column_key list \<Rightarrow> ('f, column_key list) hio" where
  "resolve_keys api bt keys =
     (if length keys < 2 then io_return keys
      else io_map (\<lambda>key. io_bind (key_index api bt key) (\<lambda>(i, k). if i < 0 then io_throw Undefined else io_return k)) keys)"

definition columns_remove_seq :: "'f cfitsio \<Rightarrow> 'f bintable_api \<Rightarrow> column_key list \<Rightarrow> ('f, unit) hio" where
  "columns_remove_seq api bt keys =
     io_bind (resolve_keys api bt keys) (\<lambda>ks.
       io_foreach (columns_remove api bt) (sort_key (\<lambda>k. - the (k_index k)) ks))"

text \<open>Reading a column: \<^verbatim>\<open>{0, -1}\<close> stands for all of the rows.\<close>

definition columns_read_info :: "'f cfitsio \<Rightarrow> 'f bintable_api \<Rightarrow> value_type \<Rightarrow> int \<Rightarrow> column_key \<Rightarrow> ('f, column_info) hio" where
  "columns_read_info api bt t N key =
     io_bind (key_index api bt key) (\<lambda>(i, k). on_file (io_read (read_column_info api bt t N (i + 1))))"

definition read_segment_to ::
  "'f cfitsio \<Rightarrow> 'f bintable_api \<Rightarrow> file_mem_segments \<Rightarrow> column_key \<Rightarrow> typed_column \<Rightarrow> ('f, typed_column) hio" where
  "read_segment_to api bt rows key = (\<lambda>(t, c).
     io_then (touch api)
     (io_bind (columns_read_row_count api) (\<lambda>n.
      io_bind (io_lift (row_count c)) (\<lambda>m.
      let rows' = fms_resolve (n - 1) (m - 1) rows in
      io_bind (key_index api bt key) (\<lambda>(i, k).
      io_bind (on_file (io_read (read_column_data bt t
           \<lparr>seg_front = seg_front (fm_file rows') + 1, seg_back = seg_back (fm_file rows') + 1\<rparr> (i + 1)
           (repeat_count (m_info c)) (c_data c) (Fits_Column.column_index c (seg_front (fm_memory rows')) 0)))) (\<lambda>d.
      io_return (t, c\<lparr>c_data := d\<rparr>)))))))"

definition read_segment ::
  "'f cfitsio \<Rightarrow> 'f bintable_api \<Rightarrow> payload \<Rightarrow> value_type \<Rightarrow> int \<Rightarrow> segment \<Rightarrow> column_key \<Rightarrow> ('f, typed_column) hio" where
  "read_segment api bt zero t N rows key =
     io_bind (key_index api bt key) (\<lambda>(index, k).
     io_bind (if seg_back rows = - 1 then io_bind (columns_read_row_count api) (\<lambda>n. io_return (rows\<lparr>seg_back := n - 1\<rparr>))
              else io_return rows) (\<lambda>resolved.
     io_bind (columns_read_info api bt t N k) (\<lambda>info.
     io_bind (io_lift (column_zero zero info (seg_size resolved))) (\<lambda>c.
       read_segment_to api bt (fms_of_file resolved 0) (key_of_index index) (t, c)))))"

definition columns_read ::
  "'f cfitsio \<Rightarrow> 'f bintable_api \<Rightarrow> payload \<Rightarrow> value_type \<Rightarrow> int \<Rightarrow> column_key \<Rightarrow> ('f, typed_column) hio" where
  "columns_read api bt zero t N key = read_segment api bt zero t N \<lparr>seg_front = 0, seg_back = - 1\<rparr> key"

section \<open>Sequences of columns\<close>

text \<open>The common number of rows; \<open>- 1\<close> stands for no column yet.\<close>

fun columns_row_count :: "typed_column list \<Rightarrow> int \<Rightarrow> int result" where
  "columns_row_count [] rows = Inr rows"
| "columns_row_count ((t, c) # cs) rows =
     rbind (row_count c) (\<lambda>c_rows.
       if rows = - 1 then columns_row_count cs c_rows
       else if c_rows \<noteq> rows then Inl (FitsError ''Columns do not have the same number of rows.'')
       else columns_row_count cs rows)"

fun read_each ::
  "'f cfitsio \<Rightarrow> 'f bintable_api \<Rightarrow> file_mem_segments \<Rightarrow> column_key list \<Rightarrow> typed_column list \<Rightarrow>
     ('f, column_key list \<times> typed_column list) hio" where
  "read_each api bt rows (key # keys) (tc # tcs) =
     io_bind (key_index api bt key) (\<lambda>(i, k).
     io_bind (read_segment_to api bt rows (key_of_index i) tc) (\<lambda>tc'.
     io_bind (read_each api bt rows keys tcs) (\<lambda>(ks, tcs'). io_return (k # ks, tc' # tcs'))))"
| "read_each api bt rows keys [] = io_return (keys, [])"
| "read_each api bt rows [] (tc # tcs) = io_throw Undefined"

partial_function (option) read_seq_loop ::
  "'f cfitsio \<Rightarrow> 'f bintable_api \<Rightarrow> int \<Rightarrow> int \<Rightarrow> segment \<Rightarrow> segment \<Rightarrow> column_key list \<Rightarrow> typed_column list \<Rightarrow> 'f \<times> hdu \<Rightarrow>
     (('f \<times> hdu) \<times> typed_column list result) option" where
  "read_seq_loop api bt buffer_size last_mem_row fil mem keys tcs s =
     (if seg_front mem \<le> last_mem_row
      then let mem' = (if seg_back mem > last_mem_row then mem\<lparr>seg_back := last_mem_row\<rparr> else mem) in
           case read_each api bt (fms_of_memory (seg_front fil) mem') keys tcs s of (s', r) \<Rightarrow>
             (case r of
                Inl e \<Rightarrow> Some (s', Inl e)
              | Inr p \<Rightarrow> read_seq_loop api bt buffer_size last_mem_row (seg_plus fil buffer_size) (seg_plus mem' buffer_size)
                          (fst p) (snd p) s')
      else Some (s, Inr tcs))"

definition read_segment_seq_to ::
  "'f cfitsio \<Rightarrow> 'f bintable_api \<Rightarrow> file_mem_segments \<Rightarrow> column_key list \<Rightarrow> typed_column list \<Rightarrow> 'f \<times> hdu \<Rightarrow>
     (('f \<times> hdu) \<times> typed_column list result) option" where
  "read_segment_seq_to api bt rows keys tcs s =
     (case io_bind (read_buffer_row_count bt) (\<lambda>buffer_size.
           io_bind (io_lift (columns_row_count tcs (- 1))) (\<lambda>n.
           io_bind (columns_read_row_count api) (\<lambda>m. io_return (buffer_size, fms_resolve (m - 1) (n - 1) rows)))) s of
        (s', Inl e) \<Rightarrow> Some (s', Inl e)
      | (s', Inr (buffer_size, rows')) \<Rightarrow>
          read_seq_loop api bt buffer_size (seg_back (fm_memory rows'))
            (seg_fromSize (seg_front (fm_file rows')) buffer_size) (seg_fromSize (seg_front (fm_memory rows')) buffer_size) keys tcs s')"

definition read_seq_to ::
  "'f cfitsio \<Rightarrow> 'f bintable_api \<Rightarrow> column_key list \<Rightarrow> typed_column list \<Rightarrow> 'f \<times> hdu \<Rightarrow> (('f \<times> hdu) \<times> typed_column list result) option" where
  "read_seq_to api bt keys tcs = read_segment_seq_to api bt (fms_of_memory 0 \<lparr>seg_front = 0, seg_back = - 1\<rparr>) keys tcs"

definition read_segment_seq ::
  "'f cfitsio \<Rightarrow> 'f bintable_api \<Rightarrow> payload \<Rightarrow> segment \<Rightarrow> (value_type \<times> column_key) list \<Rightarrow> 'f \<times> hdu \<Rightarrow>
     (('f \<times> hdu) \<times> typed_column list result) option" where
  "read_segment_seq api bt zero rows keys s =
     (case io_bind (if seg_back rows = - 1 then io_bind (columns_read_row_count api) (\<lambda>n. io_return (rows\<lparr>seg_back := n - 1\<rparr>))
                    else io_return rows) (\<lambda>resolved.
           io_bind (io_map (\<lambda>(t, k). io_bind (columns_read_info api bt t 1 k) (\<lambda>info.
                      io_bind (io_lift (column_zero zero info (seg_size resolved))) (\<lambda>c. io_return (t, c)))) keys) (\<lambda>tcs.
           io_return (resolved, tcs))) s of
        (s', Inl e) \<Rightarrow> Some (s', Inl e)
      | (s', Inr (resolved, tcs)) \<Rightarrow> read_segment_seq_to api bt (fms_of_file resolved 0) (map snd keys) tcs s')"

text \<open>
  All of the rows of several columns, of one type each, or of the same type.  In the latter case the keys are resolved in place.
\<close>

definition read_seq_typed ::
  "'f cfitsio \<Rightarrow> 'f bintable_api \<Rightarrow> payload \<Rightarrow> (value_type \<times> column_key) list \<Rightarrow> 'f \<times> hdu \<Rightarrow> (('f \<times> hdu) \<times> typed_column list result) option" where
  "read_seq_typed api bt zero keys s =
     (case io_bind (columns_read_row_count api) (\<lambda>rows.
           io_map (\<lambda>(t, k). io_bind (columns_read_info api bt t 1 k) (\<lambda>info.
             io_bind (io_lift (column_zero zero info rows)) (\<lambda>c. io_return (t, c)))) keys) s of
        (s', Inl e) \<Rightarrow> Some (s', Inl e)
      | (s', Inr tcs) \<Rightarrow> read_seq_to api bt (map snd keys) tcs s')"

definition read_seq ::
  "'f cfitsio \<Rightarrow> 'f bintable_api \<Rightarrow> payload \<Rightarrow> value_type \<Rightarrow> int \<Rightarrow> column_key list \<Rightarrow> 'f \<times> hdu \<Rightarrow> (('f \<times> hdu) \<times> typed_column list result) option" where
  "read_seq api bt zero t N keys s =
     (case io_bind (columns_read_row_count api) (\<lambda>rows.
           io_map (\<lambda>k. io_bind (key_index api bt k) (\<lambda>(i, k').
             io_bind (columns_read_info api bt t N (key_of_index i)) (\<lambda>info.
             io_bind (io_lift (column_zero zero info rows)) (\<lambda>c. io_return (k', t, c))))) keys) s of
        (s', Inl e) \<Rightarrow> Some (s', Inl e)
      | (s', Inr ktcs) \<Rightarrow> read_seq_to api bt (map fst ktcs) (map snd ktcs) s')"

text \<open>The overloads that take the name of a column as its key.\<close>

definition read_segment_to_named :: "'f cfitsio \<Rightarrow> 'f bintable_api \<Rightarrow> file_mem_segments \<Rightarrow> typed_column \<Rightarrow> ('f, typed_column) hio" where
  "read_segment_to_named api bt rows tc = read_segment_to api bt rows (key_of_name (ci_name (m_info (snd tc)))) tc"

definition read_seq_to_named ::
  "'f cfitsio \<Rightarrow> 'f bintable_api \<Rightarrow> typed_column list \<Rightarrow> 'f \<times> hdu \<Rightarrow> (('f \<times> hdu) \<times> typed_column list result) option" where
  "read_seq_to_named api bt tcs = read_seq_to api bt (map (\<lambda>tc. key_of_name (ci_name (m_info (snd tc)))) tcs) tcs"

definition read_segment_seq_to_named ::
  "'f cfitsio \<Rightarrow> 'f bintable_api \<Rightarrow> file_mem_segments \<Rightarrow> typed_column list \<Rightarrow> 'f \<times> hdu \<Rightarrow> (('f \<times> hdu) \<times> typed_column list result) option" where
  "read_segment_seq_to_named api bt rows tcs = read_segment_seq_to api bt rows (map (\<lambda>tc. key_of_name (ci_name (m_info (snd tc)))) tcs) tcs"

section \<open>Writing\<close>

definition write_segment :: "'f cfitsio \<Rightarrow> 'f bintable_api \<Rightarrow> file_mem_segments \<Rightarrow> typed_column \<Rightarrow> ('f, unit) hio" where
  "write_segment api bt rows = (\<lambda>(t, c).
     io_then (edit api)
     (io_bind (columns_read_row_count api) (\<lambda>n.
      io_bind (io_lift (row_count c)) (\<lambda>m.
      let rows' = fms_resolve (n - 1) (m - 1) rows in
      io_bind (columns_read_index api bt (ci_name (m_info c))) (\<lambda>index.
      on_file (write_column_data bt t (seg_add (fm_file rows') 1) (index + 1) (repeat_count (m_info c)) (c_data c)
                 (Fits_Column.column_index c (seg_front (fm_memory rows')) 0)))))))"

definition columns_write :: "'f cfitsio \<Rightarrow> 'f bintable_api \<Rightarrow> typed_column \<Rightarrow> ('f, unit) hio" where
  "columns_write api bt tc = write_segment api bt (fms_of_memory 0 \<lparr>seg_front = 0, seg_back = - 1\<rparr>) tc"

definition unit_record :: "int \<Rightarrow> string \<Rightarrow> payload fits_record" where
  "unit_record i u = record_init (''TUNIT'' @ to_string i) (StrVal u) [] ''physical unit of field''"

definition columns_init :: "'f cfitsio \<Rightarrow> 'f bintable_api \<Rightarrow> value_type \<Rightarrow> column_info \<Rightarrow> int \<Rightarrow> ('f, unit) hio" where
  "columns_init api bt t info index =
     io_then (edit api)
     (io_bind (io_lift (case tform t (repeat_count info) of None \<Rightarrow> Inl Undefined | Some s \<Rightarrow> Inr s)) (\<lambda>form.
      on_file (io_bind (if index = - 1 then io_bind (io_read (io_column_count api)) (\<lambda>n. io_return (n + 1)) else io_return (index + 1)) (\<lambda>i.
        io_then (checked (bt_insert_col bt i (ci_name info) form) (''Cannot init new column: #'' @ to_string index))
          (if ci_unit info \<noteq> [] then update_record_string api (unit_record i (ci_unit info)) else io_return ())))))"

fun write_units :: "'f cfitsio \<Rightarrow> int \<Rightarrow> column_info list \<Rightarrow> ('f, unit) io" where
  "write_units api i [] = io_return ()"
| "write_units api i (info # infos) =
     io_then (if ci_unit info \<noteq> [] then update_record_string api (unit_record i (ci_unit info)) else io_return ())
       (write_units api (i + 1) infos)"

definition insert_null_seq :: "'f cfitsio \<Rightarrow> 'f bintable_api \<Rightarrow> int \<Rightarrow> (value_type \<times> column_info) list \<Rightarrow> ('f, unit) hio" where
  "insert_null_seq api bt index infos =
     io_then (edit api)
     (io_bind (io_lift (rmap (\<lambda>(t, info). case tform t (repeat_count info) of
         None \<Rightarrow> Inl Undefined | Some s \<Rightarrow> Inr (ci_name info, s)) infos)) (\<lambda>forms.
      on_file (io_bind (if index = - 1 then io_bind (io_read (io_column_count api)) (\<lambda>n. io_return (n + 1)) else io_return (index + 1)) (\<lambda>i.
        io_then (\<lambda>f. (fst (bt_insert_cols bt i forms f), Inr ())) (write_units api i (map snd infos))))))"

partial_function (option) write_seq_loop ::
  "'f cfitsio \<Rightarrow> 'f bintable_api \<Rightarrow> int \<Rightarrow> int \<Rightarrow> segment \<Rightarrow> segment \<Rightarrow> typed_column list \<Rightarrow> 'f \<times> hdu \<Rightarrow> (('f \<times> hdu) \<times> unit result) option" where
  "write_seq_loop api bt buffer_size last_mem_row mem fil tcs s =
     (if seg_front mem \<le> last_mem_row
      then let mem' = (if seg_back mem > last_mem_row then mem\<lparr>seg_back := last_mem_row\<rparr> else mem) in
           case io_foreach (write_segment api bt (fms_of_memory (seg_front fil) mem')) tcs s of (s', r) \<Rightarrow>
             (case r of
                Inl e \<Rightarrow> Some (s', Inl e)
              | Inr _ \<Rightarrow> write_seq_loop api bt buffer_size last_mem_row (seg_plus mem' buffer_size) (seg_plus fil buffer_size) tcs s')
      else Some (s, Inr ()))"

definition write_segment_seq ::
  "'f cfitsio \<Rightarrow> 'f bintable_api \<Rightarrow> file_mem_segments \<Rightarrow> typed_column list \<Rightarrow> 'f \<times> hdu \<Rightarrow> (('f \<times> hdu) \<times> unit result) option" where
  "write_segment_seq api bt rows tcs s =
     (case io_bind (io_lift (columns_row_count tcs (- 1))) (\<lambda>n.
           io_bind (columns_read_row_count api) (\<lambda>m.
           io_bind (read_buffer_row_count bt) (\<lambda>buffer_size. io_return (buffer_size, fms_resolve (m - 1) (n - 1) rows)))) s of
        (s', Inl e) \<Rightarrow> Some (s', Inl e)
      | (s', Inr (buffer_size, rows')) \<Rightarrow>
          write_seq_loop api bt buffer_size (seg_back (fm_memory rows'))
            (seg_fromSize (seg_front (fm_memory rows')) buffer_size) (seg_fromSize (seg_front (fm_file rows')) buffer_size) tcs s')"

definition write_seq :: "'f cfitsio \<Rightarrow> 'f bintable_api \<Rightarrow> typed_column list \<Rightarrow> 'f \<times> hdu \<Rightarrow> (('f \<times> hdu) \<times> unit result) option" where
  "write_seq api bt tcs = write_segment_seq api bt (fms_of_memory 0 \<lparr>seg_front = 0, seg_back = - 1\<rparr>) tcs"

end
