(* ===== verification/Fits_Compression.thy ===== *)
theory Fits_Compression
  imports Fits_TypeCode Fits_Position
begin

text \<open>
  Image compression: scalings, quantization and the algorithms (\<^verbatim>\<open>Scaling.h\<close>, \<^verbatim>\<open>Quantization.h\<close>,
  \<^verbatim>\<open>Compression.h\<close>), the settings sent to and read from CFITSIO (\<^verbatim>\<open>CompressionWrapper.hpp\<close>) and the
  compression actions of a strategy (\<^verbatim>\<open>CompressionStrategy.h\<close>).  Floating point numbers are reals: rounding
  is not modelled.
\<close>

section \<open>Scaling\<close>

datatype scaling_type = Absolute | Factor | Inverse

record scaling =
  sc_type :: scaling_type
  sc_value :: real

definition scaling_init :: "real \<Rightarrow> scaling_type \<Rightarrow> scaling result" where
  "scaling_init v t =
     (if v < 0 then Inl (FitsError ''Scaling value must be positive or null'') else Inr \<lparr>sc_type = t, sc_value = v\<rparr>)"

definition scaling_default :: scaling where
  "scaling_default = \<lparr>sc_type = Factor, sc_value = 1\<rparr>"

definition scaling_bool :: "scaling \<Rightarrow> bool" where
  "scaling_bool s \<longleftrightarrow> sc_value s \<noteq> 0"

definition is_identity :: "scaling \<Rightarrow> bool" where
  "is_identity s = (if sc_type s = Absolute then False else sc_value s = 1)"

definition scaling_eq :: "scaling \<Rightarrow> scaling \<Rightarrow> bool" where
  "scaling_eq lhs rhs =
     (if \<not> scaling_bool lhs \<and> \<not> scaling_bool rhs then True
      else if sc_type lhs = sc_type rhs then sc_value lhs = sc_value rhs
      else if sc_type lhs = Absolute \<or> sc_type rhs = Absolute then False
      else sc_value lhs = 1 / sc_value rhs)"

definition scaling_neq :: "scaling \<Rightarrow> scaling \<Rightarrow> bool" where
  "scaling_neq lhs rhs \<longleftrightarrow> \<not> scaling_eq lhs rhs"

definition scaling_times :: "scaling \<Rightarrow> real \<Rightarrow> scaling result" where
  "scaling_times s v =
     (if v \<le> 0 then Inl (FitsError ''Scaling multiplication requires positive value'')
      else Inr (if is_identity s then \<lparr>sc_type = Factor, sc_value = v\<rparr>
                else if sc_type s = Absolute \<or> sc_type s = Factor then s\<lparr>sc_value := sc_value s * v\<rparr>
                else s\<lparr>sc_value := sc_value s / v\<rparr>))"

definition scaling_divide :: "scaling \<Rightarrow> real \<Rightarrow> scaling result" where
  "scaling_divide s v =
     (if v \<le> 0 then Inl (FitsError ''Scaling division requires positive value'')
      else Inr (if is_identity s then \<lparr>sc_type = Inverse, sc_value = v\<rparr>
                else if sc_type s = Absolute \<or> sc_type s = Factor then s\<lparr>sc_value := sc_value s / v\<rparr>
                else s\<lparr>sc_value := sc_value s * v\<rparr>))"

section \<open>Quantization\<close>

datatype dithering = NoDithering | NonZeroPixel | EveryPixel

record quantization =
  q_level :: scaling
  q_dithering :: dithering

definition set_dithering :: "dithering \<Rightarrow> quantization \<Rightarrow> quantization result" where
  "set_dithering method q =
     (if \<not> scaling_bool (q_level q) \<and> method \<noteq> NoDithering
      then Inl (FitsError ''Cannot set dithering method when quantization is deactivated'')
      else Inr (q\<lparr>q_dithering := method\<rparr>))"

definition quantization_init :: "scaling \<Rightarrow> dithering \<Rightarrow> quantization result" where
  "quantization_init level method = set_dithering method \<lparr>q_level = level, q_dithering = NoDithering\<rparr>"

definition quantization_of :: "scaling \<Rightarrow> quantization result" where
  "quantization_of level = quantization_init level (if scaling_bool level then EveryPixel else NoDithering)"

definition quantization_none :: quantization where
  "quantization_none = \<lparr>q_level = \<lparr>sc_type = Absolute, sc_value = 0\<rparr>, q_dithering = NoDithering\<rparr>"

definition set_level :: "scaling \<Rightarrow> quantization \<Rightarrow> quantization" where
  "set_level level q =
     (let q' = q\<lparr>q_level := level\<rparr> in if \<not> scaling_bool level then q'\<lparr>q_dithering := NoDithering\<rparr> else q')"

definition quantization_bool :: "quantization \<Rightarrow> bool" where
  "quantization_bool q = scaling_bool (q_level q)"

definition quantization_eq :: "quantization \<Rightarrow> quantization \<Rightarrow> bool" where
  "quantization_eq lhs rhs \<longleftrightarrow> scaling_eq (q_level lhs) (q_level rhs) \<and> q_dithering lhs = q_dithering rhs"

section \<open>Algorithms\<close>

datatype compression_type = Lossless | LosslessInts | Lossy

definition tile_rms :: scaling where
  "tile_rms = scaling_default"

definition tile_rowwise :: "int \<Rightarrow> position" where
  "tile_rowwise rows = [- 1, rows]"

definition tile_whole :: position where
  "tile_whole = [- 1]"

datatype algorithm = NoCompression | Gzip | ShuffledGzip | Rice | HCompress | Plio

text \<open>The members of \<^verbatim>\<open>Compression\<close>, with those of \<^verbatim>\<open>HCompress\<close>, which the other algorithms leave at their defaults.\<close>

record compression =
  c_algo :: algorithm
  c_tiling :: position
  c_quantization :: quantization
  c_scale :: scaling
  c_smooth :: bool

definition compression_init :: "algorithm \<Rightarrow> position \<Rightarrow> quantization \<Rightarrow> compression result" where
  "compression_init a tiling q =
     rbind (out_of_bounds_may_throw ''Tiling dimension error'' (int (length tiling)) (0, 6)) (\<lambda>_.
       Inr \<lparr>c_algo = a, c_tiling = tiling, c_quantization = q, c_scale = \<lparr>sc_type = Absolute, sc_value = 0\<rparr>, c_smooth = False\<rparr>)"

definition set_quantization :: "quantization \<Rightarrow> compression \<Rightarrow> compression result" where
  "set_quantization q c =
     (case c_algo c of
        NoCompression \<Rightarrow> Inl (FitsError ''Cannot set quantization for diabled compression'')
      | HCompress \<Rightarrow>
          if q_dithering q = NonZeroPixel
          then Inl (FitsError ''H-compress does not support non-zero pixel dithering'')
          else Inr (c\<lparr>c_quantization := q\<rparr>)
      | _ \<Rightarrow> Inr (c\<lparr>c_quantization := q\<rparr>))"

definition set_tiling :: "position \<Rightarrow> compression \<Rightarrow> compression result" where
  "set_tiling tiling c =
     (if c_algo c = NoCompression then Inl (FitsError ''Cannot set tiling for diabled compression'')
      else Inr (c\<lparr>c_tiling := tiling\<rparr>))"

definition no_compression :: compression where
  "no_compression =
     \<lparr>c_algo = NoCompression, c_tiling = [], c_quantization = quantization_none,
      c_scale = \<lparr>sc_type = Absolute, sc_value = 0\<rparr>, c_smooth = False\<rparr>"

definition hcompress_init :: "position \<Rightarrow> quantization \<Rightarrow> scaling \<Rightarrow> compression result" where
  "hcompress_init tiling q scale =
     rbind (compression_init HCompress tiling q) (\<lambda>c. set_quantization q (c\<lparr>c_scale := scale\<rparr>))"

definition is_lossless :: "compression \<Rightarrow> bool" where
  "is_lossless c =
     (if c_algo c = HCompress \<and> scaling_bool (c_scale c) then False else \<not> quantization_bool (c_quantization c))"

definition set_scaling :: "scaling \<Rightarrow> compression \<Rightarrow> compression" where
  "set_scaling scale c = c\<lparr>c_scale := scale\<rparr>"

definition enable_smoothing :: "compression \<Rightarrow> compression" where
  "enable_smoothing c = c\<lparr>c_smooth := True\<rparr>"

definition disable_smoothing :: "compression \<Rightarrow> compression" where
  "disable_smoothing c = c\<lparr>c_smooth := False\<rparr>"

section \<open>The settings of CFITSIO\<close>

record 'f compression_api =
  cp_get_type :: "'f \<Rightarrow> int \<times> int"
  cp_set_type :: "int \<Rightarrow> 'f \<Rightarrow> 'f \<times> int"
  cp_get_tile_dim :: "int \<Rightarrow> 'f \<Rightarrow> position \<times> int"
  cp_set_tile_dim :: "position \<Rightarrow> 'f \<Rightarrow> 'f \<times> int"
  cp_get_quantize_level :: "'f \<Rightarrow> real \<times> int"
  cp_set_quantize_level :: "real \<Rightarrow> 'f \<Rightarrow> 'f \<times> int"
  cp_set_lossy_int :: "bool \<Rightarrow> 'f \<Rightarrow> 'f \<times> int"
  cp_set_quantize_dither :: "int \<Rightarrow> 'f \<Rightarrow> 'f \<times> int"
  cp_get_hcomp_scale :: "'f \<Rightarrow> real \<times> int"
  cp_set_hcomp_scale :: "real \<Rightarrow> 'f \<Rightarrow> 'f \<times> int"
  cp_set_hcomp_smooth :: "bool \<Rightarrow> 'f \<Rightarrow> 'f \<times> int"

definition MAX_COMPRESS_DIM :: int where "MAX_COMPRESS_DIM = 6"

fun algorithm_code :: "algorithm \<Rightarrow> int" where
  "algorithm_code NoCompression = 0"
| "algorithm_code Rice = 11"
| "algorithm_code Gzip = 21"
| "algorithm_code ShuffledGzip = 22"
| "algorithm_code Plio = 31"
| "algorithm_code HCompress = 41"

fun dithering_code :: "dithering \<Rightarrow> int" where
  "dithering_code NoDithering = - 1"
| "dithering_code EveryPixel = 1"
| "dithering_code NonZeroPixel = 2"

definition is_compressing :: "'f compression_api \<Rightarrow> 'f \<Rightarrow> bool result" where
  "is_compressing cp f =
     (case cp_get_type cp f of (a, st) \<Rightarrow> rbind (cfitsio_may_throw st ''Cannot read compression type'') (\<lambda>_. Inr (a \<noteq> 0)))"

definition quantize_value :: "scaling \<Rightarrow> real" where
  "quantize_value s = (case sc_type s of Absolute \<Rightarrow> - sc_value s | Factor \<Rightarrow> 1 / sc_value s | Inverse \<Rightarrow> sc_value s)"

definition hcomp_value :: "scaling \<Rightarrow> real" where
  "hcomp_value s = (case sc_type s of Absolute \<Rightarrow> - sc_value s | Factor \<Rightarrow> sc_value s | Inverse \<Rightarrow> 1 / sc_value s)"

definition send_tiling :: "'f compression_api \<Rightarrow> position \<Rightarrow> ('f, unit) io" where
  "send_tiling cp shape = checked (cp_set_tile_dim cp shape) ''Cannot set compression tiling''"

definition send_quantize :: "'f compression_api \<Rightarrow> quantization \<Rightarrow> ('f, unit) io" where
  "send_quantize cp q =
     io_then (checked (cp_set_quantize_level cp (quantize_value (q_level q))) ''Cannot set quantization level'')
     (io_then (checked (cp_set_lossy_int cp (quantization_bool q)) ''Cannot set lossy integer compression flag'')
      (checked (cp_set_quantize_dither cp (dithering_code (q_dithering q))) ''Cannot set dithering method''))"

definition algorithm_label :: "algorithm \<Rightarrow> string" where
  "algorithm_label a =
     (case a of NoCompression \<Rightarrow> ''NoCompression'' | Gzip \<Rightarrow> ''Gzip'' | ShuffledGzip \<Rightarrow> ''ShuffledGzip''
      | Rice \<Rightarrow> ''Rice'' | HCompress \<Rightarrow> ''HCompress'' | Plio \<Rightarrow> ''Plio'')"

definition compress :: "'f compression_api \<Rightarrow> compression \<Rightarrow> ('f, unit) io" where
  "compress cp c =
     io_then (checked (cp_set_type cp (algorithm_code (c_algo c))) (''Cannot set compression type to '' @ algorithm_label (c_algo c)))
     (if c_algo c = NoCompression then io_return ()
      else io_then (send_tiling cp (c_tiling c))
          (io_then (send_quantize cp (c_quantization c))
           (if c_algo c = HCompress
            then io_then (checked (cp_set_hcomp_scale cp (hcomp_value (c_scale c))) ''Cannot set H-compress scale'')
                   (checked (cp_set_hcomp_smooth cp (c_smooth c)) ''Cannot set H-compress smoothing recommendation'')
            else io_return ())))"

text \<open>\<^verbatim>\<open>scale <= 0 ? Scaling(-scale) : Tile::rms / scale\<close>, and its H-compress variant.\<close>

definition level_of_value :: "real \<Rightarrow> scaling result" where
  "level_of_value v = (if v \<le> 0 then scaling_init (- v) Absolute else scaling_divide tile_rms v)"

definition scale_of_value :: "real \<Rightarrow> scaling result" where
  "scale_of_value v = (if v \<le> 0 then scaling_init (- v) Absolute else scaling_times tile_rms v)"

definition get_compression :: "'f compression_api \<Rightarrow> 'f \<Rightarrow> compression result" where
  "get_compression cp f =
     (case cp_get_type cp f of (code, st) \<Rightarrow>
      rbind (cfitsio_may_throw st ''Cannot read compression type'') (\<lambda>_.
      if code = 0 then Inr no_compression
      else case cp_get_tile_dim cp MAX_COMPRESS_DIM f of (tiling, st) \<Rightarrow>
      rbind (cfitsio_may_throw st ''Cannot read compression tiling'') (\<lambda>_.
      case cp_get_quantize_level cp f of (level, st) \<Rightarrow>
      rbind (level_of_value level) (\<lambda>s.
      rbind (quantization_of s) (\<lambda>q.
      rbind (cfitsio_may_throw st ''Cannot read compression quantization'') (\<lambda>_.
      if code = 11 then compression_init Rice tiling q
      else if code = 41
      then rbind (rd tiling 0) (\<lambda>t0. rbind (rd tiling 1) (\<lambda>t1.
           rbind (hcompress_init [t0, t1] q \<lparr>sc_type = Absolute, sc_value = 0\<rparr>) (\<lambda>out.
           case cp_get_hcomp_scale cp f of (v, st) \<Rightarrow>
           rbind (cfitsio_may_throw st ''Cannot read H-compress scaling'') (\<lambda>_.
           rbind (scale_of_value v) (\<lambda>scale. Inr (set_scaling scale out))))))
      else if code = 31 then compression_init Plio tiling q
      else if code = 21 then compression_init Gzip tiling q
      else if code = 22 then compression_init ShuffledGzip tiling q
      else Inl (FitsError ''Unknown compression type'')))))))"

section \<open>Compression actions\<close>

text \<open>\<^verbatim>\<open>ImageHdu::Initializer\<close>: the shape, and the pixels if they are known (only integer pixels are looked at).\<close>

record initializer =
  init_shape :: position
  init_data :: "int list option"

fun sizeof :: "value_type \<Rightarrow> int" where
  "sizeof TChar = 1" | "sizeof TUChar = 1" | "sizeof TBool = 1"
| "sizeof TShort = 2" | "sizeof TUShort = 2"
| "sizeof TInt = 4" | "sizeof TUInt = 4" | "sizeof TFloat = 4"
| "sizeof t = 8"

definition is_integral :: "value_type \<Rightarrow> bool" where
  "is_integral t \<longleftrightarrow> int_range t \<noteq> None \<or> t = TBool"

definition is_floating_point :: "value_type \<Rightarrow> bool" where
  "is_floating_point t \<longleftrightarrow> t = TFloat \<or> t = TDouble"

definition type_bitpix :: "value_type \<Rightarrow> int" where
  "type_bitpix t = (if is_integral t then 8 * sizeof t else if is_floating_point t then - 8 * sizeof t else 0)"

definition hcompress_fits :: "position \<Rightarrow> bool result" where
  "hcompress_fits shape =
     (if shapeSize shape < 2 then Inr False
      else rbind (rd shape 0) (\<lambda>s0. if s0 < 4 then Inr False else rbind (rd shape 1) (\<lambda>s1. Inr (\<not> s1 < 4))))"

definition can_compress :: "value_type \<Rightarrow> compression \<Rightarrow> initializer \<Rightarrow> bool result" where
  "can_compress t c init =
     (case c_algo c of
        Rice \<Rightarrow> Inr (is_integral t \<or> \<not> is_lossless c)
      | HCompress \<Rightarrow>
          rbind (hcompress_fits (init_shape init)) (\<lambda>b. Inr (b \<and> (is_integral t \<or> \<not> is_lossless c)))
      | Plio \<Rightarrow>
          if type_bitpix t < 0 \<or> type_bitpix t > 32 then Inr False
          else if type_bitpix t > 16
          then case init_data init of
                 None \<Rightarrow> Inr False
               | Some vs \<Rightarrow> if vs = [] then Inl Undefined else Inr (\<not> Max (set vs) \<ge> 2 ^ 24)
          else Inr True
      | _ \<Rightarrow> Inr True)"

definition compression_for :: "value_type \<Rightarrow> compression \<Rightarrow> initializer \<Rightarrow> compression option result" where
  "compression_for t c init =
     (if type_bitpix t = 64 then Inr None
      else if shapeSize (init_shape init) * sizeof t \<le> 2880 then Inr None
      else rbind (can_compress t c init) (\<lambda>b. Inr (if b then Some c else None)))"

definition compress_apply :: "'f compression_api \<Rightarrow> value_type \<Rightarrow> compression \<Rightarrow> initializer \<Rightarrow> ('f, bool) io" where
  "compress_apply cp t c init =
     io_bind (io_lift (compression_for t c init)) (\<lambda>algo.
       case algo of Some c \<Rightarrow> io_then (compress cp c) (io_return True) | None \<Rightarrow> io_return False)"

section \<open>Automatic choice\<close>

definition auto_quantization :: "compression_type \<Rightarrow> value_type \<Rightarrow> quantization result" where
  "auto_quantization m_type t =
     (if is_integral t
      then if m_type \<noteq> Lossy then quantization_of \<lparr>sc_type = Absolute, sc_value = 0\<rparr>
           else rbind (scaling_divide tile_rms 4) (\<lambda>s. rbind (quantization_of s) (set_dithering NonZeroPixel))
      else if m_type = Lossless then quantization_of \<lparr>sc_type = Absolute, sc_value = 0\<rparr>
           else rbind (scaling_divide tile_rms 16) quantization_of)"

definition auto_tiling :: "value_type \<Rightarrow> initializer \<Rightarrow> position result" where
  "auto_tiling t init =
     (if shapeSize (init_shape init) \<le> 1024 * 1024 then Inr tile_whole
      else rbind (rd (init_shape init) 0) (\<lambda>w. Inr [w, (1024 * 1024) div (w * sizeof t) + 1]))"

fun first_rows :: "int \<Rightarrow> int list \<Rightarrow> int option" where
  "first_rows h [] = None"
| "first_rows h (r # rs) = (if h mod r = 0 \<or> h mod r \<ge> 4 then Some r else first_rows h rs)"

definition hcompress_tiling :: "initializer \<Rightarrow> position result" where
  "hcompress_tiling init =
     rbind (rd (init_shape init) 1) (\<lambda>h.
       if h \<le> 30 then Inr tile_whole
       else case first_rows h [16, 24, 20, 30, 28, 26, 22, 18, 14] of
              Some rows \<Rightarrow> Inr (tile_rowwise rows)
            | None \<Rightarrow> Inr (tile_rowwise 17))"

definition hcompress_scaling :: "compression_type \<Rightarrow> value_type \<Rightarrow> scaling result" where
  "hcompress_scaling m_type t =
     (if (is_integral t \<and> m_type \<noteq> Lossy) \<or> (\<not> is_integral t \<and> m_type = Lossless)
      then scaling_init 0 Absolute else scaling_times tile_rms (5 / 2))"

definition auto_gzip :: "compression_type \<Rightarrow> value_type \<Rightarrow> initializer \<Rightarrow> compression result" where
  "auto_gzip m_type t init =
     rbind (auto_tiling t init) (\<lambda>tiling. rbind (auto_quantization m_type t) (compression_init ShuffledGzip tiling))"

definition auto_rice :: "compression_type \<Rightarrow> value_type \<Rightarrow> initializer \<Rightarrow> compression option result" where
  "auto_rice m_type t init =
     (if is_floating_point t \<and> m_type = Lossless then Inr None
      else rbind (auto_tiling t init) (\<lambda>tiling.
           rbind (auto_quantization m_type t) (\<lambda>q. rbind (compression_init Rice tiling q) (\<lambda>c. Inr (Some c)))))"

definition auto_hcompress :: "compression_type \<Rightarrow> value_type \<Rightarrow> initializer \<Rightarrow> compression option result" where
  "auto_hcompress m_type t init =
     (if is_floating_point t \<and> m_type = Lossless then Inr None
      else rbind (hcompress_fits (init_shape init)) (\<lambda>b.
      if \<not> b then Inr None
      else rbind (auto_quantization m_type t) (\<lambda>q0.
           rbind (if q_dithering q0 = NonZeroPixel then set_dithering EveryPixel q0 else Inr q0) (\<lambda>q.
           rbind (hcompress_tiling init) (\<lambda>tiling.
           rbind (hcompress_scaling m_type t) (\<lambda>scale.
           rbind (hcompress_init tiling q scale) (\<lambda>c. Inr (Some c))))))))"

definition auto_plio :: "value_type \<Rightarrow> initializer \<Rightarrow> compression option result" where
  "auto_plio t init =
     (if type_bitpix t \<noteq> 8 then Inr None
      else rbind (auto_tiling t init) (\<lambda>tiling. rbind (compression_init Plio tiling quantization_none) (\<lambda>c. Inr (Some c))))"

text \<open>The algorithm that \<^verbatim>\<open>CompressAuto::apply\<close> settles on.\<close>

definition auto_algorithm :: "compression_type \<Rightarrow> value_type \<Rightarrow> initializer \<Rightarrow> compression result" where
  "auto_algorithm m_type t init =
     rbind (auto_plio t init) (\<lambda>p. case p of Some c \<Rightarrow> Inr c | None \<Rightarrow>
     rbind (auto_hcompress m_type t init) (\<lambda>h. case h of Some c \<Rightarrow> Inr c | None \<Rightarrow>
     rbind (auto_rice m_type t init) (\<lambda>r. case r of Some c \<Rightarrow> Inr c | None \<Rightarrow> auto_gzip m_type t init)))"

datatype compression_action =
    Compress compression | CompressInts compression | CompressFloats compression | CompressAuto compression_type

fun action_apply :: "'f compression_api \<Rightarrow> value_type \<Rightarrow> initializer \<Rightarrow> compression_action \<Rightarrow> ('f, bool) io" where
  "action_apply cp t init (Compress c) = compress_apply cp t c init"
| "action_apply cp t init (CompressInts c) = (if \<not> is_integral t then io_return False else compress_apply cp t c init)"
| "action_apply cp t init (CompressFloats c) = (if \<not> is_floating_point t then io_return False else compress_apply cp t c init)"
| "action_apply cp t init (CompressAuto m) =
     io_bind (io_lift (auto_algorithm m t init)) (\<lambda>c. compress_apply cp t c init)"

fun strategy_compress :: "'f compression_api \<Rightarrow> value_type \<Rightarrow> initializer \<Rightarrow> compression_action list \<Rightarrow> ('f, bool) io" where
  "strategy_compress cp t init [] = io_then (compress_apply cp t no_compression init) (io_return False)"
| "strategy_compress cp t init (a # as) =
     io_bind (action_apply cp t init a) (\<lambda>b. if b then io_return True else strategy_compress cp t init as)"

section \<open>What scalings mean\<close>

definition scaling_effect :: "scaling \<Rightarrow> real \<Rightarrow> real" where
  "scaling_effect s reference =
     (case sc_type s of Absolute \<Rightarrow> sc_value s | Factor \<Rightarrow> reference * sc_value s | Inverse \<Rightarrow> reference / sc_value s)"

lemma scaling_eq_effect: "scaling_eq s t \<longleftrightarrow> (\<forall>x > 0. scaling_effect s x = scaling_effect t x)"
proof
  assume "scaling_eq s t"
  then show "\<forall>x > 0. scaling_effect s x = scaling_effect t x"
    by (cases "sc_type s"; cases "sc_type t")
       (auto simp: scaling_eq_def scaling_bool_def scaling_effect_def split: if_splits)
next
  assume a: "\<forall>x > 0. scaling_effect s x = scaling_effect t x"
  have "scaling_effect s 1 = scaling_effect t 1" "scaling_effect s 2 = scaling_effect t 2"
    using a by simp_all
  then show "scaling_eq s t"
    by (cases "sc_type s"; cases "sc_type t"; cases "sc_value s = 0"; cases "sc_value t = 0")
       (simp_all add: scaling_eq_def scaling_bool_def scaling_effect_def field_simps)
qed

text \<open>
  Two scalings compare equal exactly when they stand for the same value whatever the reference, and multiplying
  or dividing a scaling by a positive number multiplies or divides that value, whichever way the scaling is represented;
  other numbers are rejected.
\<close>

theorem scaling_semantics:
  "(scaling_eq s t \<longleftrightarrow> (\<forall>x > 0. scaling_effect s x = scaling_effect t x)) \<and>
   (0 < k \<longrightarrow> (\<exists>u v. scaling_times s k = Inr u \<and> scaling_divide s k = Inr v \<and>
      (\<forall>x. scaling_effect u x = k * scaling_effect s x \<and> scaling_effect v x = scaling_effect s x / k))) \<and>
   (k \<le> 0 \<longrightarrow> (\<exists>m n. scaling_times s k = Inl (FitsError m) \<and> scaling_divide s k = Inl (FitsError n)))"
proof (intro conjI impI)
  show "scaling_eq s t \<longleftrightarrow> (\<forall>x > 0. scaling_effect s x = scaling_effect t x)"
    by (rule scaling_eq_effect)
next
  assume "0 < k"
  then show "\<exists>u v. scaling_times s k = Inr u \<and> scaling_divide s k = Inr v \<and>
      (\<forall>x. scaling_effect u x = k * scaling_effect s x \<and> scaling_effect v x = scaling_effect s x / k)"
    by (cases "sc_type s") (auto simp: scaling_times_def scaling_divide_def is_identity_def scaling_effect_def)
qed (simp add: scaling_times_def scaling_divide_def)

section \<open>Automatic choice\<close>

lemma scaling_bool_zero [simp]: "\<not> scaling_bool \<lparr>sc_type = a, sc_value = 0\<rparr>"
  by (simp add: scaling_bool_def)

lemma quantization_zero [simp]: "quantization_of \<lparr>sc_type = Absolute, sc_value = 0\<rparr> = Inr quantization_none"
  by (simp add: quantization_of_def quantization_init_def set_dithering_def quantization_none_def scaling_bool_def)

lemma auto_quantization_Inr:
  "\<exists>q. auto_quantization m t = Inr q \<and>
     ((m = Lossless \<or> m = LosslessInts \<and> is_integral t) \<longrightarrow> q = quantization_none) \<and> (q_dithering q = NonZeroPixel \<longrightarrow> quantization_bool q)"
  by (auto simp: auto_quantization_def quantization_of_def quantization_init_def set_dithering_def scaling_divide_def tile_rms_def
      scaling_default_def is_identity_def scaling_bool_def quantization_none_def quantization_bool_def)

lemma compression_init_Inr [simp]:
  "length tiling \<le> 6 \<Longrightarrow> compression_init a tiling q = Inr \<lparr>c_algo = a, c_tiling = tiling, c_quantization = q,
     c_scale = \<lparr>sc_type = Absolute, sc_value = 0\<rparr>, c_smooth = False\<rparr>"
  by (simp add: compression_init_def)

lemma auto_tiling_Inr:
  assumes "init_shape init \<noteq> []"
  shows "\<exists>tiling. auto_tiling t init = Inr tiling \<and> length tiling \<le> 6"
  using assms by (auto simp: auto_tiling_def tile_whole_def rd_def)

lemma hcompress_tiling_Inr:
  assumes "2 \<le> length (init_shape init)"
  shows "\<exists>tiling. hcompress_tiling init = Inr tiling \<and> length tiling \<le> 6"
  using assms by (auto simp: hcompress_tiling_def tile_whole_def tile_rowwise_def rd_def split: option.splits)

lemma hcompress_scaling_Inr:
  "\<exists>s. hcompress_scaling m t = Inr s \<and> ((m = Lossless \<or> m = LosslessInts \<and> is_integral t) \<longrightarrow> \<not> scaling_bool s)"
  by (auto simp: hcompress_scaling_def scaling_init_def scaling_times_def scaling_bool_def)

lemma hcompress_fits_Inr:
  assumes "2 \<le> length shape"
  shows "\<exists>b. hcompress_fits shape = Inr b"
  using assms by (auto simp: hcompress_fits_def rd_def)

lemma auto_hcompress_Inr:
  assumes "2 \<le> length (init_shape init)"
  shows "\<exists>r. auto_hcompress m t init = Inr r \<and>
     (\<forall>c. r = Some c \<longrightarrow> (m = Lossless \<or> m = LosslessInts \<and> is_integral t) \<longrightarrow> is_lossless c)"
proof -
  obtain q where q: "auto_quantization m t = Inr q" "(m = Lossless \<or> m = LosslessInts \<and> is_integral t) \<longrightarrow> q = quantization_none"
    "q_dithering q = NonZeroPixel \<longrightarrow> quantization_bool q"
    using auto_quantization_Inr by blast
  obtain s where s: "hcompress_scaling m t = Inr s" "(m = Lossless \<or> m = LosslessInts \<and> is_integral t) \<longrightarrow> \<not> scaling_bool s"
    using hcompress_scaling_Inr by blast
  obtain tiling where g: "hcompress_tiling init = Inr tiling" "length tiling \<le> 6"
    using hcompress_tiling_Inr [OF assms] by blast
  obtain b where b: "hcompress_fits (init_shape init) = Inr b"
    using hcompress_fits_Inr [OF assms] by blast
  show ?thesis
    using q s g b
    by (auto simp: auto_hcompress_def hcompress_init_def set_quantization_def set_dithering_def quantization_bool_def is_lossless_def quantization_none_def)
qed

lemma auto_algorithm_Inr:
  assumes "2 \<le> length (init_shape init)"
  shows "\<exists>c. auto_algorithm m t init = Inr c \<and>
     ((m = Lossless \<or> m = LosslessInts \<and> is_integral t) \<longrightarrow> is_lossless c)"
proof -
  obtain q where q: "auto_quantization m t = Inr q" "(m = Lossless \<or> m = LosslessInts \<and> is_integral t) \<longrightarrow> q = quantization_none"
    using auto_quantization_Inr by blast
  obtain tiling where g: "auto_tiling t init = Inr tiling" "length tiling \<le> 6"
    using auto_tiling_Inr [of init t] assms by (cases "init_shape init") auto
  obtain r where h: "auto_hcompress m t init = Inr r"
    "\<forall>c. r = Some c \<longrightarrow> (m = Lossless \<or> m = LosslessInts \<and> is_integral t) \<longrightarrow> is_lossless c"
    using auto_hcompress_Inr [OF assms] by blast
  show ?thesis
    using q g h
    by (cases r) (auto simp: auto_algorithm_def auto_plio_def auto_rice_def auto_gzip_def is_lossless_def quantization_none_def
        quantization_bool_def scaling_bool_def)
qed

text \<open>
  C19: for an image of two axes or more, \<^verbatim>\<open>CompressAuto\<close> always settles on an algorithm, without an exception, and that algorithm
  is lossless whenever losslessness was asked for: for \<^verbatim>\<open>Lossless\<close> whatever the pixel type, for
  \<^verbatim>\<open>LosslessInts\<close> if the pixels are integers.
\<close>

theorem auto_compression_keeps_promise:
  assumes "2 \<le> length (init_shape init)"
  shows "\<exists>c. auto_algorithm m t init = Inr c \<and>
     ((m = Lossless \<or> m = LosslessInts \<and> is_integral t) \<longrightarrow> is_lossless c)"
  by (rule auto_algorithm_Inr [OF assms])

text \<open>
  For an image of one axis, unless the pixels are bytes, or floating point numbers to be compressed without loss, or
  the axis is shorter than four pixels, \<^verbatim>\<open>CompressAuto\<close> reads the length of a second axis that does not exist.
\<close>

theorem auto_compression_one_axis:
  "auto_algorithm m t \<lparr>init_shape = [n], init_data = d\<rparr> = Inl Undefined \<longleftrightarrow>
     type_bitpix t \<noteq> 8 \<and> \<not> (is_floating_point t \<and> m = Lossless) \<and> 4 \<le> n"
proof -
  obtain q where q: "auto_quantization m t = Inr q"
    using auto_quantization_Inr by blast
  obtain tiling where g: "auto_tiling t \<lparr>init_shape = [n], init_data = d\<rparr> = Inr tiling" "length tiling \<le> 6"
    using auto_tiling_Inr [of "\<lparr>init_shape = [n], init_data = d\<rparr>"] by auto
  show ?thesis
    using q g
    by (auto simp: auto_algorithm_def auto_plio_def auto_hcompress_def auto_rice_def auto_gzip_def hcompress_fits_def shapeSize_def rd_def
        split: if_splits)
qed


theorem scaling_semantics_witness:
  "\<exists>u v. scaling_times \<lparr>sc_type = Inverse, sc_value = 4\<rparr> 2 = Inr u \<and> scaling_divide \<lparr>sc_type = Inverse, sc_value = 4\<rparr> 2 = Inr v \<and>
     scaling_effect u 8 = 4"
proof -
  let ?s = "\<lparr>sc_type = Inverse, sc_value = 4\<rparr>"
  obtain u v where "scaling_times ?s 2 = Inr u" "scaling_divide ?s 2 = Inr v" "\<forall>x. scaling_effect u x = 2 * scaling_effect ?s x"
    using scaling_semantics [of ?s scaling_default 2, THEN conjunct2, THEN conjunct1, THEN mp] by auto
  moreover have "scaling_effect ?s 8 = 2"
    by (simp add: scaling_effect_def)
  ultimately show ?thesis
    by simp
qed

theorem auto_compression_keeps_promise_witness:
  "\<exists>c. auto_algorithm Lossless TInt \<lparr>init_shape = [100, 100], init_data = None\<rparr> = Inr c \<and> is_lossless c"
  using auto_compression_keeps_promise [of "\<lparr>init_shape = [100, 100], init_data = None\<rparr>" Lossless TInt] by auto

section \<open>Settings\<close>

lemma compress_apply_small:
  assumes "type_bitpix t = 64 \<or> shapeSize (init_shape init) * sizeof t \<le> 2880"
  shows "compress_apply cp t c init f = (f, Inr False)"
  using assms by (auto simp: compress_apply_def compression_for_def io_bind_apply)

text \<open>
  Whatever the compression strategy of a file, compressing an image of 64-bit integers or of one block or less sends no
  setting to CFITSIO at all: the end of the strategy, meant to disable compression, is itself skipped for
  such images, so that they inherit the compression requested for the previous image.
\<close>

theorem small_image_inherits_compression:
  assumes "type_bitpix t = 64 \<or> shapeSize (init_shape init) * sizeof t \<le> 2880"
    and "\<forall>m. CompressAuto m \<in> set as \<longrightarrow> 2 \<le> length (init_shape init)"
  shows "strategy_compress cp t init as f = (f, Inr False) \<and>
         is_compressing cp (fst (strategy_compress cp t init as f)) = is_compressing cp f"
proof -
  have one: "action_apply cp t init a f = (f, Inr False)" if mem: "a \<in> set as" for a
  proof (cases a)
    case (CompressAuto m)
    then obtain c where "auto_algorithm m t init = Inr c"
      using auto_algorithm_Inr assms(2) mem by blast
    then show ?thesis
      using CompressAuto compress_apply_small [OF assms(1)] by (simp add: io_bind_apply)
  qed (simp_all add: compress_apply_small [OF assms(1)])
  then have "strategy_compress cp t init as f = (f, Inr False)"
    by (induction as) (simp_all add: io_then_def io_bind_apply compress_apply_small [OF assms(1)])
  then show ?thesis by simp
qed


text \<open>What CFITSIO documents of its setters: each of them stores its argument for the getter, and leaves the other settings alone.\<close>

definition settings_of :: "'f compression_api \<Rightarrow> 'f \<Rightarrow> (int \<times> int) \<times> (position \<times> int) \<times> (real \<times> int) \<times> (real \<times> int)" where
  "settings_of cp f =
     (cp_get_type cp f, cp_get_tile_dim cp MAX_COMPRESS_DIM f, cp_get_quantize_level cp f, cp_get_hcomp_scale cp f)"

definition settings_kept :: "'f compression_api \<Rightarrow> bool" where
  "settings_kept cp \<longleftrightarrow>
     (\<forall>a f t q h o1. settings_of cp f = (o1, t, q, h) \<longrightarrow> (\<exists>f'. cp_set_type cp a f = (f', 0) \<and> settings_of cp f' = ((a, 0), t, q, h))) \<and>
     (\<forall>s f a q h o1. settings_of cp f = (a, o1, q, h) \<longrightarrow> length s \<le> 6 \<longrightarrow>
        (\<exists>f' ts. cp_set_tile_dim cp s f = (f', 0) \<and> length ts = 6 \<and> take (length s) ts = s \<and> settings_of cp f' = (a, (ts, 0), q, h))) \<and>
     (\<forall>v f a t h o1. settings_of cp f = (a, t, o1, h) \<longrightarrow> (\<exists>f'. cp_set_quantize_level cp v f = (f', 0) \<and> settings_of cp f' = (a, t, (v, 0), h))) \<and>
     (\<forall>b f. \<exists>f'. cp_set_lossy_int cp b f = (f', 0) \<and> settings_of cp f' = settings_of cp f) \<and>
     (\<forall>d f. \<exists>f'. cp_set_quantize_dither cp d f = (f', 0) \<and> settings_of cp f' = settings_of cp f) \<and>
     (\<forall>v f a t q o1. settings_of cp f = (a, t, q, o1) \<longrightarrow> (\<exists>f'. cp_set_hcomp_scale cp v f = (f', 0) \<and> settings_of cp f' = (a, t, q, (v, 0)))) \<and>
     (\<forall>b f. \<exists>f'. cp_set_hcomp_smooth cp b f = (f', 0) \<and> settings_of cp f' = settings_of cp f)"

lemma settings_keptD:
  assumes "settings_kept cp"
  shows "settings_of cp f = (o1, t, q, h) \<Longrightarrow> \<exists>f'. cp_set_type cp a f = (f', 0) \<and> settings_of cp f' = ((a, 0), t, q, h)"
    and "settings_of cp f = (x, o2, q, h) \<Longrightarrow> length s \<le> 6 \<Longrightarrow>
      \<exists>f' ts. cp_set_tile_dim cp s f = (f', 0) \<and> length ts = 6 \<and> take (length s) ts = s \<and> settings_of cp f' = (x, (ts, 0), q, h)"
    and "settings_of cp f = (x, t, o3, h) \<Longrightarrow> \<exists>f'. cp_set_quantize_level cp v f = (f', 0) \<and> settings_of cp f' = (x, t, (v, 0), h)"
    and "\<exists>f'. cp_set_lossy_int cp b f = (f', 0) \<and> settings_of cp f' = settings_of cp f"
    and "\<exists>f'. cp_set_quantize_dither cp d f = (f', 0) \<and> settings_of cp f' = settings_of cp f"
    and "settings_of cp f = (x, t, q, o3) \<Longrightarrow> \<exists>f'. cp_set_hcomp_scale cp v f = (f', 0) \<and> settings_of cp f' = (x, t, q, (v, 0))"
    and "\<exists>f'. cp_set_hcomp_smooth cp b f = (f', 0) \<and> settings_of cp f' = settings_of cp f"
  using assms unfolding settings_kept_def by meson+

lemma send_quantize_kept:
  assumes k: "settings_kept cp" and s: "settings_of cp f = (a, t, o1, h)"
  shows "\<exists>f'. send_quantize cp q f = (f', Inr ()) \<and> settings_of cp f' = (a, t, (quantize_value (q_level q), 0), h)"
proof -
  obtain f1 where 1: "cp_set_quantize_level cp (quantize_value (q_level q)) f = (f1, 0)" "settings_of cp f1 = (a, t, (quantize_value (q_level q), 0), h)"
    using settings_keptD(3) [OF k s] by blast
  obtain f2 where 2: "cp_set_lossy_int cp (quantization_bool q) f1 = (f2, 0)" "settings_of cp f2 = settings_of cp f1"
    using settings_keptD(4) [OF k] by blast
  obtain f3 where 3: "cp_set_quantize_dither cp (dithering_code (q_dithering q)) f2 = (f3, 0)" "settings_of cp f3 = settings_of cp f2"
    using settings_keptD(5) [OF k] by blast
  show ?thesis
    using 1 2 3 by (simp add: send_quantize_def io_then_def io_bind_apply checked_def)
qed

lemma compress_kept:
  assumes k: "settings_kept cp" and c: "c_algo c \<noteq> NoCompression" "length (c_tiling c) \<le> 6"
  shows "\<exists>f' ts h. compress cp c f = (f', Inr ()) \<and> length ts = 6 \<and> take (length (c_tiling c)) ts = c_tiling c \<and>
     settings_of cp f' = ((algorithm_code (c_algo c), 0), (ts, 0), (quantize_value (q_level (c_quantization c)), 0), h) \<and>
     (c_algo c = HCompress \<longrightarrow> h = (hcomp_value (c_scale c), 0))"
proof -
  obtain o1 t q h where s0: "settings_of cp f = (o1, t, q, h)"
    by (metis prod_cases4)
  obtain f1 where 1: "cp_set_type cp (algorithm_code (c_algo c)) f = (f1, 0)" "settings_of cp f1 = ((algorithm_code (c_algo c), 0), t, q, h)"
    using settings_keptD(1) [OF k s0] by blast
  obtain f2 ts where 2: "cp_set_tile_dim cp (c_tiling c) f1 = (f2, 0)" "length ts = 6" "take (length (c_tiling c)) ts = c_tiling c"
    "settings_of cp f2 = ((algorithm_code (c_algo c), 0), (ts, 0), q, h)"
    using settings_keptD(2) [OF k 1(2) c(2)] by blast
  obtain f3 where 3: "send_quantize cp (c_quantization c) f2 = (f3, Inr ())"
    "settings_of cp f3 = ((algorithm_code (c_algo c), 0), (ts, 0), (quantize_value (q_level (c_quantization c)), 0), h)"
    using send_quantize_kept [OF k 2(4)] by blast
  obtain f4 where 4: "cp_set_hcomp_scale cp (hcomp_value (c_scale c)) f3 = (f4, 0)"
    "settings_of cp f4 = ((algorithm_code (c_algo c), 0), (ts, 0), (quantize_value (q_level (c_quantization c)), 0), (hcomp_value (c_scale c), 0))"
    using settings_keptD(6) [OF k 3(2)] by blast
  obtain f5 where 5: "cp_set_hcomp_smooth cp (c_smooth c) f4 = (f5, 0)" "settings_of cp f5 = settings_of cp f4"
    using settings_keptD(7) [OF k] by blast
  have run: "compress cp c f = (if c_algo c = HCompress then (f5, Inr ()) else (f3, Inr ()))"
    using 1(1) 2(1) 3(1) 4(1) 5(1) c(1) by (simp add: compress_def io_then_def io_bind_apply checked_def send_tiling_def)
  show ?thesis
    using run 2(2,3) 3(2) 4(2) 5(2) by (cases "c_algo c = HCompress") auto
qed

definition valid_level :: "scaling \<Rightarrow> bool" where
  "valid_level s \<longleftrightarrow> 0 \<le> sc_value s \<and> (sc_type s = Factor \<longrightarrow> 0 < sc_value s)"

definition valid_scale :: "scaling \<Rightarrow> bool" where
  "valid_scale s \<longleftrightarrow> 0 \<le> sc_value s \<and> (sc_type s = Inverse \<longrightarrow> 0 < sc_value s)"

lemma level_roundtrip: "valid_level s \<Longrightarrow> \<exists>s'. level_of_value (quantize_value s) = Inr s' \<and> scaling_eq s s' \<and> scaling_bool s' = scaling_bool s"
  by (cases "sc_type s")
     (auto simp: level_of_value_def quantize_value_def valid_level_def scaling_init_def scaling_divide_def tile_rms_def scaling_default_def
       is_identity_def scaling_eq_def scaling_bool_def)

lemma scale_roundtrip: "valid_scale s \<Longrightarrow> \<exists>s'. scale_of_value (hcomp_value s) = Inr s' \<and> scaling_eq s s'"
  by (cases "sc_type s")
     (auto simp: scale_of_value_def hcomp_value_def valid_scale_def scaling_init_def scaling_times_def tile_rms_def scaling_default_def
       is_identity_def scaling_eq_def scaling_bool_def)

lemma quantization_of_Inr:
  "quantization_of s = Inr \<lparr>q_level = s, q_dithering = (if scaling_bool s then EveryPixel else NoDithering)\<rparr>"
  by (simp add: quantization_of_def quantization_init_def set_dithering_def)


text \<open>The settings of CFITSIO as a record: the type, the tiling, the quantization level, the H-compress scale.\<close>

record settings =
  set_type :: int
  set_tile :: position
  set_quant :: real
  set_hscale :: real

definition mem_settings :: "settings compression_api" where
  "mem_settings =
     \<lparr>cp_get_type = \<lambda>f. (set_type f, 0), cp_set_type = \<lambda>a f. (f\<lparr>set_type := a\<rparr>, 0),
      cp_get_tile_dim = \<lambda>n f. (set_tile f @ replicate (nat n - length (set_tile f)) 1, 0),
      cp_set_tile_dim = \<lambda>s f. (f\<lparr>set_tile := s\<rparr>, 0),
      cp_get_quantize_level = \<lambda>f. (set_quant f, 0), cp_set_quantize_level = \<lambda>v f. (f\<lparr>set_quant := v\<rparr>, 0),
      cp_set_lossy_int = \<lambda>b f. (f, 0), cp_set_quantize_dither = \<lambda>d f. (f, 0),
      cp_get_hcomp_scale = \<lambda>f. (set_hscale f, 0), cp_set_hcomp_scale = \<lambda>v f. (f\<lparr>set_hscale := v\<rparr>, 0),
      cp_set_hcomp_smooth = \<lambda>b f. (f, 0)\<rparr>"

theorem small_image_inherits_compression_witness:
  "is_compressing mem_settings
     (fst (strategy_compress mem_settings TShort \<lparr>init_shape = [10, 10], init_data = None\<rparr> []
             \<lparr>set_type = 11, set_tile = [], set_quant = 0, set_hscale = 0\<rparr>)) = Inr True"
  using small_image_inherits_compression [of TShort "\<lparr>init_shape = [10, 10], init_data = None\<rparr>" "[]" mem_settings
      "\<lparr>set_type = 11, set_tile = [], set_quant = 0, set_hscale = 0\<rparr>"]
  by (simp add: shapeSize_def is_compressing_def mem_settings_def)

lemma mem_settings_kept: "settings_kept mem_settings"
  by (auto simp: settings_kept_def settings_of_def mem_settings_def MAX_COMPRESS_DIM_def)


end
