(* ===== verification/Fits_Mef.thy ===== *)
theory Fits_Mef
  imports Fits_File Fits_Bintable Fits_Compression
begin

text \<open>
  Multi-extension files: \<^verbatim>\<open>MefFile\<close> with its lazily created HDU handlers, the iteration over HDUs
  (\<^verbatim>\<open>HduIterator\<close>, \<^verbatim>\<open>HduSelector\<close>), the strategy of the file, and the copy of images.
\<close>

section \<open>The file handler\<close>

text \<open>
  \<^verbatim>\<open>m_hdus\<close> holds a null pointer for each HDU that has not been accessed.  A reference to a handler is its
  index there.
\<close>

record 'f mef_file = "'f fits_file" +
  m_hdus :: "hdu option list"
  m_compression :: "compression_action list"
  m_actions :: "action list"

type_synonym ('f, 'a) mio = "('f mef_file, 'a) io"

definition mef_hdu_count :: "'f mef_file \<Rightarrow> int" where
  "mef_hdu_count s = int (length (m_hdus s))"

text \<open>CFITSIO calls on \<^verbatim>\<open>m_fptr\<close> and method calls on a handler; a null pointer is undefined behaviour.\<close>

definition with_fptr :: "('f, 'a) io \<Rightarrow> ('f, 'a) mio" where
  "with_fptr m = (\<lambda>s. case m_fptr s of
     None \<Rightarrow> (s, Inl Undefined)
   | Some f \<Rightarrow> (case m f of (f', r) \<Rightarrow> (s\<lparr>m_fptr := Some f'\<rparr>, r)))"

definition with_hdu :: "nat \<Rightarrow> ('f, 'a) hio \<Rightarrow> ('f, 'a) mio" where
  "with_hdu i m = (\<lambda>s.
     case (m_fptr s, if i < length (m_hdus s) then m_hdus s ! i else None) of
       (Some f, Some h) \<Rightarrow> (case m (f, h) of ((f', h'), r) \<Rightarrow> (s\<lparr>m_fptr := Some f', m_hdus := (m_hdus s)[i := Some h']\<rparr>, r))
     | _ \<Rightarrow> (s, Inl Undefined))"

text \<open>\<^verbatim>\<open>Hdu::as<T>\<close> is a \<^verbatim>\<open>dynamic_cast\<close>; the dynamic type follows \<^verbatim>\<open>m_type\<close>.\<close>

definition cast_handler :: "handler_class \<Rightarrow> hdu \<Rightarrow> unit result" where
  "cast_handler cls h =
     (if cls \<in> {ClassHdu, ClassHeader} \<or>
         (cls \<in> {ClassImageHdu, ClassImageRaster} \<and> m_type h = Image) \<or>
         (cls \<in> {ClassBintableHdu, ClassBintableColumns} \<and> m_type h = Bintable)
      then Inr () else Inl BadCast)"

section \<open>Access\<close>

definition reset_hdu :: "nat \<Rightarrow> hdu \<Rightarrow> ('f, unit) mio" where
  "reset_hdu i h = (\<lambda>s. (s\<lparr>m_hdus := (m_hdus s)[i := Some h]\<rparr>, Inr ()))"

text \<open>The handler at a given index, created and notified to the strategy at the first access.\<close>

definition access_handler :: "'f cfitsio \<Rightarrow> handler_class \<Rightarrow> int \<Rightarrow> category \<Rightarrow> ('f, nat) mio" where
  "access_handler api cls index hdu_type = (\<lambda>s.
     if index < 0 \<or> index \<ge> mef_hdu_count s then (s, Inl Undefined)
     else io_then (if m_hdus s ! nat index = None
                   then io_then (reset_hdu (nat index) (hdu_init index hdu_type Untouched))
                          (with_hdu (nat index) (strategy_accessed api (m_actions s)))
                   else io_return ())
          (io_then (with_hdu (nat index) (\<lambda>(f, h). ((f, h), cast_handler cls h)))
            (io_return (nat index))) s)"

definition mef_access :: "'f cfitsio \<Rightarrow> handler_class \<Rightarrow> int \<Rightarrow> ('f, nat) mio" where
  "mef_access api cls index0 = (\<lambda>s.
     let index = (if index0 < 0 then index0 + mef_hdu_count s else index0) in
     io_then (with_fptr (goto_index api (index + 1)))
     (io_bind (with_fptr (io_read (current_type api))) (access_handler api cls index)) s)"

definition mef_subscript :: "'f cfitsio \<Rightarrow> int \<Rightarrow> ('f, nat) mio" where
  "mef_subscript api index = mef_access api ClassHdu index"

definition mef_primary :: "'f cfitsio \<Rightarrow> ('f, nat) mio" where
  "mef_primary api = mef_access api ClassImageHdu 0"

definition mef_find :: "'f cfitsio \<Rightarrow> handler_class \<Rightarrow> string \<Rightarrow> int \<Rightarrow> ('f, nat) mio" where
  "mef_find api cls n version =
     io_then (with_fptr (goto_name api n version (forClass cls)))
     (io_bind (with_fptr (io_read (\<lambda>f. Inr (current_index api f)))) (\<lambda>i. mef_access api cls (i - 1)))"

fun mef_search :: "'f cfitsio \<Rightarrow> category \<Rightarrow> string \<Rightarrow> int \<Rightarrow> nat list \<Rightarrow> nat option \<Rightarrow> ('f, nat option) mio" where
  "mef_search api c n version [] found = io_return found"
| "mef_search api c n version (i # is) found =
     io_bind (mef_access api ClassHdu (int i)) (\<lambda>i.
     io_bind (with_hdu i (\<lambda>(f, h). ((f, h), Inr (c = Any \<or> m_type h = c)))) (\<lambda>c_match.
     io_bind (if \<not> c_match then io_return False else if n = [] then io_return True
              else io_bind (with_hdu i (read_name api)) (\<lambda>n'. io_return (n' = n))) (\<lambda>cn_match.
     io_bind (if \<not> cn_match then io_return False else if version = 0 then io_return True
              else io_bind (with_hdu i (read_version api)) (\<lambda>v. io_return (v = version))) (\<lambda>cnv_match.
     if cnv_match
     then if found \<noteq> None then io_throw (FitsError ''Several HDU matches.'')
          else mef_search api c n version is (Some i)
     else mef_search api c n version is found))))"

definition mef_access_named :: "'f cfitsio \<Rightarrow> handler_class \<Rightarrow> string \<Rightarrow> int \<Rightarrow> ('f, nat) mio" where
  "mef_access_named api cls n version = (\<lambda>s.
     io_bind (mef_search api (forClass cls) n version [0..<length (m_hdus s)] None) (\<lambda>found.
     case found of
       None \<Rightarrow> io_throw (FitsError ''No HDU match.'')
     | Some i \<Rightarrow> io_then (with_hdu i (\<lambda>(f, h). ((f, h), cast_handler cls h))) (io_return i)) s)"

definition read_hdu_names :: "'f cfitsio \<Rightarrow> ('f, string list) mio" where
  "read_hdu_names api = (\<lambda>s.
     io_map (\<lambda>i. io_bind (mef_access api ClassHdu (int i)) (\<lambda>i. with_hdu i (read_name api))) [0..<length (m_hdus s)] s)"

definition read_hdu_names_versions :: "'f cfitsio \<Rightarrow> ('f, (string \<times> int) list) mio" where
  "read_hdu_names_versions api = (\<lambda>s.
     io_map (\<lambda>i. io_bind (mef_access api ClassHdu (int i)) (\<lambda>i.
                 io_bind (with_hdu i (read_name api)) (\<lambda>n.
                 io_bind (with_hdu i (read_version api)) (\<lambda>v. io_return (n, v))))) [0..<length (m_hdus s)] s)"

section \<open>Iteration\<close>

text \<open>
  \<^verbatim>\<open>HduIterator::next\<close> and the range-based loop over a selector.  The first argument is fuel; \<open>None\<close> is the
  value of a loop that still runs when it is spent.
\<close>

fun hdu_next :: "nat \<Rightarrow> 'f cfitsio \<Rightarrow> hdu_filter \<Rightarrow> int \<Rightarrow> ('f, int option) mio" where
  "hdu_next 0 api flt index = io_return None"
| "hdu_next (Suc fuel) api flt index = (\<lambda>s.
     if index + 1 \<ge> mef_hdu_count s then (s, Inr (Some (mef_hdu_count s)))
     else io_bind (mef_subscript api (index + 1)) (\<lambda>i.
          io_bind (with_hdu i (hdu_matches api flt)) (\<lambda>b.
          if b then io_return (Some (index + 1)) else hdu_next fuel api flt (index + 1))) s)"

fun hdu_visit :: "nat \<Rightarrow> nat \<Rightarrow> 'f cfitsio \<Rightarrow> hdu_filter \<Rightarrow> (nat \<Rightarrow> ('f, unit) mio) \<Rightarrow> int \<Rightarrow> int option \<Rightarrow> ('f, unit option) mio" where
  "hdu_visit n fuel api flt body stop None = io_return None"
| "hdu_visit 0 fuel api flt body stop (Some it) = io_return None"
| "hdu_visit (Suc n) fuel api flt body stop (Some it) =
     (if it = stop then io_return (Some ())
      else io_then (body (nat it)) (io_bind (hdu_next fuel api flt it) (hdu_visit n fuel api flt body stop)))"

definition hdu_loop :: "'f cfitsio \<Rightarrow> hdu_filter \<Rightarrow> (nat \<Rightarrow> ('f, unit) mio) \<Rightarrow> ('f, unit option) mio" where
  "hdu_loop api flt body = (\<lambda>s.
     let fuel = Suc (length (m_hdus s)) in
     io_bind (hdu_next fuel api flt (- 1)) (hdu_visit fuel fuel api flt body (mef_hdu_count s)) s)"

definition mef_filter :: "handler_class \<Rightarrow> hdu_filter \<Rightarrow> hdu_filter result" where
  "mef_filter cls flt = filter_times flt (forClass cls)"

section \<open>Opening and closing\<close>

datatype strategy_item =
    ItemAction action | ItemAlgorithm compression | ItemCompression compression_action
  | ItemStrategy "compression_action list" "action list"

fun strategy_push_back :: "strategy_item \<Rightarrow> 'f mef_file \<Rightarrow> 'f mef_file" where
  "strategy_push_back (ItemStrategy cs as) s = s\<lparr>m_compression := m_compression s @ cs, m_actions := m_actions s @ as\<rparr>"
| "strategy_push_back (ItemAlgorithm c) s = s\<lparr>m_compression := m_compression s @ [Compress c]\<rparr>"
| "strategy_push_back (ItemCompression c) s = s\<lparr>m_compression := m_compression s @ [c]\<rparr>"
| "strategy_push_back (ItemAction a) s = s\<lparr>m_actions := m_actions s @ [a]\<rparr>"

definition strategy_append :: "strategy_item list \<Rightarrow> 'f mef_file \<Rightarrow> 'f mef_file" where
  "strategy_append items s = fold strategy_push_back items s"

definition strategy_clear :: "'f mef_file \<Rightarrow> 'f mef_file" where
  "strategy_clear s = s\<lparr>m_compression := [], m_actions := []\<rparr>"

definition finish :: "('f, unit option) mio \<Rightarrow> ('f, unit) mio" where
  "finish m = io_bind m (\<lambda>r. case r of None \<Rightarrow> io_throw Undefined | Some _ \<Rightarrow> io_return ())"

definition opened_all :: "'f cfitsio \<Rightarrow> ('f, unit) mio" where
  "opened_all api = (\<lambda>s. finish (hdu_loop api (filter_of Any) (\<lambda>i. with_hdu i (strategy_opened (m_actions s)))) s)"

definition closing_all :: "'f cfitsio \<Rightarrow> ('f, unit) mio" where
  "closing_all api = (\<lambda>s. finish (hdu_loop api (filter_of Any) (\<lambda>i. with_hdu i (strategy_closing api (m_actions s)))) s)"

definition mef_init ::
  "('w, 'f) storage \<Rightarrow> 'f cfitsio \<Rightarrow> string \<Rightarrow> string \<Rightarrow> file_mode \<Rightarrow> strategy_item list \<Rightarrow> 'w \<Rightarrow> ('w \<times> 'f mef_file) \<times> unit result" where
  "mef_init fs api date filename permission items w =
     (case file_init fs api filename permission w of
        ((w', fl), r) \<Rightarrow>
          let base = fits_file.extend fl \<lparr>m_hdus = [], m_compression = [], m_actions = []\<rparr> in
          (case rbind r (\<lambda>_. case m_fptr fl of None \<Rightarrow> Inl Undefined | Some f \<Rightarrow> hdu_count api f) of
             Inl e \<Rightarrow> ((w', base), Inl e)
           | Inr n \<Rightarrow>
               let s0 = base\<lparr>m_hdus := replicate (nat (max 1 n)) None\<rparr>;
                   s1 = (if permission \<noteq> Read then strategy_append [ItemAction (CiteEleFits date)] s0 else s0) in
               if items = [] then ((w', s1), Inr ())
               else (case opened_all api (strategy_append items s1) of (s2, r2) \<Rightarrow> ((w', s2), r2))))"

definition on_mef :: "('f, 'a) mio \<Rightarrow> ('w \<times> 'f mef_file, 'a) io" where
  "on_mef m = (\<lambda>(w, s). case m s of (s', r) \<Rightarrow> ((w, s'), r))"

definition mef_open_impl :: "('w, 'f) storage \<Rightarrow> 'f cfitsio \<Rightarrow> string \<Rightarrow> file_mode \<Rightarrow> ('w \<times> 'f mef_file, unit) io" where
  "mef_open_impl fs api filename permission =
     io_then (open_impl fs api filename permission) (on_mef (opened_all api))"

definition mef_close_impl :: "('w, 'f) storage \<Rightarrow> 'f cfitsio \<Rightarrow> ('w \<times> 'f mef_file, unit) io" where
  "mef_close_impl fs api = (\<lambda>(w, s).
     if \<not> is_open s then ((w, s), Inr ())
     else io_then (on_mef (closing_all api)) (close_impl fs api) (w, s))"

section \<open>Appending and removing HDUs\<close>

definition push_hdu :: "category \<Rightarrow> ('f, nat) mio" where
  "push_hdu t = (\<lambda>s.
     (s\<lparr>m_hdus := m_hdus s @ [Some (hdu_init (mef_hdu_count s) t Created)]\<rparr>, Inr (length (m_hdus s))))"

definition append_image_header ::
  "'f cfitsio \<Rightarrow> value_type \<Rightarrow> string \<Rightarrow> variant fits_record list \<Rightarrow> ('f, nat) mio" where
  "append_image_header api t n records =
     io_then (with_fptr (init_image api t n []))
     (io_bind (push_hdu Image) (\<lambda>i.
      io_then (\<lambda>s. with_hdu i (strategy_created (m_actions s)) s)
      (io_then (with_hdu i (header_write_seq api CreateOrUpdate records)) (io_return i))))"

definition payload_int :: "payload \<Rightarrow> int" where
  "payload_int p = (case p of IntVal i \<Rightarrow> i | _ \<Rightarrow> 0)"

definition append_image ::
  "'f cfitsio \<Rightarrow> ('f, payload) pixel_api \<Rightarrow> 'f compression_api \<Rightarrow> value_type \<Rightarrow> string \<Rightarrow> variant fits_record list \<Rightarrow>
     payload raster \<Rightarrow> ('f, nat) mio" where
  "append_image api px cp t n records ra =
     io_then (\<lambda>s. with_fptr (strategy_compress cp t \<lparr>init_shape = m_shape ra, init_data = Some (map payload_int (m_data ra))\<rparr> (m_compression s)) s)
     (io_then (with_fptr (init_image api t n (m_shape ra)))
     (io_bind (push_hdu Image) (\<lambda>i.
      io_then (\<lambda>s. with_hdu i (strategy_created (m_actions s)) s)
      (io_then (with_hdu i (header_write_seq api CreateOrUpdate records))
      (io_then (with_hdu i (raster_write api px t ra)) (io_return i))))))"

text \<open>
  An image of null pixels: not-a-numbers, or the value of \<^verbatim>\<open>BLANK\<close> once the offset of the pixel type is removed, in the arithmetic of that type.
\<close>

definition type_offset :: "value_type \<Rightarrow> int" where
  "type_offset t =
     (case int_range t of
        None \<Rightarrow> 0
      | Some (lo, hi) \<Rightarrow> if sizeof t = 1 then (if lo < 0 then 128 else 0) else if lo < 0 then 0 else - (2 ^ nat (8 * sizeof t - 1)))"

definition null_pixel ::
  "(value_type \<Rightarrow> real \<Rightarrow> real) \<Rightarrow> payload \<Rightarrow> value_type \<Rightarrow> variant fits_record list \<Rightarrow> payload result" where
  "null_pixel rnd nan t records =
     (if is_floating_point t then Inr nan
      else if recordvec_has records ''BLANK''
      then rbind (recordvec_as (cast_variant rnd t) records ''BLANK'') (\<lambda>blank.
           case int_range t of
             None \<Rightarrow> Inl Undefined
           | Some rng \<Rightarrow> Inr (IntVal (wrap_range rng (payload_int (rec_value blank) - type_offset t))))
      else Inr (IntVal 0))"

definition append_null_image ::
  "'f cfitsio \<Rightarrow> ('f, payload) pixel_api \<Rightarrow> 'f compression_api \<Rightarrow> (value_type \<Rightarrow> real \<Rightarrow> real) \<Rightarrow> payload \<Rightarrow>
     value_type \<Rightarrow> int \<Rightarrow> string \<Rightarrow> variant fits_record list \<Rightarrow> position \<Rightarrow> ('f, nat) mio" where
  "append_null_image api px cp rnd nan t N n records shape =
     io_then (\<lambda>s. with_fptr (strategy_compress cp t \<lparr>init_shape = shape, init_data = None\<rparr> (m_compression s)) s)
     (io_then (with_fptr (init_image api t n shape))
     (io_bind (push_hdu Image) (\<lambda>i.
      io_then (\<lambda>s. with_hdu i (strategy_created (m_actions s)) s)
      (io_then (with_hdu i (header_write_seq api CreateOrUpdate records))
      (io_then (if shapeSize shape \<noteq> 0
                then io_bind (io_lift (rbind (null_pixel rnd nan t records) (\<lambda>v. raster_zero v N shape))) (\<lambda>ra.
                     with_hdu i (raster_write api px t ra))
                else io_return ())
        (io_return i))))))"

text \<open>Binary tables.  \<open>None\<close> is the value of a loop over chunks that does not end.\<close>

definition append_bintable_header ::
  "'f cfitsio \<Rightarrow> 'f bintable_api \<Rightarrow> string \<Rightarrow> variant fits_record list \<Rightarrow> (value_type \<times> column_info) list \<Rightarrow> ('f, nat) mio" where
  "append_bintable_header api bt n records infos =
     io_then (with_fptr (init_bintable bt n infos))
     (io_bind (push_hdu Bintable) (\<lambda>i.
      io_then (\<lambda>s. with_hdu i (strategy_created (m_actions s)) s)
      (io_then (with_hdu i (header_write_seq api CreateOrUpdate records)) (io_return i))))"

definition append_null_bintable ::
  "'f cfitsio \<Rightarrow> 'f bintable_api \<Rightarrow> string \<Rightarrow> variant fits_record list \<Rightarrow> int \<Rightarrow> (value_type \<times> column_info) list \<Rightarrow> ('f, nat) mio" where
  "append_null_bintable api bt n records rows infos =
     io_bind (append_bintable_header api bt n records infos) (\<lambda>i.
     io_then (with_fptr (\<lambda>f. case bt_insert_rows bt 0 rows f of (f1, st1) \<Rightarrow>
         (case after_status st1 (bt_write_nullrows bt 1 rows) f1 of (f2, st2) \<Rightarrow>
            (f2, if st2 \<noteq> 0 then Inl (FitsError (''Cannot write null rows. Error: '' @ to_string st2)) else Inr ()))))
       (io_return i))"

definition with_hdu_loop :: "nat \<Rightarrow> ('f \<times> hdu \<Rightarrow> (('f \<times> hdu) \<times> 'a result) option) \<Rightarrow> 'f mef_file \<Rightarrow> ('f mef_file \<times> 'a result) option" where
  "with_hdu_loop i m s =
     (case (m_fptr s, if i < length (m_hdus s) then m_hdus s ! i else None) of
        (Some f, Some h) \<Rightarrow> map_option (\<lambda>((f', h'), r). (s\<lparr>m_fptr := Some f', m_hdus := (m_hdus s)[i := Some h']\<rparr>, r)) (m (f, h))
      | _ \<Rightarrow> Some (s, Inl Undefined))"

definition append_bintable ::
  "'f cfitsio \<Rightarrow> 'f bintable_api \<Rightarrow> string \<Rightarrow> variant fits_record list \<Rightarrow> typed_column list \<Rightarrow> 'f mef_file \<Rightarrow> ('f mef_file \<times> nat result) option" where
  "append_bintable api bt n records tcs s =
     (case append_bintable_header api bt n records (map (\<lambda>(t, c). (t, m_info c)) tcs) s of
        (s', Inl e) \<Rightarrow> Some (s', Inl e)
      | (s', Inr i) \<Rightarrow> map_option (\<lambda>(s2, r). (s2, rbind r (\<lambda>_. Inr i))) (with_hdu_loop i (write_seq api bt tcs) s'))"

definition append_bintable_tuple ::
  "'f cfitsio \<Rightarrow> 'f bintable_api \<Rightarrow> string \<Rightarrow> variant fits_record list \<Rightarrow> typed_column list \<Rightarrow> 'f mef_file \<Rightarrow> ('f mef_file \<times> nat result) option" where
  "append_bintable_tuple api bt n records tcs s =
     (case m_fptr s of
        None \<Rightarrow> Some (s, Inl Undefined)
      | Some f \<Rightarrow> map_option (\<lambda>(f', r). io_then (io_lift r)
          (io_bind (push_hdu Bintable) (\<lambda>i.
           io_then (\<lambda>s. with_hdu i (strategy_created (m_actions s)) s)
           (io_then (with_hdu i (header_write_seq api CreateOrUpdate records)) (io_return i)))) (s\<lparr>m_fptr := Some f'\<rparr>))
          (assign_bintable bt n tcs f))"

text \<open>
  The copy of an HDU, from the file and the handler of the source.  Tables and, as far as no compression is asked for, raw images
  are copied by CFITSIO, other images are read and appended.
\<close>

definition from_source :: "('g, 'a) hio \<Rightarrow> (('g \<times> hdu) \<times> 'f mef_file, 'a) io" where
  "from_source m = (\<lambda>(src, s). case m src of (src', r) \<Rightarrow> ((src', s), r))"

definition to_file :: "('f, 'a) mio \<Rightarrow> (('g \<times> hdu) \<times> 'f mef_file, 'a) io" where
  "to_file m = (\<lambda>(src, s). case m s of (s', r) \<Rightarrow> ((src, s'), r))"

definition copy_verbatim :: "('g \<Rightarrow> 'f \<Rightarrow> 'f \<times> int) \<Rightarrow> (('g \<times> hdu) \<times> 'f mef_file, unit) io" where
  "copy_verbatim copy = (\<lambda>((g, h), s). to_file (with_fptr (checked (copy g) ''Cannot copy HDU'')) ((g, h), s))"

fun append_copy_as ::
  "'g cfitsio \<Rightarrow> ('g, payload) pixel_api \<Rightarrow> 'f cfitsio \<Rightarrow> ('f, payload) pixel_api \<Rightarrow> 'f compression_api \<Rightarrow> payload \<Rightarrow> (string \<Rightarrow> real result) \<Rightarrow>
     value_type list \<Rightarrow> (('g \<times> hdu) \<times> 'f mef_file, unit) io" where
  "append_copy_as src_api src_px api px cp zero stod [] = io_return ()"
| "append_copy_as src_api src_px api px cp zero stod (t # ts) =
     io_bind (from_source (raster_read_typeid src_api)) (\<lambda>t'.
     io_then (if t' = t
              then io_bind (from_source (read_name src_api)) (\<lambda>n.
                   io_bind (from_source (parse_all src_api stod User)) (\<lambda>rs.
                   io_bind (from_source (raster_read src_api src_px zero t)) (\<lambda>ra.
                   io_then (to_file (append_image api px cp t n rs ra)) (io_return ()))))
              else io_return ())
       (append_copy_as src_api src_px api px cp zero stod ts))"

definition mef_append ::
  "'g cfitsio \<Rightarrow> ('g, payload) pixel_api \<Rightarrow> ('g \<Rightarrow> 'f \<Rightarrow> 'f \<times> int) \<Rightarrow> 'f cfitsio \<Rightarrow> ('f, payload) pixel_api \<Rightarrow> 'f compression_api \<Rightarrow> payload \<Rightarrow>
     (string \<Rightarrow> real result) \<Rightarrow> handler_class \<Rightarrow> (('g \<times> hdu) \<times> 'f mef_file, nat) io" where
  "mef_append src_api src_px copy api px cp zero stod cls = (\<lambda>(src, s).
     io_bind (from_source (hdu_matches src_api (filter_of Bintable))) (\<lambda>table.
     io_then (if table then io_then (copy_verbatim copy) (io_then (to_file (push_hdu Bintable)) (io_return ()))
              else io_bind (from_source (hdu_matches src_api (filter_of RawImage))) (\<lambda>raw.
                   io_bind (if \<not> raw then io_return False
                            else if m_compression s = [] then io_return True
                            else from_source (hdu_matches src_api (filter_of Metadata))) (\<lambda>verbatim.
                   if verbatim then io_then (copy_verbatim copy) (io_then (to_file (push_hdu Image)) (io_return ()))
                   else io_then (from_source (\<lambda>(g, h). ((g, h), cast_handler ClassImageHdu h)))
                          (append_copy_as src_api src_px api px cp zero stod raster_types))))
     (io_bind (to_file (mef_access api cls (mef_hdu_count s))) (\<lambda>i.
      io_then (to_file (\<lambda>s. with_hdu i (strategy_accessed api (m_actions s)) s)) (io_return i)))) (src, s))"

section \<open>Single image files\<close>

text \<open>\<^verbatim>\<open>SifFile\<close>: the handler of the only HDU is a member of the file handler.\<close>

record 'f sif_file = "'f fits_file" +
  sif_hdu :: hdu

definition sif_init :: "('w, 'f) storage \<Rightarrow> 'f cfitsio \<Rightarrow> string \<Rightarrow> file_mode \<Rightarrow> 'w \<Rightarrow> ('w \<times> 'f sif_file) \<times> unit result" where
  "sif_init fs api filename permission w =
     (case file_init fs api filename permission w of
        ((w', fl), r) \<Rightarrow> ((w', fits_file.extend fl \<lparr>sif_hdu = hdu_init 0 Image Untouched\<rparr>), r))"

definition with_sif :: "('f, 'a) hio \<Rightarrow> ('f sif_file, 'a) io" where
  "with_sif m = (\<lambda>s. case m_fptr s of
     None \<Rightarrow> (s, Inl Undefined)
   | Some f \<Rightarrow> (case m (f, sif_hdu s) of ((f', h'), r) \<Rightarrow> (s\<lparr>m_fptr := Some f', sif_hdu := h'\<rparr>, r)))"

definition sif_write ::
  "'f cfitsio \<Rightarrow> ('f, 'a) pixel_api \<Rightarrow> value_type \<Rightarrow> variant fits_record list \<Rightarrow> 'a raster \<Rightarrow> ('f sif_file, unit) io" where
  "sif_write api px t records ra =
     io_then (with_sif (raster_update_type_shape api px t (m_shape ra)))
     (io_then (with_sif (header_write_seq api CreateOrUpdate records)) (with_sif (raster_write api px t ra)))"

definition sif_verify_checksums :: "'f cfitsio \<Rightarrow> ('f sif_file, unit) io" where
  "sif_verify_checksums api = with_sif (verify_checksums api)"

definition sif_update_checksums :: "'f cfitsio \<Rightarrow> ('f sif_file, unit) io" where
  "sif_update_checksums api = with_sif (update_checksums api)"

section \<open>Copying and removing\<close>

text \<open>\<^verbatim>\<open>ImageHdu::operator=\<close>, with the unrolled test of the pixel types.\<close>

fun image_copy_as ::
  "'f cfitsio \<Rightarrow> ('f, 'a) pixel_api \<Rightarrow> 'a \<Rightarrow> nat \<Rightarrow> nat \<Rightarrow> value_type list \<Rightarrow> ('f, unit) mio" where
  "image_copy_as api px zero lhs rhs [] = io_return ()"
| "image_copy_as api px zero lhs rhs (t # ts) =
     io_bind (with_hdu rhs (raster_read_typeid api)) (\<lambda>t'.
     if t' = t
     then io_bind (with_hdu rhs (raster_read api px zero t)) (\<lambda>r.
          io_then (with_hdu lhs (raster_update_type_shape api px t (m_shape r)))
          (if m_data r \<noteq> [] then with_hdu lhs (raster_write api px t r) else io_return ()))
     else image_copy_as api px zero lhs rhs ts)"

definition image_assign ::
  "'f cfitsio \<Rightarrow> ('f, 'a) pixel_api \<Rightarrow> 'a \<Rightarrow> (string \<Rightarrow> real result) \<Rightarrow> nat \<Rightarrow> nat \<Rightarrow> ('f, unit) mio" where
  "image_assign api px zero stod lhs rhs =
     io_bind (with_hdu rhs (read_name api)) (\<lambda>n.
     io_then (with_hdu lhs (update_name api n))
     (io_bind (with_hdu rhs (parse_all api stod User)) (\<lambda>rs.
      io_then (with_hdu lhs (header_write_seq api CreateOrUpdate rs))
      (image_copy_as api px zero lhs rhs raster_types))))"

text \<open>The loop that shifts the indices of the handlers after the erased one.\<close>

fun shift_handlers :: "hdu option list \<Rightarrow> hdu option list result" where
  "shift_handlers [] = Inr []"
| "shift_handlers (None # hs) = Inl Undefined"
| "shift_handlers (Some h # hs) =
     rbind (shift_handlers hs) (\<lambda>hs'. Inr (Some (h\<lparr>m_cfitsio_index := m_cfitsio_index h - 1\<rparr>) # hs'))"

definition erase_hdu :: "int \<Rightarrow> ('f, unit) mio" where
  "erase_hdu index = (\<lambda>s.
     if index < 0 \<or> index \<ge> mef_hdu_count s then (s, Inl Undefined)
     else case shift_handlers (drop (Suc (nat index)) (m_hdus s)) of
            Inl e \<Rightarrow> (s, Inl e)
          | Inr hs \<Rightarrow> (s\<lparr>m_hdus := take (nat index) (m_hdus s) @ hs\<rparr>, Inr ()))"

definition mef_remove_ext :: "'f cfitsio \<Rightarrow> int \<Rightarrow> ('f, unit) mio" where
  "mef_remove_ext api index = io_then (with_fptr (access_remove api (index + 1))) (erase_hdu index)"

definition mef_remove ::
  "'f cfitsio \<Rightarrow> ('f, 'a) pixel_api \<Rightarrow> 'a \<Rightarrow> (string \<Rightarrow> real result) \<Rightarrow> int \<Rightarrow> ('f, unit) mio" where
  "mef_remove api px zero stod index =
     (if index = 0
      then io_bind (mef_access api ClassImageHdu 1) (\<lambda>rhs.
           io_bind (mef_primary api) (\<lambda>lhs.
           io_then (image_assign api px zero stod lhs rhs) (mef_remove_ext api 1)))
      else mef_remove_ext api index)"

end
