(* ===== verification/Fits_MefLaws.thy ===== *)
theory Fits_MefLaws
  imports Fits_Mef
begin

text \<open>
  What the operations of a multi-extension file keep: the index of every handler and the number of HDUs.  The
  iteration over HDUs visits them all in order and ends; removing an HDU keeps the remaining handlers in place.
\<close>

section \<open>What operations keep of a handler\<close>

named_theorems keeps

definition same_index :: "'f \<times> hdu \<Rightarrow> 'f \<times> hdu \<Rightarrow> bool" where
  "same_index fh fh' \<longleftrightarrow> m_cfitsio_index (snd fh') = m_cfitsio_index (snd fh)"

abbreviation keeps_handler :: "('f, 'a) hio \<Rightarrow> bool" where
  "keeps_handler \<equiv> preserves same_index"

interpretation handler_kept: kept_relation same_index
  by unfold_locales (simp_all add: same_index_def)

lemmas keeps_rules [keeps] = handler_kept.preserves_rules

lemma keeps_handler_iff: "keeps_handler m \<longleftrightarrow> (\<forall>f h. m_cfitsio_index (snd (fst (m (f, h)))) = m_cfitsio_index h)"
  by (simp add: preserves_def same_index_def)

lemma keeps_on_file [keeps]: "keeps_handler (on_file m)"
  by (simp add: keeps_handler_iff on_file_def split: prod.splits)

lemma keeps_touch [keeps]: "keeps_handler (touch api)"
  by (auto simp: keeps_handler_iff touch_def io_then_def io_bind_apply on_file_def split: prod.splits sum.splits)

lemma keeps_edit [keeps]: "keeps_handler (edit api)"
proof -
  have "keeps_handler (\<lambda>(f, h). case cat_restrict_assign (m_status h) Edited of
          (Some e, s) \<Rightarrow> ((f, h\<lparr>m_status := s\<rparr>), Inl e)
        | (None, s) \<Rightarrow> ((f, h\<lparr>m_status := s\<rparr>), Inr ()))"
    by (auto simp: keeps_handler_iff split: prod.splits option.splits)
  then show ?thesis
    unfolding edit_def by (intro keeps)
qed

lemma keeps_dispatch [keeps]:
  "keeps_handler m \<Longrightarrow> keeps_handler n \<Longrightarrow> keeps_handler k \<Longrightarrow>
   keeps_handler (\<lambda>(f, h). if P h then m (f, h) else if Q h then n (f, h) else k (f, h))"
  by (simp add: keeps_handler_iff)

lemma keeps_dispatch2 [keeps]:
  "keeps_handler m \<Longrightarrow> keeps_handler n \<Longrightarrow> keeps_handler (\<lambda>(f, h). if P h then m (f, h) else n (f, h))"
  by (simp add: keeps_handler_iff)

lemma keeps_queries [keeps]:
  "keeps_handler (hdu_category api)" "keeps_handler (header_has api k)" "keeps_handler (raster_read_shape api)"
  "keeps_handler (raster_read_typeid api)" "keeps_handler (read_column_count api)" "keeps_handler (read_row_count api)"
  "keeps_handler (read_name api)" "keeps_handler (read_version api)"
  unfolding hdu_category_def header_has_def raster_read_shape_def raster_read_typeid_def read_column_count_def read_row_count_def
    read_name_def read_version_def
  by (intro keeps)+

lemma keeps_size [keeps]: "keeps_handler (raster_read_size api)"
  unfolding raster_read_size_def by (intro keeps)

lemma keeps_matches [keeps]: "keeps_handler (hdu_matches api flt)"
  unfolding hdu_matches_def category_of_handler_def image_category_def bintable_category_def by (intro keeps)

lemma keeps_checksums [keeps]: "keeps_handler (verify_checksums api)" "keeps_handler (update_checksums api)"
  unfolding verify_checksums_def update_checksums_def by (intro keeps)+

lemma keeps_record_writer [keeps]: "keeps_handler (record_writer api mode r)"
  by (cases mode; simp add: keyword_exists_may_throw_def keyword_not_found_may_throw_def; intro keeps)

lemma keeps_writing [keeps]:
  "keeps_handler (header_write_seq api mode rs)" "keeps_handler (header_write_history api x)" "keeps_handler (raster_write api px t ra)"
  unfolding header_write_seq_def header_write_history_def raster_write_def by (intro keeps)+

lemma fst_verify_accessed: "fst (verify_accessed api s) = fst (verify_checksums api s)"
  by (auto simp: verify_accessed_def split: prod.splits sum.splits fits_error.splits)

lemma keeps_verify_accessed [keeps]: "keeps_handler (verify_accessed api)"
  using keeps_checksums(1) [of api] by (simp add: keeps_handler_iff fst_verify_accessed)

lemma keeps_has_checksums [keeps]: "keeps_handler (has_checksums api)"
  unfolding has_checksums_def by (intro keeps)

lemma keeps_action_edited [keeps]: "keeps_handler (action_edited api)"
  unfolding action_edited_def by (intro keeps)

lemma keeps_verify_closing [keeps]: "keeps_handler (verify_closing api mode)"
  by (cases mode; simp only: verify_closing.simps; intro keeps)

lemma keeps_cite [keeps]: "keeps_handler (cite_closing api date)"
  using keeps_dispatch2 [OF keeps_writing(2) handler_kept.preserves_basic(1)] unfolding cite_closing_def io_return_def .

lemma keeps_action [keeps]:
  "keeps_handler (action_accessed api a)" "keeps_handler (action_closing api a)" "keeps_handler (action_opened a)" "keeps_handler (action_created a)"
  by (cases a; simp add: keeps action_opened_def action_created_def)+

lemma keeps_strategy [keeps]:
  "keeps_handler (strategy_accessed api as)" "keeps_handler (strategy_closing api as)" "keeps_handler (strategy_opened as)"
  "keeps_handler (strategy_created as)"
  unfolding strategy_accessed_def strategy_closing_def strategy_opened_def strategy_created_def by (intro keeps)+

section \<open>What operations keep of a file\<close>

definition indexed :: "'f mef_file \<Rightarrow> bool" where
  "indexed s \<longleftrightarrow> (\<forall>i h. i < length (m_hdus s) \<longrightarrow> m_hdus s ! i = Some h \<longrightarrow> m_cfitsio_index h = int i + 1)"

definition same_table :: "'f mef_file \<Rightarrow> 'f mef_file \<Rightarrow> bool" where
  "same_table s s' \<longleftrightarrow> length (m_hdus s') = length (m_hdus s) \<and> (indexed s \<longrightarrow> indexed s')"

abbreviation keeps_mef :: "('f, 'a) mio \<Rightarrow> bool" where
  "keeps_mef \<equiv> preserves same_table"

interpretation table_kept: kept_relation same_table
  by unfold_locales (simp_all add: same_table_def)

named_theorems keeps_file

lemmas keeps_file_rules [keeps_file] = table_kept.preserves_rules

lemma keeps_mef_iff: "keeps_mef m \<longleftrightarrow> (\<forall>s. length (m_hdus (fst (m s))) = length (m_hdus s) \<and> (indexed s \<longrightarrow> indexed (fst (m s))))"
  by (simp add: preserves_def same_table_def)

lemma keeps_mef_fptr [keeps_file]: "keeps_mef (with_fptr m)"
  by (auto simp: keeps_mef_iff with_fptr_def indexed_def split: option.splits prod.splits)

lemma keeps_mef_hdu [keeps_file]:
  assumes "keeps_handler m"
  shows "keeps_mef (with_hdu i m)"
proof -
  have "length (m_hdus (fst (with_hdu i m s))) = length (m_hdus s) \<and> (indexed s \<longrightarrow> indexed (fst (with_hdu i m s)))" for s
  proof (cases "m_fptr s = None \<or> i \<ge> length (m_hdus s) \<or> m_hdus s ! i = None")
    case True
    then show ?thesis
      by (auto simp: with_hdu_def split: option.splits)
  next
    case False
    then obtain f h where fh: "m_fptr s = Some f" "m_hdus s ! i = Some h" "i < length (m_hdus s)"
      by auto
    obtain f' h' r where run: "m (f, h) = ((f', h'), r)"
      by (metis prod.exhaust)
    have "m_cfitsio_index h' = m_cfitsio_index h"
      using assms run unfolding keeps_handler_iff by (metis fst_conv snd_conv)
    then show ?thesis
      using fh run by (auto simp: with_hdu_def indexed_def nth_list_update)
  qed
  then show ?thesis
    by (simp add: keeps_mef_iff)
qed

lemma keeps_mef_state: "(\<And>s. length (m_hdus (fst (m s s))) = length (m_hdus s) \<and> (indexed s \<longrightarrow> indexed (fst (m s s)))) \<Longrightarrow> keeps_mef (\<lambda>s. m s s)"
  by (simp add: keeps_mef_iff)

lemma keeps_mefD: "keeps_mef m \<Longrightarrow> length (m_hdus (fst (m s))) = length (m_hdus s) \<and> (indexed s \<longrightarrow> indexed (fst (m s)))"
  by (simp add: keeps_mef_iff)

lemma keeps_reset [keeps_file]: "m_cfitsio_index h = int i + 1 \<Longrightarrow> keeps_mef (reset_hdu i h)"
  by (auto simp: keeps_mef_iff reset_hdu_def indexed_def) (metis nth_list_update_eq nth_list_update_neq option.inject)

lemma keeps_cast [keeps_file]: "keeps_mef (with_hdu i (\<lambda>(f, h). ((f, h), g h)))"
  by (rule keeps_mef_hdu) (simp add: keeps_handler_iff)

lemma keeps_access_handler [keeps_file]: "keeps_mef (access_handler api cls j t)"
  unfolding access_handler_def
proof (rule keeps_mef_state)
  fix s :: "'a mef_file"
  let ?m = "io_then (if m_hdus s ! nat j = None
                then io_then (reset_hdu (nat j) (hdu_init j t Untouched)) (with_hdu (nat j) (strategy_accessed api (m_actions s)))
                else io_return ())
       (io_then (with_hdu (nat j) (\<lambda>(f, h). ((f, h), cast_handler cls h))) (io_return (nat j)))"
  have "keeps_mef ?m" if "0 \<le> j"
    using that by (intro keeps_file keeps) (simp add: hdu_init_def)
  then show "length (m_hdus (fst (if j < 0 \<or> j \<ge> mef_hdu_count s then (s, Inl Undefined) else ?m s))) = length (m_hdus s) \<and>
      (indexed s \<longrightarrow> indexed (fst (if j < 0 \<or> j \<ge> mef_hdu_count s then (s, Inl Undefined) else ?m s)))"
    using keeps_mefD [of ?m s] by simp
qed

lemma keeps_access [keeps_file]: "keeps_mef (mef_access api cls index)"
  unfolding mef_access_def Let_def by (rule keeps_mef_state, rule keeps_mefD) (intro keeps_file)

lemma keeps_subscript [keeps_file]: "keeps_mef (mef_subscript api index)"
  unfolding mef_subscript_def by (intro keeps_file)

section \<open>Iteration over HDUs\<close>

text \<open>The reference: every HDU in turn is accessed and tested, and the body runs on those that match.\<close>

fun hdu_scan :: "'f cfitsio \<Rightarrow> hdu_filter \<Rightarrow> (nat \<Rightarrow> ('f, unit) mio) \<Rightarrow> nat list \<Rightarrow> ('f, unit) mio" where
  "hdu_scan api flt body [] = io_return ()"
| "hdu_scan api flt body (k # ks) =
     io_bind (mef_subscript api (int k)) (\<lambda>i.
     io_bind (with_hdu i (hdu_matches api flt)) (\<lambda>b.
     io_then (if b then body k else io_return ()) (hdu_scan api flt body ks)))"

definition loop_value :: "unit result \<Rightarrow> unit option result" where
  "loop_value r = rbind r (\<lambda>u. Inr (Some u))"

lemma loop_value_simps [simp]: "loop_value (Inl e) = Inl e" "loop_value (Inr u) = Inr (Some u)"
  by (simp_all add: loop_value_def)

locale hdu_body =
  fixes body :: "nat \<Rightarrow> ('f, unit) mio"
  assumes body_keeps: "keeps_mef (body i)"
begin

lemma count_kept: "m s = (s', r) \<Longrightarrow> keeps_mef m \<Longrightarrow> length (m_hdus s') = length (m_hdus s)"
  using keeps_mefD by (metis fst_conv)

lemma loop_from:
  assumes "k \<le> N" "N - k < fa" "N - k < n" "N < fuel" and "length (m_hdus s) = N"
  shows "io_bind (hdu_next fa api flt (int k - 1)) (hdu_visit n fuel api flt body (int N)) s =
         (case hdu_scan api flt body [k..<N] s of (s', r) \<Rightarrow> (s', loop_value r))"
  using assms
proof (induction "N - k" arbitrary: k fa n s)
  case 0
  then obtain fa' n' where "fa = Suc fa'" "n = Suc n'" "k = N"
    by (cases fa; cases n) auto
  then show ?case
    using 0 by (simp add: mef_hdu_count_def io_bind_apply)
next
  case (Suc d)
  then obtain fa' n' where f: "fa = Suc fa'" "n = Suc n'"
    by (cases fa; cases n) auto
  have k: "k < N" "d = N - Suc k" "[k..<N] = k # [Suc k..<N]"
    using Suc.hyps(2) by (simp_all add: upt_conv_Cons)
  obtain s1 r1 where 1: "mef_subscript api (int k) s = (s1, r1)"
    by fastforce
  have l1: "length (m_hdus s1) = N"
    using count_kept [OF 1 keeps_subscript] Suc.prems(5) by simp
  show ?case
  proof (cases r1)
    case (Inl e)
    then show ?thesis
      using f k 1 Suc.prems(5) by (simp add: mef_hdu_count_def io_bind_apply)
  next
    case (Inr i)
    obtain s2 r2 where 2: "with_hdu i (hdu_matches api flt) s1 = (s2, r2)"
      by fastforce
    have l2: "length (m_hdus s2) = N"
      using count_kept [OF 2 keeps_mef_hdu [OF keeps_matches]] l1 by simp
    show ?thesis
    proof (cases r2)
      case (Inl e)
      then show ?thesis
        using f k 1 2 Inr Suc.prems(5) by (simp add: mef_hdu_count_def io_bind_apply)
    next
      case match: (Inr b)
      have next_line: "io_bind (hdu_next fx api flt (int k)) (hdu_visit nx fuel api flt body (int N)) t =
          (case hdu_scan api flt body [Suc k..<N] t of (s', r) \<Rightarrow> (s', loop_value r))"
        if "N - Suc k < fx" "N - Suc k < nx" "length (m_hdus t) = N" for fx nx t
        using Suc.hyps(1) [OF k(2), of fx nx t] that k(1) Suc.prems(4) by simp
      show ?thesis
      proof (cases b)
        case False
        then show ?thesis
          using f k 1 2 Inr match Suc.prems next_line [of fa' n s2] l2
          by (simp add: mef_hdu_count_def io_bind_apply io_then_def)
      next
        case True
        obtain s3 r3 where 3: "body k s2 = (s3, r3)"
          by fastforce
        have l3: "length (m_hdus s3) = N"
          using count_kept [OF 3 body_keeps] l2 by simp
        show ?thesis
          using f k 1 2 3 Inr match True Suc.prems next_line [of fuel n' s3] l3
          by (cases r3) (simp_all add: mef_hdu_count_def io_bind_apply io_then_def)
      qed
    qed
  qed
qed

lemma loop_scans:
  "hdu_loop api flt body s = (case hdu_scan api flt body [0..<length (m_hdus s)] s of (s', r) \<Rightarrow> (s', loop_value r))"
  using loop_from [of 0 "length (m_hdus s)" "Suc (length (m_hdus s))" "Suc (length (m_hdus s))" "Suc (length (m_hdus s))" s]
  by (simp add: hdu_loop_def mef_hdu_count_def)

end

lemma keeps_reading [keeps]: "keeps_handler (read_keywords api c)" "keeps_handler (raster_read_to api px t ra)"
  unfolding read_keywords_def raster_read_to_def by (intro keeps)+

lemma keeps_image_access [keeps]:
  "keeps_handler (update_name api n)" "keeps_handler (parse_all api stod c)" "keeps_handler (raster_read api px zero t)"
  "keeps_handler (raster_update_type_shape api px t shape)" "keeps_handler (header_write api mode rec)"
  unfolding update_name_def parse_all_def raster_read_def raster_update_type_shape_def header_write_def
  by (intro keeps | (intro handler_kept.preserves_bind, rule keeps))+

lemma keeps_image_copy [keeps_file]: "keeps_mef (image_copy_as api px zero lhs rhs ts)"
  by (induction ts) (simp_all only: image_copy_as.simps, (intro keeps_file keeps | assumption)+)

lemma keeps_image_assign [keeps_file]: "keeps_mef (image_assign api px zero stod lhs rhs)"
  unfolding image_assign_def by (intro keeps_file keeps)

lemma keeps_primary [keeps_file]: "keeps_mef (mef_primary api)"
  unfolding mef_primary_def by (intro keeps_file)

lemma keeps_mef_test [keeps_file]: "keeps_mef m \<Longrightarrow> keeps_mef n \<Longrightarrow> keeps_mef k \<Longrightarrow> keeps_mef (if b then m else if c then n else k)"
  by simp

lemma keeps_search [keeps_file]: "keeps_mef (mef_search api c n version is found)"
  by (induction "is" arbitrary: found) (simp_all only: mef_search.simps, (intro keeps_file keeps | assumption)+)

lemma keeps_access_named [keeps_file]: "keeps_mef (mef_access_named api cls n version)"
  unfolding mef_access_named_def by (rule keeps_mef_state, rule keeps_mefD) (intro keeps_file)

lemma keeps_find [keeps_file]: "keeps_mef (mef_find api cls n version)"
  unfolding mef_find_def by (intro keeps_file)

interpretation opened: hdu_body "\<lambda>i. with_hdu i (strategy_opened acts)" for acts
  by unfold_locales (intro keeps_file keeps)

interpretation closing: hdu_body "\<lambda>i. with_hdu i (strategy_closing api acts)" for api acts
  by unfold_locales (intro keeps_file keeps)

lemma finish_loop_value: "m s = (case m' s of (s', r) \<Rightarrow> (s', loop_value r)) \<Longrightarrow> finish m s = m' s"
  by (cases "m' s"; cases "snd (m' s)") (auto simp: finish_def io_bind_apply)

lemma keeps_scan: "(\<And>i. keeps_mef (body i)) \<Longrightarrow> keeps_mef (hdu_scan api flt body ks)"
proof (induction ks)
  case (Cons k ks)
  then show ?case
    unfolding hdu_scan.simps by (intro keeps_file keeps) (simp_all add: Cons)
qed (simp add: keeps_file)

lemma closing_all_scan:
  "closing_all api s = hdu_scan api (filter_of Any) (\<lambda>i. with_hdu i (strategy_closing api (m_actions s))) [0..<length (m_hdus s)] s"
  unfolding closing_all_def by (rule finish_loop_value, rule closing.loop_scans)

lemma opened_all_scan:
  "opened_all api s = hdu_scan api (filter_of Any) (\<lambda>i. with_hdu i (strategy_opened (m_actions s))) [0..<length (m_hdus s)] s"
  unfolding opened_all_def by (rule finish_loop_value, rule opened.loop_scans)

lemma keeps_notifications [keeps_file]: "keeps_mef (opened_all api)" "keeps_mef (closing_all api)"
  unfolding keeps_mef_iff opened_all_scan closing_all_scan
  by (intro allI keeps_mefD keeps_scan keeps_file keeps)+

section \<open>Appending and removing\<close>

lemma indexed_push: "indexed s \<Longrightarrow> indexed (fst (push_hdu t s))"
  by (auto simp: indexed_def push_hdu_def hdu_init_def mef_hdu_count_def nth_append less_Suc_eq)

definition same_indexing :: "'f mef_file \<Rightarrow> 'f mef_file \<Rightarrow> bool" where
  "same_indexing s s' \<longleftrightarrow> (indexed s \<longrightarrow> indexed s')"

abbreviation keeps_index :: "('f, 'a) mio \<Rightarrow> bool" where
  "keeps_index \<equiv> preserves same_indexing"

interpretation indexing_kept: kept_relation same_indexing
  by unfold_locales (simp_all add: same_indexing_def)

lemma keeps_index_iff: "keeps_index m \<longleftrightarrow> (\<forall>s. indexed s \<longrightarrow> indexed (fst (m s)))"
  by (simp add: preserves_def same_indexing_def)

lemma keeps_indexI: "keeps_mef m \<Longrightarrow> keeps_index m"
  by (simp add: keeps_mef_iff keeps_index_iff)

lemma index_run: "keeps_index m \<Longrightarrow> indexed s \<Longrightarrow> indexed (fst (m s))"
  by (simp add: keeps_index_iff)

lemma keeps_index_push: "keeps_index (push_hdu t)"
  by (simp add: keeps_index_iff indexed_push)

lemma keeps_index_created:
  "keeps_index (\<lambda>s. with_hdu i (strategy_created (m_actions s)) s)"
  "keeps_index (\<lambda>s. with_fptr (strategy_compress cp t init (m_compression s)) s)"
  unfolding keeps_index_iff by (intro allI impI conjunct2 [OF keeps_mefD, rule_format] keeps_file keeps; assumption)+

lemma keeps_index_accessed: "keeps_index (\<lambda>s. with_hdu i (strategy_accessed api (m_actions s)) s)"
  unfolding keeps_index_iff by (intro allI impI conjunct2 [OF keeps_mefD, rule_format] keeps_file keeps; assumption)

lemmas keeps_append = keeps_index_created keeps_index_push indexing_kept.preserves_rules
  keeps_indexI [OF keeps_mef_fptr] keeps_indexI [OF keeps_mef_hdu] keeps_indexI [OF keeps_primary]
  keeps_indexI [OF keeps_access] keeps_indexI [OF keeps_image_assign]

lemma index_append_image_header: "keeps_index (append_image_header api t n records)"
  unfolding append_image_header_def by (intro keeps_append keeps)

lemma index_append_image: "keeps_index (append_image api px cp t n records ra)"
  unfolding append_image_def by (intro keeps_append keeps)

lemma index_append_null_image: "keeps_index (append_null_image api px cp rnd nan t N n records shape)"
  unfolding append_null_image_def
  by (intro keeps_append keeps)

lemma index_append_bintable_header: "keeps_index (append_bintable_header api bt n records infos)"
  unfolding append_bintable_header_def by (intro keeps_append keeps)

lemma index_append_null_bintable: "keeps_index (append_null_bintable api bt n records rows infos)"
  unfolding append_null_bintable_def by (intro keeps_append index_append_bintable_header)

text \<open>Copies work on the source and on the file.\<close>

definition same_copy_indexing :: "('g \<times> hdu) \<times> 'f mef_file \<Rightarrow> ('g \<times> hdu) \<times> 'f mef_file \<Rightarrow> bool" where
  "same_copy_indexing c c' \<longleftrightarrow> (indexed (snd c) \<longrightarrow> indexed (snd c'))"

abbreviation keeps_copy :: "(('g \<times> hdu) \<times> 'f mef_file, 'a) io \<Rightarrow> bool" where
  "keeps_copy \<equiv> preserves same_copy_indexing"

interpretation copy_kept: kept_relation same_copy_indexing
  by unfold_locales (simp_all add: same_copy_indexing_def)

named_theorems copies

lemmas copies_rules [copies] = copy_kept.preserves_rules

lemma copiesD: "keeps_copy m \<Longrightarrow> indexed s \<Longrightarrow> indexed (snd (fst (m (src, s))))"
  unfolding preserves_def same_copy_indexing_def by (metis snd_conv)

lemma copies_source [copies]: "keeps_copy (from_source m)"
  by (simp add: preserves_def same_copy_indexing_def from_source_def split: prod.splits)

lemma copies_to_file [copies]: "keeps_index m \<Longrightarrow> keeps_copy (to_file m)"
  by (simp add: preserves_def same_indexing_def same_copy_indexing_def to_file_def split_beta)

lemma copies_verbatim [copies]: "keeps_copy (copy_verbatim copy)"
  unfolding preserves_def same_copy_indexing_def copy_verbatim_def split_paired_all
  by (auto intro!: copiesD copies_to_file keeps_indexI [OF keeps_mef_fptr])

lemma copies_as [copies]: "keeps_copy (append_copy_as src_api src_px api px cp zero stod ts)"
proof (induction ts)
  case (Cons t ts)
  then show ?case
    unfolding append_copy_as.simps by (intro copies index_append_image)
qed (simp only: append_copy_as.simps copies)

lemma copies_append: "indexed s \<Longrightarrow> indexed (snd (fst (mef_append src_api src_px copy api px cp zero stod cls (src, s))))"
proof -
  assume s: "indexed s"
  let ?m = "\<lambda>s. io_bind (from_source (hdu_matches src_api (filter_of Bintable))) (\<lambda>table.
     io_then (if table then io_then (copy_verbatim copy) (io_then (to_file (push_hdu Bintable)) (io_return ()))
              else io_bind (from_source (hdu_matches src_api (filter_of RawImage))) (\<lambda>raw.
                   io_bind (if \<not> raw then io_return False
                            else if m_compression s = [] then io_return True
                            else from_source (hdu_matches src_api (filter_of Metadata))) (\<lambda>verbatim.
                   if verbatim then io_then (copy_verbatim copy) (io_then (to_file (push_hdu Image)) (io_return ()))
                   else io_then (from_source (\<lambda>(g, h). ((g, h), cast_handler ClassImageHdu h)))
                          (append_copy_as src_api src_px api px cp zero stod raster_types))))
     (io_bind (to_file (mef_access api cls (mef_hdu_count s))) (\<lambda>i.
      io_then (to_file (\<lambda>s. with_hdu i (strategy_accessed api (m_actions s)) s)) (io_return i))))"
  have "keeps_copy (?m s)"
    by (intro copies keeps_index_push keeps_indexI [OF keeps_access] keeps_index_accessed)
  then show ?thesis
    using s unfolding mef_append_def prod.case by (rule copiesD)
qed

lemma shift_handlers_result:
  "shift_handlers hs = (if None \<in> set hs then Inl Undefined
     else Inr (map (map_option (\<lambda>h. h\<lparr>m_cfitsio_index := m_cfitsio_index h - 1\<rparr>)) hs))"
  by (induction hs rule: shift_handlers.induct) auto

lemma erase_hdu_result:
  assumes "0 \<le> j" "j < mef_hdu_count s"
  shows "erase_hdu j s =
    (if None \<in> set (drop (Suc (nat j)) (m_hdus s)) then (s, Inl Undefined)
     else (s\<lparr>m_hdus := take (nat j) (m_hdus s) @
             map (map_option (\<lambda>h. h\<lparr>m_cfitsio_index := m_cfitsio_index h - 1\<rparr>)) (drop (Suc (nat j)) (m_hdus s))\<rparr>, Inr ()))"
  using assms by (simp add: erase_hdu_def shift_handlers_result)

lemma indexed_erase:
  assumes ix: "indexed s"
  shows "indexed (fst (erase_hdu j s))"
proof (cases "0 \<le> j \<and> j < mef_hdu_count s")
    case True
    then have "nat j < length (m_hdus s)"
      by (simp add: mef_hdu_count_def nat_less_iff)
    moreover have "m_cfitsio_index h = int i + 2" if "i < length (m_hdus s) - Suc 0" "m_hdus s ! Suc i = Some h" for i h
    proof -
      have "Suc i < length (m_hdus s)"
        using that(1) by linarith
      then show ?thesis
        using ix that(2) by (simp add: indexed_def)
    qed
    ultimately show ?thesis
      using True ix by (auto simp: erase_hdu_result indexed_def nth_append)
  qed (use ix in \<open>auto simp: erase_hdu_def\<close>)

lemma index_erase: "keeps_index (erase_hdu j)"
  by (simp add: keeps_index_iff indexed_erase)

lemma index_remove: "keeps_index (mef_remove api px zero stod j)"
  unfolding mef_remove_def mef_remove_ext_def
  by (intro keeps_append index_erase)

text \<open>The operations of a file, as the steps of the invariant.\<close>

inductive mef_step ::
  "'f cfitsio \<Rightarrow> ('f, payload) pixel_api \<Rightarrow> 'f compression_api \<Rightarrow> (string \<Rightarrow> real result) \<Rightarrow> 'f mef_file \<Rightarrow> 'f mef_file \<Rightarrow> bool"
  for api px cp stod where
  step_access: "mef_step api px cp stod s (fst (mef_access api cls index s))"
| step_find: "mef_step api px cp stod s (fst (mef_find api cls n version s))"
| step_named: "mef_step api px cp stod s (fst (mef_access_named api cls n version s))"
| step_opened: "mef_step api px cp stod s (fst (opened_all api s))"
| step_closing: "mef_step api px cp stod s (fst (closing_all api s))"
| step_record: "mef_step api px cp stod s (fst (with_hdu i (header_write api mode rec) s))"
| step_raster: "mef_step api px cp stod s (fst (with_hdu i (raster_write api px t ra) s))"
| step_append_header: "mef_step api px cp stod s (fst (append_image_header api t n records s))"
| step_append_image: "mef_step api px cp stod s (fst (append_image api px cp t n records ra s))"
| step_append_null_image: "mef_step api px cp stod s (fst (append_null_image api px cp rnd nan t N n records shape s))"
| step_append_bintable_header: "mef_step api px cp stod s (fst (append_bintable_header api bt n records infos s))"
| step_append_null_bintable: "mef_step api px cp stod s (fst (append_null_bintable api bt n records rows infos s))"
| step_append_copy: "mef_step api px cp stod s (snd (fst (mef_append (src_api :: 'f cfitsio) src_px copy api px cp zero stod cls (src, s))))"
| step_remove: "mef_step api px cp stod s (fst (mef_remove api px zero stod index s))"
| step_strategy: "mef_step api px cp stod s (strategy_append items s)"

inductive mef_reachable ::
  "'f cfitsio \<Rightarrow> ('f, payload) pixel_api \<Rightarrow> 'f compression_api \<Rightarrow> (string \<Rightarrow> real result) \<Rightarrow> 'f mef_file \<Rightarrow> bool"
  for api px cp stod where
  mef_opened: "set (m_hdus s) \<subseteq> {None} \<Longrightarrow> mef_reachable api px cp stod s"
| mef_next: "mef_reachable api px cp stod s \<Longrightarrow> mef_step api px cp stod s s' \<Longrightarrow> mef_reachable api px cp stod s'"

lemma index_strategy: "indexed s \<Longrightarrow> indexed (strategy_append items s)"
proof -
  have "m_hdus (strategy_append items s) = m_hdus s"
    unfolding strategy_append_def
  proof (induction items arbitrary: s)
    case (Cons x xs)
    then show ?case
      by (cases x) simp_all
  qed simp
  then show "indexed s \<Longrightarrow> indexed (strategy_append items s)"
    by (simp add: indexed_def)
qed

lemma step_indexed:
  assumes "mef_step api px cp stod s s'" and "indexed s"
  shows "indexed s'"
proof -
  show ?thesis
    using assms(1) by cases
      (simp_all add: assms(2) index_run index_append_image_header index_append_image index_append_null_image
        index_append_bintable_header index_append_null_bintable copies_append index_remove index_strategy keeps_indexI keeps_file keeps)
qed

text \<open>
  C5: Whatever sequence of accesses, notifications, writings, appends and removals follows the opening of a file, the
  handler stored at an index stands for the HDU of that index, which is where its methods go.\<close>

theorem handlers_indexed:
  assumes "mef_reachable api px cp stod s" and "i < length (m_hdus s)" and "m_hdus s ! i = Some h"
  shows "hdu_index h = int i"
proof -
  have "indexed s"
    using assms(1) by induction (auto simp: indexed_def subset_iff dest: nth_mem intro: step_indexed [unfolded indexed_def, rule_format])
  then show ?thesis
    using assms(2,3) by (simp add: indexed_def hdu_index_def)
qed


lemma mem_access_first:
  "mef_access mem_api ClassHdu 0 \<lparr>m_fptr = Some [], m_filename = [], m_permission = Edit, m_hdus = [None], m_compression = [], m_actions = []\<rparr> =
     (\<lparr>m_fptr = Some [], m_filename = [], m_permission = Edit, m_hdus = [Some (hdu_init 0 Image Untouched)], m_compression = [], m_actions = []\<rparr>,
      Inr 0)"
  by (simp add: mef_access_def mef_hdu_count_def with_fptr_def goto_index_def current_index_def current_type_def access_handler_def reset_hdu_def
      with_hdu_def strategy_accessed_def cast_handler_def io_then_def io_bind_apply mem_api_def)

theorem handlers_indexed_witness:
  "\<exists>h. m_hdus (fst (mef_access mem_api ClassHdu 0
     \<lparr>m_fptr = Some [], m_filename = [], m_permission = Edit, m_hdus = [None], m_compression = [], m_actions = []\<rparr>)) ! 0 = Some h \<and> hdu_index h = 0"
proof -
  let ?s = "\<lparr>m_fptr = Some [], m_filename = [], m_permission = Edit, m_hdus = [None], m_compression = [], m_actions = []\<rparr> :: mem_header mef_file"
  let ?t = "fst (mef_access mem_api ClassHdu 0 ?s)"
  have "mef_reachable mem_api undefined undefined undefined ?s"
    by (rule mef_opened) simp
  then have "mef_reachable mem_api undefined undefined undefined ?t"
    by (rule mef_next) (rule step_access)
  from handlers_indexed [OF this, of 0 "hdu_init 0 Image Untouched"] show ?thesis
    by (simp add: mem_access_first)
qed

text \<open>
  C8: Iterating over the HDUs that match a filter ends, whatever the loop body does to handlers: it visits every HDU in order, tests it, and
  runs the body on those that match.  The iterator never runs past the end.\<close>

theorem hdu_iteration_terminates:
  fixes body :: "nat \<Rightarrow> ('f, unit) mio"
  assumes "\<And>i. keeps_mef (body i)"
  shows "hdu_loop api flt body s = (case hdu_scan api flt body [0..<length (m_hdus s)] s of (s', r) \<Rightarrow> (s', loop_value r)) \<and>
    snd (hdu_loop api flt body s) \<noteq> Inr None"
proof -
  have 1: "hdu_loop api flt body s = (case hdu_scan api flt body [0..<length (m_hdus s)] s of (s', r) \<Rightarrow> (s', loop_value r))"
    by (rule hdu_body.loop_scans) (simp add: hdu_body_def assms)
  have "snd (hdu_loop api flt body s) \<noteq> Inr None"
    unfolding 1 loop_value_def by (auto split: prod.splits sum.splits simp: rbind_def)
  with 1 show ?thesis
    by blast
qed

theorem hdu_iteration_terminates_witness:
  "snd (hdu_loop mem_api (filter_of Any) (\<lambda>i. with_hdu i (update_checksums mem_api))
     \<lparr>m_fptr = Some [], m_filename = [], m_permission = Edit, m_hdus = [None, None], m_compression = [], m_actions = []\<rparr>) \<noteq> Inr None"
  by (rule conjunct2 [OF hdu_iteration_terminates]) (intro keeps_file keeps)


text \<open>
  Removing an extension erases its handler and renumbers the following ones, but only when each of them has been
  accessed before: otherwise a null pointer is dereferenced after the HDU has been deleted from the file.\<close>

theorem remove_renumbers_accessed_handlers:
  assumes "0 < j" "j < mef_hdu_count s" and "m_fptr s = Some f" and "access_remove api (j + 1) f = (f', Inr ())"
  shows "mef_remove api px zero stod j s =
    (if None \<in> set (drop (Suc (nat j)) (m_hdus s)) then (s\<lparr>m_fptr := Some f'\<rparr>, Inl Undefined)
     else (s\<lparr>m_fptr := Some f', m_hdus := take (nat j) (m_hdus s) @
             map (map_option (\<lambda>h. h\<lparr>m_cfitsio_index := m_cfitsio_index h - 1\<rparr>)) (drop (Suc (nat j)) (m_hdus s))\<rparr>, Inr ()))"
proof -
  have "erase_hdu j (s\<lparr>m_fptr := Some f'\<rparr>) =
    (if None \<in> set (drop (Suc (nat j)) (m_hdus s)) then (s\<lparr>m_fptr := Some f'\<rparr>, Inl Undefined)
     else (s\<lparr>m_fptr := Some f', m_hdus := take (nat j) (m_hdus s) @
             map (map_option (\<lambda>h. h\<lparr>m_cfitsio_index := m_cfitsio_index h - 1\<rparr>)) (drop (Suc (nat j)) (m_hdus s))\<rparr>, Inr ()))"
    using assms(1,2) by (subst erase_hdu_result) (simp_all add: mef_hdu_count_def)
  then show ?thesis
    using assms by (simp add: mef_remove_def mef_remove_ext_def io_then_def io_bind_apply with_fptr_def)
qed

theorem remove_renumbers_accessed_handlers_witness:
  "\<forall>px stod. snd (mef_remove mem_api px (0 :: int) stod 1
     \<lparr>m_fptr = Some [], m_filename = [], m_permission = Edit, m_hdus = [None, None, None], m_compression = [], m_actions = []\<rparr>) = Inl Undefined"
  by (intro allI, subst remove_renumbers_accessed_handlers [of 1 _ "[]" _ "[]"])
     (simp_all add: mef_hdu_count_def access_remove_def goto_index_def current_index_def checked_def io_then_def io_bind_apply mem_api_def)

lemma open_impl_handlers: "m_hdus (snd (fst (open_impl fs api filename permission (w, s)))) = m_hdus s"
  by (auto simp: open_impl_def split: prod.splits sum.splits)

text \<open>
  Opening another file with the same object keeps the table of handlers of the former file: its length is that of the
  former file, whatever the number of HDUs of the new one.
\<close>

theorem opening_keeps_handlers:
  "length (m_hdus (snd (fst (mef_open_impl fs api filename permission (w, s))))) = length (m_hdus s)"
proof -
  obtain w' s' r where run: "open_impl fs api filename permission (w, s) = ((w', s'), r)"
    by (metis surj_pair)
  then have "m_hdus s' = m_hdus s"
    using open_impl_handlers [of fs api filename permission w s] by simp
  then show ?thesis
    using run keeps_mefD [OF keeps_notifications(1), of api s']
    by (cases r) (auto simp: mef_open_impl_def io_then_def io_bind_apply on_mef_def split: prod.splits)
qed

end
