(* ===== verification/Fits_Place.thy ===== *)
theory Fits_Place
  imports Fits_MefLaws
begin

text \<open>
  Where the current HDU of a file is.  Every operation of a handler first moves CFITSIO to the HDU of the handler, so that the handler is in place
  once an operation has succeeded, and operations that read leave the file as it is from then on.
\<close>

section \<open>Handlers that are in place\<close>

text \<open>
  What CFITSIO documents of a successful move.  Once the current HDU is that of a handler, reading through the handler leaves the file as it is.
\<close>

definition moves_documented :: "'f cfitsio \<Rightarrow> bool" where
  "moves_documented api \<longleftrightarrow> (\<forall>i f f'. api_movabs_hdu api i f = (f', 0) \<longrightarrow> api_get_hdu_num api f' = i)"

definition in_place :: "'f cfitsio \<Rightarrow> 'f \<times> hdu \<Rightarrow> bool" where
  "in_place api fh \<longleftrightarrow> current_index api (fst fh) = m_cfitsio_index (snd fh)"

definition same_place :: "'f cfitsio \<Rightarrow> 'f \<times> hdu \<Rightarrow> 'f \<times> hdu \<Rightarrow> bool" where
  "same_place api fh fh' \<longleftrightarrow> (in_place api fh \<longrightarrow> fst fh' = fst fh \<and> m_cfitsio_index (snd fh') = m_cfitsio_index (snd fh))"

abbreviation only_reads :: "'f cfitsio \<Rightarrow> ('f, 'a) hio \<Rightarrow> bool" where
  "only_reads api \<equiv> preserves (same_place api)"

interpretation place_kept: kept_relation "same_place api" for api
  by unfold_locales (simp_all add: same_place_def in_place_def)

named_theorems reads

lemmas reads_rules [reads] = place_kept.preserves_rules

lemma only_reads_iff:
  "only_reads api m \<longleftrightarrow> (\<forall>fh. in_place api fh \<longrightarrow> fst (fst (m fh)) = fst fh \<and> m_cfitsio_index (snd (fst (m fh))) = m_cfitsio_index (snd fh))"
  by (simp add: preserves_def same_place_def)

lemma only_readsD:
  "only_reads api m \<Longrightarrow> in_place api (f, h) \<Longrightarrow> m (f, h) = ((f', h'), r) \<Longrightarrow> f' = f \<and> in_place api (f', h')"
  unfolding only_reads_iff in_place_def by (metis fst_conv snd_conv)

lemma reads_on_file [reads]: "only_reads api (on_file (io_read g))"
  by (simp add: only_reads_iff on_file_def split_beta)

lemma touch_in_place: "in_place api (f, h) \<Longrightarrow> touch api (f, h) = ((f, h\<lparr>m_status := touch_status (m_status h)\<rparr>), Inr ())"
  by (simp add: in_place_def touch_def io_then_def io_bind_apply on_file_def goto_index_def)

lemma reads_touch [reads]: "only_reads api (touch api)"
  by (simp add: only_reads_iff touch_in_place split_paired_all)

lemma reads_edit [reads]: "only_reads api (edit api)"
proof -
  have "only_reads api (\<lambda>(f, h). case cat_restrict_assign (m_status h) Edited of
          (Some e, s) \<Rightarrow> ((f, h\<lparr>m_status := s\<rparr>), Inl e)
        | (None, s) \<Rightarrow> ((f, h\<lparr>m_status := s\<rparr>), Inr ()))"
    by (auto simp: only_reads_iff split: prod.splits option.splits)
  then show ?thesis
    unfolding edit_def by (intro reads)
qed

lemma reads_queries [reads]:
  "only_reads api (hdu_category api)" "only_reads api (raster_read_shape api)" "only_reads api (raster_read_typeid api)"
  "only_reads api (read_column_count api)" "only_reads api (read_row_count api)" "only_reads api (read_name api)"
  "only_reads api (read_keywords api c)" "only_reads api (raster_read_to api px t ra)"
  unfolding hdu_category_def raster_read_shape_def raster_read_typeid_def read_column_count_def read_row_count_def read_name_def
    read_keywords_def raster_read_to_def
  by (intro reads)+

lemma reads_data [reads]:
  "only_reads api (raster_read_size api)" "only_reads api (parse_all api stod c)" "only_reads api (raster_read api px zero t)"
  unfolding raster_read_size_def parse_all_def raster_read_def by (intro reads | rule place_kept.preserves_bind)+

lemma reads_categories [reads]: "only_reads api (image_category api)" "only_reads api (bintable_category api)"
  unfolding image_category_def bintable_category_def by (intro reads)+

lemma reads_matches [reads]: "only_reads api (hdu_matches api flt)"
proof -
  have "only_reads api (category_of_handler api)"
    using reads_categories [of api] reads_queries(1) [of api]
    by (simp add: only_reads_iff category_of_handler_def split_paired_all)
  then show ?thesis
    unfolding hdu_matches_def by (intro reads)
qed

text \<open>A handler is in place after an operation that succeeds, whatever the current HDU was before.\<close>

definition settles :: "'f cfitsio \<Rightarrow> ('f, 'a) hio \<Rightarrow> bool" where
  "settles api m \<longleftrightarrow> (\<forall>fh fh' x. m fh = (fh', Inr x) \<longrightarrow> in_place api fh')"

lemma settles_touch: "moves_documented api \<Longrightarrow> settles api (touch api)"
  by (auto simp: settles_def in_place_def touch_def io_then_def io_bind_apply on_file_def goto_index_def checked_def current_index_def
      moves_documented_def cfitsio_may_throw_def split: prod.splits sum.splits if_splits)

lemma settles_bind:
  assumes "settles api m" and "\<And>x. only_reads api (k x)"
  shows "settles api (io_bind m k)"
  unfolding settles_def
proof (intro allI impI)
  fix fh fh' y
  assume run: "io_bind m k fh = (fh', Inr y)"
  obtain fh1 r where 1: "m fh = (fh1, r)"
    by fastforce
  with run obtain x where x: "r = Inr x" "k x fh1 = (fh', Inr y)"
    by (cases r) (simp_all add: io_bind_apply)
  then have "in_place api fh1"
    using assms(1) 1 unfolding settles_def by blast
  then show "in_place api fh'"
    using only_readsD [OF assms(2) [of x], of "fst fh1" "snd fh1" "fst fh'" "snd fh'"] x(2) by simp
qed

lemma settles_matches:
  assumes "moves_documented api"
  shows "settles api (hdu_matches api flt)"
proof -
  have cat: "settles api (hdu_category api)"
    unfolding hdu_category_def io_then_def by (intro settles_bind settles_touch assms reads)
  have "settles api (image_category api)" "settles api (bintable_category api)"
    unfolding image_category_def bintable_category_def by (intro settles_bind cat reads)+
  with cat have "settles api (category_of_handler api)"
    by (auto simp: settles_def category_of_handler_def split: if_splits)
  then show ?thesis
    unfolding hdu_matches_def by (intro settles_bind reads)
qed

end
