(* ===== verification/Fits_BintableLaws.thy ===== *)
theory Fits_BintableLaws
  imports Fits_Bintable
begin

text \<open>
  What the operations on binary tables do: reading by chunks of rows, resolution of column keys, shapes, reading and
  writing of several columns at once, removal of columns.
\<close>

section \<open>Reading by chunks\<close>

text \<open>
  A column to read: where it is in the file, its elements there, and the memory it is read into.
\<close>

record stored =
  st_type :: value_type
  st_info :: column_info
  st_index :: nat
  st_file :: "payload list"
  st_memory :: "payload list"

definition width :: "stored \<Rightarrow> nat" where
  "width x = nat (element_count (st_info x))"

text \<open>The column once its first \<open>k\<close> rows have been read, from row \<open>a\<close> of the file on.\<close>

definition loaded :: "nat \<Rightarrow> nat \<Rightarrow> stored \<Rightarrow> typed_column" where
  "loaded a k x = (st_type x, \<lparr>m_info = st_info x,
     c_data = take (k * width x) (drop (a * width x) (st_file x)) @ drop (k * width x) (st_memory x)\<rparr>)"

text \<open>What CFITSIO documents of \<^verbatim>\<open>fits_read_col\<close> for a column of \<open>rows\<close> rows; string fields leave room for the final null.\<close>

definition column_documented :: "'f bintable_api \<Rightarrow> 'f \<Rightarrow> nat \<Rightarrow> stored \<Rightarrow> bool" where
  "column_documented bt f rows x \<longleftrightarrow>
     0 < element_count (st_info x) \<and> ci_is_string (st_info x) = (st_type x = TString) \<and>
     length (st_file x) = rows * width x \<and>
     (st_type x = TString \<longrightarrow> (\<forall>v \<in> set (st_file x). int (length (string_payload v)) < repeat_count (st_info x))) \<and>
     (\<forall>a n. a + n \<le> rows \<longrightarrow>
        bt_read_col bt (st_type x) (int (st_index x) + 1) (int a + 1) (int (n * width x)) f =
          (take (n * width x) (drop (a * width x) (st_file x)), 0))"

lemma read_documented:
  assumes "column_documented bt f rows x" and "a + n \<le> rows" and "0 \<le> b" "b + int (n * width x) \<le> int (length d)"
  shows "read_column_data bt (st_type x) \<lparr>seg_front = int a + 1, seg_back = int a + int n\<rparr> (int (st_index x) + 1)
           (repeat_count (st_info x)) d b f =
         Inr (take (nat b) d @ take (n * width x) (drop (a * width x) (st_file x)) @ drop (nat b + n * width x) d)"
proof -
  let ?vs = "take (n * width x) (drop (a * width x) (st_file x))"
  have "(a + n) * width x \<le> length (st_file x)"
    using assms(1,2) by (simp add: column_documented_def)
  then have len: "length ?vs = n * width x"
    by (simp add: algebra_simps)
  have w: "write_block d b ?vs = Inr (take (nat b) d @ ?vs @ drop (nat b + n * width x) d)"
    using assms(3,4) len by (simp add: write_block_def)
  have run: "bt_read_col bt (st_type x) (int (st_index x) + 1) (int a + 1) (int (n * width x)) f = (?vs, 0)"
    using assms(1,2) by (simp add: column_documented_def)
  show ?thesis
  proof (cases "st_type x = TString")
    case True
    have "ci_is_string (st_info x)"
      using True assms(1) by (simp add: column_documented_def)
    then have "width x = 1"
      by (simp add: width_def element_count_def)
    moreover have "\<not> (\<exists>v \<in> set ?vs. int (length (string_payload v)) \<ge> repeat_count (st_info x))"
      using assms(1) True by (auto simp: column_documented_def dest!: in_set_takeD in_set_dropD)
    ultimately show ?thesis
      using run w True by (simp add: read_column_data_def read_string_data_def seg_size_def)
  next
    case False
    have "0 < element_count (st_info x)" "\<not> ci_is_string (st_info x)"
      using False assms(1) by (simp_all add: column_documented_def)
    then have "repeat_count (st_info x) = int (width x)"
      by (simp add: width_def element_count_def)
    then show ?thesis
      using run w False by (simp add: read_column_data_def seg_size_def)
  qed
qed


lemma read_segment_to_documented:
  assumes here: "api_get_hdu_num api f = m_cfitsio_index h" and rows: "api_get_num_rows api f = (int rows, 0)"
    and doc: "column_documented bt f rows x" and c: "m_info c = st_info x" "length (c_data c) = m * width x"
    and n: "0 < n" "a + n \<le> rows" "b + n \<le> m"
  shows "read_segment_to api bt (fms_of_memory (int a) \<lparr>seg_front = int b, seg_back = int b + int n - 1\<rparr>) (key_of_index (int (st_index x)))
           (st_type x, c) (f, h) =
         ((f, h\<lparr>m_status := touch_status (m_status h)\<rparr>),
          Inr (st_type x, c\<lparr>c_data := take (b * width x) (c_data c) @ take (n * width x) (drop (a * width x) (st_file x)) @
                 drop ((b + n) * width x) (c_data c)\<rparr>))"
proof -
  let ?h = "h\<lparr>m_status := touch_status (m_status h)\<rparr>"
  have t: "touch api (f, h) = ((f, ?h), Inr ())" "touch api (f, ?h) = ((f, ?h), Inr ())"
    using here by (simp_all add: touch_at touch_status_def)
  have w: "0 < width x" "element_count (st_info x) = int (width x)"
    using doc by (simp_all add: column_documented_def width_def)
  have m: "row_count c = Inr (int m)"
    using c w by (simp add: row_count_def)
  have res: "fms_resolve (int rows - 1) (int m - 1) (fms_of_memory (int a) \<lparr>seg_front = int b, seg_back = int b + int n - 1\<rparr>)
      = \<lparr>fm_file = \<lparr>seg_front = int a, seg_back = int a + int n - 1\<rparr>, fm_memory = \<lparr>seg_front = int b, seg_back = int b + int n - 1\<rparr>\<rparr>"
    using n by (simp add: fms_resolve_def fms_of_memory_def seg_fromSize_def seg_size_def)
  have ix: "Fits_Column.column_index c (int b) 0 = int (b * width x)"
    using c w by (simp add: Fits_Column.column_index_def)
  have "(b + n) * width x \<le> m * width x"
    using n by simp
  then have "int (b * width x) + int (n * width x) \<le> int (length (c_data c))"
    using c(2) by (simp add: algebra_simps flip: of_nat_mult of_nat_add)
  from read_documented [OF doc n(2) _ this]
  have read: "read_column_data bt (st_type x) \<lparr>seg_front = int a + 1, seg_back = int a + int n\<rparr> (int (st_index x) + 1)
           (repeat_count (st_info x)) (c_data c) (int (b * width x)) f =
         Inr (take (b * width x) (c_data c) @ take (n * width x) (drop (a * width x) (st_file x)) @ drop ((b + n) * width x) (c_data c))"
    by (simp add: algebra_simps nat_mult_distrib)
  show ?thesis
    unfolding read_segment_to_def
    by (simp add: io_then_def io_bind_apply t columns_read_row_count_def on_file_def io_row_count_def rows m Let_def res key_index_def
        key_of_index_def ix c(1) read del: of_nat_mult)
qed

lemma length_loaded:
  assumes "column_documented bt f rows x" "a + k \<le> rows" "k \<le> m" "length (st_memory x) = m * width x"
  shows "length (c_data (snd (loaded a k x))) = m * width x"
proof -
  have "(a + k) * width x \<le> rows * width x" "k * width x \<le> m * width x"
    using assms(2,3) by simp_all
  then show ?thesis
    using assms(1,4) by (simp add: loaded_def column_documented_def algebra_simps)
qed

lemma loaded_next:
  assumes "column_documented bt f rows x" "a + k + n \<le> rows" "k + n \<le> m" "length (st_memory x) = m * width x"
  shows "(st_type x, snd (loaded a k x)\<lparr>c_data := take (k * width x) (c_data (snd (loaded a k x))) @
            take (n * width x) (drop ((a + k) * width x) (st_file x)) @ drop ((k + n) * width x) (c_data (snd (loaded a k x)))\<rparr>)
         = loaded a (k + n) x"
proof -
  have "(a + k) * width x \<le> rows * width x"
    using assms(2) by simp
  then have len: "length (take (k * width x) (drop (a * width x) (st_file x))) = k * width x"
    using assms(1) by (simp add: column_documented_def algebra_simps)
  show ?thesis
    using len by (simp add: loaded_def algebra_simps take_add)
qed


lemma read_each_loaded:
  assumes here: "api_get_hdu_num api f = m_cfitsio_index h" and rows: "api_get_num_rows api f = (int rows, 0)"
    and "\<forall>x \<in> set xs. column_documented bt f rows x \<and> length (st_memory x) = m * width x"
    and n: "0 < n" "a + k + n \<le> rows" "k + n \<le> m" and keys: "map k_index keys = map (\<lambda>x. Some (int (st_index x))) xs"
  shows "\<exists>h'. read_each api bt (fms_of_memory (int (a + k)) \<lparr>seg_front = int k, seg_back = int k + int n - 1\<rparr>) keys (map (loaded a k) xs) (f, h) =
     ((f, h'), Inr (keys, map (loaded a (k + n)) xs)) \<and> m_cfitsio_index h' = m_cfitsio_index h"
  using assms(1,3,7)
proof (induction xs arbitrary: keys h)
  case Nil
  then show ?case by simp
next
  case (Cons x xs)
  let ?h = "h\<lparr>m_status := touch_status (m_status h)\<rparr>"
  obtain key ks where ks: "keys = key # ks" "k_index key = Some (int (st_index x))" "map k_index ks = map (\<lambda>x. Some (int (st_index x))) xs"
    using Cons.prems(3) by (cases keys) auto
  have x: "column_documented bt f rows x" "length (st_memory x) = m * width x"
    using Cons.prems(2) by simp_all
  have l: "loaded a k x = (st_type x, snd (loaded a k x))" "m_info (snd (loaded a k x)) = st_info x"
    by (simp_all add: loaded_def)
  have "read_segment_to api bt (fms_of_memory (int (a + k)) \<lparr>seg_front = int k, seg_back = int k + int n - 1\<rparr>) (key_of_index (int (st_index x)))
      (loaded a k x) (f, h) = ((f, ?h), Inr (loaded a (k + n) x))"
    using read_segment_to_documented [OF Cons.prems(1) rows x(1) l(2) length_loaded [OF x(1) _ _ x(2)] n] n loaded_next [OF x(1) n(2,3) x(2)] l(1)
    by simp
  moreover obtain h' where "read_each api bt (fms_of_memory (int (a + k)) \<lparr>seg_front = int k, seg_back = int k + int n - 1\<rparr>) ks (map (loaded a k) xs) (f, ?h) =
     ((f, h'), Inr (ks, map (loaded a (k + n)) xs))" "m_cfitsio_index h' = m_cfitsio_index h"
    using Cons.IH [of ?h ks] Cons.prems ks by auto
  ultimately show ?case
    using ks by (simp add: io_bind_apply key_index_def)
qed

lemma read_seq_loop_loaded:
  assumes here: "api_get_hdu_num api f = m_cfitsio_index h" and rows: "api_get_num_rows api f = (int rows, 0)"
    and xs: "\<forall>x \<in> set xs. column_documented bt f rows x \<and> length (st_memory x) = m * width x"
    and "0 < buffer" "a + m \<le> rows" and keys: "map k_index keys = map (\<lambda>x. Some (int (st_index x))) xs" and "k \<le> m"
  shows "\<exists>h'. read_seq_loop api bt (int buffer) (int m - 1) (seg_fromSize (int (a + k)) (int buffer)) (seg_fromSize (int k) (int buffer))
      keys (map (loaded a k) xs) (f, h) = Some ((f, h'), Inr (map (loaded a m) xs))"
  using here \<open>k \<le> m\<close>
proof (induction "m - k" arbitrary: k h rule: less_induct)
  case less
  show ?case
  proof (cases "k = m")
    case True
    then show ?thesis
      by (subst read_seq_loop.simps) (simp add: seg_fromSize_def)
  next
    case False
    let ?n = "min buffer (m - k)"
    let ?mem = "\<lparr>seg_front = int k, seg_back = int k + int ?n - 1\<rparr>"
    have n: "0 < ?n" "a + k + ?n \<le> rows" "k + ?n \<le> m"
      using False less.prems(2) assms(4,5) by auto
    obtain h1 where one: "read_each api bt (fms_of_memory (int (a + k)) ?mem) keys (map (loaded a k) xs) (f, h) =
       ((f, h1), Inr (keys, map (loaded a (k + ?n)) xs))" "m_cfitsio_index h1 = m_cfitsio_index h"
      using read_each_loaded [OF less.prems(1) rows xs n keys] by blast
    have clip: "(if seg_back (seg_fromSize (int k) (int buffer)) > int m - 1
        then (seg_fromSize (int k) (int buffer))\<lparr>seg_back := int m - 1\<rparr> else seg_fromSize (int k) (int buffer)) = ?mem"
      using False less.prems(2) by (auto simp: seg_fromSize_def min_def of_nat_diff)
    show ?thesis
    proof (cases "k + buffer \<le> m")
      case True
      then have "?n = buffer"
        by simp
      moreover have "\<exists>h'. read_seq_loop api bt (int buffer) (int m - 1) (seg_fromSize (int (a + (k + buffer))) (int buffer))
          (seg_fromSize (int (k + buffer)) (int buffer)) keys (map (loaded a (k + buffer)) xs) (f, h1) = Some ((f, h'), Inr (map (loaded a m) xs))"
        using less.hyps [of "k + buffer" h1] True assms(4) one(2) less.prems(1) False less.prems(2) by simp
      ultimately show ?thesis
        using False True less.prems(2) one(1) clip
        by (subst read_seq_loop.simps) (simp add: Let_def seg_plus_def seg_fromSize_def algebra_simps)
    next
      case last_chunk: False
      then have "?n = m - k" "k + ?n = m"
        using less.prems(2) by simp_all
      then show ?thesis
        using False less.prems(2) one(1) clip last_chunk
        by (subst read_seq_loop.simps, subst read_seq_loop.simps) (simp add: Let_def seg_plus_def seg_fromSize_def)
    qed
  qed
qed


lemma columns_row_count_same:
  assumes "\<forall>tc \<in> set tcs. row_count (snd tc) = Inr m" and "n = m \<or> n = - 1 \<and> tcs \<noteq> []"
  shows "columns_row_count tcs n = Inr m"
  using assms
proof (induction tcs arbitrary: n)
  case (Cons tc tcs)
  then show ?case
    by (cases tc) (auto split: if_splits)
qed simp

text \<open>
  C3: Reading a sequence of columns by chunks of rows ends, and fills the columns with the rows of the file from the
  requested one on, exactly as one call per column would, whatever the number of rows CFITSIO advises to read at once.\<close>

theorem chunked_reading:
  assumes here: "api_get_hdu_num api f = m_cfitsio_index h" and rows: "api_get_num_rows api f = (int rows, 0)"
    and size: "bt_get_rowsize bt f = (int buffer, 0)" "0 < buffer"
    and xs: "\<forall>x \<in> set xs. column_documented bt f rows x \<and> length (st_memory x) = m * width x" "xs \<noteq> []"
    and keys: "map k_index keys = map (\<lambda>x. Some (int (st_index x))) xs" and "a + m \<le> rows"
  shows "\<exists>h'. read_segment_seq_to api bt (fms_of_memory (int a) seg_whole) keys
                (map (\<lambda>x. (st_type x, make_column (st_info x) (st_memory x))) xs) (f, h) =
     Some ((f, h'), Inr (map (\<lambda>x. (st_type x, make_column (st_info x) (take (m * width x) (drop (a * width x) (st_file x))))) xs))"
proof -
  let ?h = "h\<lparr>m_status := touch_status (m_status h)\<rparr>"
  have start: "map (\<lambda>x. (st_type x, make_column (st_info x) (st_memory x))) xs = map (loaded a 0) xs"
    by (simp add: loaded_def make_column_def)
  have stop: "map (\<lambda>x. (st_type x, make_column (st_info x) (take (m * width x) (drop (a * width x) (st_file x))))) xs = map (loaded a m) xs"
    using xs(1) by (simp add: loaded_def make_column_def)
  have "row_count (snd tc) = Inr (int m)" if "tc \<in> set (map (loaded a 0) xs)" for tc
    using that xs(1) by (auto simp: loaded_def row_count_def column_documented_def width_def nat_mult_distrib)
  then have m: "columns_row_count (map (loaded a 0) xs) (- 1) = Inr (int m)"
    using xs(2) by (intro columns_row_count_same) auto
  have res: "fms_resolve (int rows - 1) (int m - 1) (fms_of_memory (int a) seg_whole) =
      \<lparr>fm_file = \<lparr>seg_front = int a, seg_back = int a + int m - 1\<rparr>, fm_memory = \<lparr>seg_front = 0, seg_back = int m - 1\<rparr>\<rparr>"
    by (simp add: fms_resolve_def fms_of_memory_def seg_whole_def seg_fromSize_def seg_size_def)
  obtain h' where "read_seq_loop api bt (int buffer) (int m - 1) (seg_fromSize (int a) (int buffer)) (seg_fromSize 0 (int buffer))
      keys (map (loaded a 0) xs) (f, ?h) = Some ((f, h'), Inr (map (loaded a m) xs))"
    using read_seq_loop_loaded [of api f ?h rows xs bt m buffer a keys 0] assms by auto
  then show ?thesis
    unfolding start stop read_segment_seq_to_def
    using touch_at [OF here] size(1) m
    by (simp add: io_bind_apply io_then_def read_buffer_row_count_def columns_read_row_count_def on_file_def io_row_count_def rows res)
qed

text \<open>A table of five rows with one integer column.\<close>

definition table_api :: "mem_header cfitsio" where
  "table_api = mem_api\<lparr>api_get_num_rows := \<lambda>f. (5, 0), api_get_num_cols := \<lambda>f. (3, 0)\<rparr>"

definition mem_table :: "mem_header bintable_api" where
  "mem_table =
     \<lparr>bt_get_colnum = \<lambda>n f. (1, 0), bt_get_bcolparms = \<lambda>i f. ((''A'', [], 1), 0), bt_set_hdustruc = \<lambda>f. (f, 0),
      bt_read_tdim = \<lambda>i n f. ((2, [2, 2]), 0), bt_write_tdim = \<lambda>i s f. (f, 0), bt_get_rowsize = \<lambda>f. (2, 0),
      bt_insert_col = \<lambda>i n s f. (f, 0), bt_insert_cols = \<lambda>i ns f. (f, 0), bt_delete_col = \<lambda>i f. (f, 0),
      bt_read_col = \<lambda>t i a n f. (take (nat n) (drop (nat (a - 1)) (map IntVal [10, 20, 30, 40, 50])), 0),
      bt_write_col = \<lambda>t i a vs f. (f, 0), bt_insert_rows = \<lambda>a n f. (f, 0), bt_write_nullrows = \<lambda>a n f. (f, 0),
      bt_create_tbl = \<lambda>cs n f. (f, 0)\<rparr>"

theorem chunked_reading_witness:
  "\<exists>h'. read_segment_seq_to table_api mem_table (fms_of_memory 1 seg_whole) [key_of_index 0]
      [(TInt, make_column \<lparr>ci_is_string = False, ci_Dim = 1, ci_name = ''A'', ci_unit = [], ci_shape = [1]\<rparr> (replicate 3 (IntVal 0)))]
      ([], hdu_init 0 Bintable Untouched) =
    Some (([], h'), Inr [(TInt, make_column \<lparr>ci_is_string = False, ci_Dim = 1, ci_name = ''A'', ci_unit = [], ci_shape = [1]\<rparr>
      [IntVal 20, IntVal 30, IntVal 40])])"
proof -
  let ?i = "\<lparr>ci_is_string = False, ci_Dim = 1, ci_name = ''A'', ci_unit = [], ci_shape = [1]\<rparr>"
  let ?x = "\<lparr>st_type = TInt, st_info = ?i, st_index = 0, st_file = map IntVal [10, 20, 30, 40, 50], st_memory = replicate 3 (IntVal 0)\<rparr>"
  have w: "width ?x = 1" "element_count ?i = 1"
    by (simp_all add: width_def element_count_def repeat_count_def shapeSize_def)
  have doc: "\<forall>x \<in> set [?x]. column_documented mem_table [] 5 x \<and> length (st_memory x) = 3 * width x"
    unfolding column_documented_def using w by (simp add: mem_table_def)
  have here: "api_get_hdu_num table_api [] = m_cfitsio_index (hdu_init 0 Bintable Untouched)"
      "api_get_num_rows table_api [] = (int 5, 0)" "bt_get_rowsize mem_table [] = (int 2, 0)"
    by (simp_all add: table_api_def hdu_init_def mem_table_def) (simp add: mem_api_def)
  have keys: "map k_index [key_of_index 0] = map (\<lambda>x. Some (int (st_index x))) [?x]"
    by (simp add: key_of_index_def)
  show ?thesis
    using chunked_reading [OF here _ doc _ keys, of 1] w(1) by simp
qed

section \<open>Keys\<close>

text \<open>
  A key given by a backward index resolves to the index counted from the end and keeps it, so that any later use of the
  key gives the same column; a backward index beyond the first column is not rejected, and the next use of the same key
  gives another index.\<close>

theorem key_resolution:
  assumes here: "api_get_hdu_num api f = m_cfitsio_index h" and n: "api_get_num_cols api f = (n, 0)" "0 \<le> n" and k: "k_index k = Some i"
  shows "\<exists>h1 k1. key_index api bt k (f, h) = ((f, h1), Inr (if i < 0 then i + n else i, k1)) \<and>
     (\<exists>h2 k2. key_index api bt k1 (f, h1) = ((f, h2), Inr (if i < - n then i + 2 * n else if i < 0 then i + n else i, k2)))"
proof -
  let ?h = "h\<lparr>m_status := touch_status (m_status h)\<rparr>"
  have t: "touch api (f, h) = ((f, ?h), Inr ())" "touch api (f, ?h) = ((f, ?h), Inr ())"
    using here by (simp_all add: touch_at touch_status_def)
  have c: "columns_read_column_count api (f, h) = ((f, ?h), Inr n)" "columns_read_column_count api (f, ?h) = ((f, ?h), Inr n)"
    using n by (simp_all add: columns_read_column_count_def io_then_def io_bind_apply t on_file_def io_column_count_def)
  show ?thesis
    using k n(2) by (cases "i < 0"; cases "i + n < 0") (auto simp: key_index_def io_bind_apply c)
qed

theorem key_resolution_witness:
  "\<exists>h1 k1. key_index table_api mem_table (key_of_index (- 5)) ([], hdu_init 0 Bintable Untouched) = (([], h1), Inr (- 2, k1)) \<and>
     (\<exists>h2 k2. key_index table_api mem_table k1 ([], h1) = (([], h2), Inr (1, k2)))"
  using key_resolution [of table_api "[]" "hdu_init 0 Bintable Untouched" 3 "key_of_index (- 5)" "- 5" mem_table]
  by (simp add: table_api_def hdu_init_def key_of_index_def) (simp add: mem_api_def)

section \<open>Shapes\<close>

text \<open>
  The shape of a column of variable dimension is lost: a \<^verbatim>\<open>TDIM\<close> of one axis gives a field of no element, and one of several
  axes is stored beyond the end of the shape.\<close>

theorem variable_dimension_shape_lost:
  assumes "has_keyword api (''TDIM'' @ to_string i) f = Inr True" and "bt_get_bcolparms bt i f = ((n, u, r), 0)"
    and "bt_read_tdim bt i 999 f = ((naxis, naxes), 0)" and "int (length naxes) = naxis" "0 < naxis"
  shows "read_column_info api bt t (- 1) i f =
    (if naxis = 1 then Inr \<lparr>ci_is_string = (t = TString), ci_Dim = - 1, ci_name = n, ci_unit = u, ci_shape = [0]\<rparr> else Inl Undefined)"
proof -
  have "length naxes \<noteq> 0" "naxis = 1 \<longleftrightarrow> length naxes = 1"
    using assms(4,5) by auto
  then show ?thesis
    using assms
    by (auto simp: read_column_info_def column_info_init_def pos_one_def wr_def read_column_dim_dynamic_def write_block_def)
qed

theorem variable_dimension_shape_lost_witness:
  "read_column_info mem_api mem_table TInt (- 1) 1 [(''TDIM1'', StrVal ''(2,2)'', [])] = Inl Undefined"
proof -
  have one: "to_string 1 = ''1''"
    by code_simp
  have "has_keyword mem_api (''TDIM'' @ to_string 1) [(''TDIM1'', StrVal ''(2,2)'', [])] = Inr True"
    by (simp add: mem_has_keyword one)
  from variable_dimension_shape_lost [OF this, of mem_table "''A''" "[]" 1 2 "[2, 2]" TInt] show ?thesis
    by (simp add: mem_table_def)
qed

section \<open>Several columns at once\<close>

lemma read_chunk_overflow:
  assumes reads: "\<forall>a n. 0 \<le> a \<longrightarrow> 0 \<le> n \<longrightarrow> a + n \<le> rows \<longrightarrow>
       (\<exists>vs. bt_read_col bt t i (a + 1) (n * repeat_count info) f = (vs, 0) \<and> int (length vs) = n * repeat_count info)"
    and t: "t \<noteq> TString" "\<not> ci_is_string info" "1 < repeat_count info"
    and "0 < chunk" "0 \<le> k" "k < rows" "int (length (c_data c)) = rows" "m_info c = info"
  shows "read_columns_loop bt [(t, i)] rows (k + 1) chunk [c] f = Some (Inl Undefined)"
  using assms(5-)
proof (induction "nat (rows - k)" arbitrary: k c chunk rule: less_induct)
  case less
  define n where "n = (if k + 1 + chunk - 1 > rows then rows - (k + 1) + 1 else chunk)"
  let ?w = "repeat_count info"
  have n: "0 < n" "k + n \<le> rows"
    using less.prems by (auto simp: n_def)
  obtain vs where vs: "bt_read_col bt t i (k + 1) (n * ?w) f = (vs, 0)" "int (length vs) = n * ?w"
    using reads n less.prems(2) by (metis less_imp_le)
  have ix: "Fits_Column.column_index c (k + 1 - 1) 0 = k * ?w" "0 \<le> k * ?w"
    using t less.prems by (simp_all add: Fits_Column.column_index_def element_count_def)
  have read: "read_chunks bt [(t, i)] [c] (k + 1) n f =
      rbind (write_block (c_data c) (k * ?w) vs) (\<lambda>d. Inr [c\<lparr>c_data := d\<rparr>])"
    using t(1) vs(1) ix(1) less.prems(5)
    by (simp add: read_column_data_def seg_fromSize_def seg_size_def) (cases "write_block (c_data c) (k * ?w) vs"; simp)
  have step: "read_columns_loop bt [(t, i)] rows (k + 1) chunk [c] f =
      (case read_chunks bt [(t, i)] [c] (k + 1) n f of
         Inl e \<Rightarrow> Some (Inl e) | Inr cs' \<Rightarrow> read_columns_loop bt [(t, i)] rows (k + 1 + n) n cs' f)"
    using less.prems(3) unfolding n_def by (subst read_columns_loop.simps) (simp add: Let_def del: read_chunks.simps)
  have eq: "k + 1 + n = k + n + 1"
    by simp
  show ?case
  proof (cases "(k + n) * ?w \<le> rows")
    case False
    then have "write_block (c_data c) (k * ?w) vs = Inl Undefined"
      using vs(2) less.prems(4) by (simp add: write_block_def algebra_simps)
    then show ?thesis
      by (simp only: step read rbind_simps sum.case)
  next
    case True
    then obtain d where d: "write_block (c_data c) (k * ?w) vs = Inr d"
      using vs(2) less.prems(4) ix(2) by (simp add: write_block_def algebra_simps)
    have len: "length d = length (c_data c)"
      using d by (auto simp: write_block_def split: if_splits)
    have "2 * (k + n) \<le> (k + n) * ?w"
      using t(3) n(1) less.prems(2) by (subst mult.commute) (intro mult_left_mono, auto)
    then have "2 * (k + n) \<le> rows"
      using True by (rule order_trans)
    then have lt: "k + n < rows"
      using n(1) less.prems(2) by presburger
    have "read_columns_loop bt [(t, i)] rows (k + n + 1) n [c\<lparr>c_data := d\<rparr>] f = Some (Inl Undefined)"
      using n(1) lt less.prems len by (intro less.hyps) auto
    then show ?thesis
      by (simp only: step read d rbind_simps sum.case eq)
  qed
qed


text \<open>A table of five rows with one column of two integers per row.\<close>

definition pair_table :: "mem_header bintable_api" where
  "pair_table = mem_table\<lparr>bt_get_bcolparms := \<lambda>i f. ((''A'', [], 2), 0), bt_read_col := \<lambda>t i a n f. (replicate (nat n) (IntVal 7), 0)\<rparr>"


text \<open>
  Writing several columns at once goes up to the number of rows of the longest one: the elements of a shorter one are read beyond
  its end.\<close>

theorem write_columns_shorter_column:
  assumes "row_count c = Inr n" "row_count d = Inr m" "0 \<le> n" "n < m" "m \<le> chunk" and "bt_get_rowsize bt f = (chunk, 0)"
    and "t \<noteq> TString" "\<not> ci_is_string (m_info c)" "0 < element_count (m_info c)"
    and "bt_get_colnum bt (ci_name (m_info c)) f = (i, 0)" "bt_get_colnum bt (ci_name (m_info d)) f = (j, 0)"
    and "\<exists>f'. write_column_data bt u \<lparr>seg_front = 1, seg_back = m\<rparr> j (repeat_count (m_info d)) (c_data d) 0 f = (f', Inr ())"
  shows "\<exists>f'. write_columns bt [(t, c), (u, d)] f = Some (f', Inl Undefined)"
proof -
  obtain f' where w: "write_column_data bt u \<lparr>seg_front = 1, seg_back = m\<rparr> j (repeat_count (m_info d)) (c_data d) 0 f = (f', Inr ())"
    using assms(12) by blast
  have rep: "repeat_count (m_info c) = element_count (m_info c)"
    using assms(8) by (simp add: element_count_def)
  have "int (length (c_data c)) < (n + 1) * element_count (m_info c)"
    using assms(1,9) by (auto simp: row_count_def Let_def split: if_splits)
       (metis add.commute mult.commute pos_mod_bound mult_div_mod_eq add_less_cancel_left distrib_right mult_1)
  also have "\<dots> \<le> m * element_count (m_info c)"
    using assms(4,9) by (intro mult_right_mono) auto
  finally have "read_block (c_data c) 0 (m * repeat_count (m_info c)) = Inl Undefined"
    by (simp add: read_block_def rep)
  then show ?thesis
    using assms w
    by (auto simp: write_columns_def io_column_index_def write_columns_loop.simps [of _ _ _ _ 1] Let_def seg_fromSize_def Fits_Column.column_index_def
        write_column_data_def [of bt t] seg_size_def io_then_def io_bind_apply max_def)
qed

section \<open>Removing columns\<close>

text \<open>What CFITSIO documents of \<^verbatim>\<open>fits_delete_col\<close>, seen through the list of the columns of the table.\<close>

definition deletes_columns :: "'f cfitsio \<Rightarrow> 'f bintable_api \<Rightarrow> ('f \<Rightarrow> 'c list) \<Rightarrow> bool" where
  "deletes_columns api bt columns_of \<longleftrightarrow>
     (\<forall>f. api_get_num_cols api f = (int (length (columns_of f)), 0)) \<and>
     (\<forall>f i. i < length (columns_of f) \<longrightarrow>
        (\<exists>f'. bt_delete_col bt (int i + 1) f = (f', 0) \<and> columns_of f' = take i (columns_of f) @ drop (Suc i) (columns_of f) \<and>
              api_get_hdu_num api f' = api_get_hdu_num api f))"

definition resolved_index :: "nat \<Rightarrow> int \<Rightarrow> int" where
  "resolved_index n i = (if i < 0 then i + int n else i)"

text \<open>A handler that is on its HDU, with a status that its life cycle allows.\<close>

definition on_hdu :: "'f cfitsio \<Rightarrow> 'f \<times> hdu \<Rightarrow> bool" where
  "on_hdu api s \<longleftrightarrow> api_get_hdu_num api (fst s) = m_cfitsio_index (snd s) \<and> status_reachable (m_status (snd s))"

lemma key_index_resolved:
  assumes "on_hdu api (f, h)" and "deletes_columns api bt columns_of" and "k_index k = Some i"
  shows "\<exists>h'. key_index api bt k (f, h) =
     ((f, h'), Inr (resolved_index (length (columns_of f)) i, k\<lparr>k_index := Some (resolved_index (length (columns_of f)) i)\<rparr>)) \<and> on_hdu api (f, h')"
proof (cases "i < 0")
  case True
  have "touch api (f, h) = ((f, h\<lparr>m_status := touch_status (m_status h)\<rparr>), Inr ())"
    using assms(1) by (simp add: on_hdu_def touch_at)
  then show ?thesis
    using True assms
    by (simp add: key_index_def resolved_index_def columns_read_column_count_def io_then_def io_bind_apply on_file_def io_column_count_def
        deletes_columns_def on_hdu_def status_touch)
next
  case False
  then show ?thesis
    using assms by (cases k) (simp add: key_index_def resolved_index_def)
qed

lemma columns_remove_run:
  assumes "on_hdu api (f, h)" and doc: "deletes_columns api bt columns_of" and "k_index k = Some i"
    and "resolved_index (length (columns_of f)) i = int j" "j < length (columns_of f)"
  shows "\<exists>f' h'. columns_remove api bt k (f, h) = ((f', h'), Inr ()) \<and>
     columns_of f' = take j (columns_of f) @ drop (Suc j) (columns_of f) \<and> on_hdu api (f', h')"
proof -
  let ?h = "h\<lparr>m_status := snd (edit_status (m_status h))\<rparr>"
  have e: "edit api (f, h) = ((f, ?h), Inr ())" "on_hdu api (f, ?h)"
    using assms(1) by (simp_all add: on_hdu_def edit_at status_edit)
  obtain h1 where k: "key_index api bt k (f, ?h) = ((f, h1), Inr (int j, k\<lparr>k_index := Some (int j)\<rparr>))" "on_hdu api (f, h1)"
    using key_index_resolved [OF e(2) doc assms(3)] assms(4) by auto
  obtain f' where d: "bt_delete_col bt (int j + 1) f = (f', 0)" "columns_of f' = take j (columns_of f) @ drop (Suc j) (columns_of f)"
      "api_get_hdu_num api f' = api_get_hdu_num api f"
    using doc assms(5) unfolding deletes_columns_def by blast
  have "columns_remove api bt k (f, h) = ((f', h1), Inr ())"
    by (simp add: columns_remove_def io_then_def io_bind_apply e(1) k(1) d(1)) (simp add: key_index_def)
  moreover have "on_hdu api (f', h1)"
    using k(2) d(3) by (simp add: on_hdu_def)
  ultimately show ?thesis
    using d(2) by blast
qed

lemma nths_same: "(\<And>j. j < length xs \<Longrightarrow> j \<in> A \<longleftrightarrow> j \<in> B) \<Longrightarrow> nths xs A = nths xs B"
  unfolding nths_def by (rule arg_cong [where f = "map fst"], rule filter_cong) (auto simp: set_zip)

lemma nths_delete:
  assumes "i < length xs" "S \<subseteq> {..<i}"
  shows "nths (take i xs @ drop (Suc i) xs) (- S) = nths xs (- insert i S)"
proof -
  have xs: "xs = take i xs @ xs ! i # drop (Suc i) xs"
    using assms(1) by (rule id_take_nth_drop)
  have "nths (take i xs) (- S) = nths (take i xs) (- insert i S)"
    by (rule nths_same) (use assms in auto)
  moreover have "{j. j + i \<in> - S} = UNIV" "{j. Suc j + i \<in> - insert i S} = UNIV" "0 + i \<notin> - insert i S"
    using assms(2) by auto
  ultimately show ?thesis
    using assms(1) by (subst (3) xs) (simp add: nths_append nths_Cons)
qed


lemma remove_descending:
  assumes "on_hdu api (f, h)" and doc: "deletes_columns api bt columns_of"
    and "map k_index ks = map (\<lambda>j. Some (int j)) js" and "sorted_wrt (>) js" "\<forall>j \<in> set js. j < length (columns_of f)"
  shows "\<exists>f' h'. io_foreach (columns_remove api bt) ks (f, h) = ((f', h'), Inr ()) \<and> columns_of f' = nths (columns_of f) (- set js)"
  using assms(1,3-)
proof (induction ks arbitrary: f h js)
  case Nil
  then show ?case
    by (auto simp: nths_all)
next
  case (Cons k ks)
  then obtain j js' where js: "js = j # js'" "k_index k = Some (int j)" "map k_index ks = map (\<lambda>j. Some (int j)) js'"
    by (cases js) auto
  obtain f1 h1 where one: "columns_remove api bt k (f, h) = ((f1, h1), Inr ())" "on_hdu api (f1, h1)"
      "columns_of f1 = take j (columns_of f) @ drop (Suc j) (columns_of f)"
    using columns_remove_run [OF Cons.prems(1) doc js(2), of j] Cons.prems(4) js(1) by (auto simp: resolved_index_def)
  have j: "set js' \<subseteq> {..<j}" "j < length (columns_of f)" "sorted_wrt (>) js'"
    using Cons.prems(3,4) js(1) by auto
  then have "\<forall>i \<in> set js'. i < length (columns_of f1)"
    using one(3) by auto
  then obtain f' h' where "io_foreach (columns_remove api bt) ks (f1, h1) = ((f', h'), Inr ())" "columns_of f' = nths (columns_of f1) (- set js')"
    using Cons.IH [OF one(2) js(3) j(3)] by blast
  then show ?case
    using one js(1) nths_delete [OF j(2,1)] by simp
qed

lemma resolve_each:
  assumes "on_hdu api (f, h)" and doc: "deletes_columns api bt columns_of" and "map k_index keys = map Some is"
    and "\<forall>i \<in> set is. 0 \<le> resolved_index (length (columns_of f)) i"
  shows "\<exists>h' ks. io_map (\<lambda>key. io_bind (key_index api bt key) (\<lambda>(i, k). if i < 0 then io_throw Undefined else io_return k)) keys (f, h) =
      ((f, h'), Inr ks) \<and> map k_index ks = map (Some \<circ> resolved_index (length (columns_of f))) is \<and> on_hdu api (f, h')"
  using assms(1,3,4)
proof (induction keys arbitrary: h "is")
  case Nil
  then show ?case
    by simp
next
  case (Cons k keys)
  then obtain i is' where i: "is = i # is'" "k_index k = Some i" "map k_index keys = map Some is'"
    by (cases "is") auto
  let ?r = "resolved_index (length (columns_of f))"
  obtain h1 where k: "key_index api bt k (f, h) = ((f, h1), Inr (?r i, k\<lparr>k_index := Some (?r i)\<rparr>))" "on_hdu api (f, h1)"
    using key_index_resolved [OF Cons.prems(1) doc i(2)] by blast
  obtain h' ks where "io_map (\<lambda>key. io_bind (key_index api bt key) (\<lambda>(i, k). if i < 0 then io_throw Undefined else io_return k)) keys (f, h1) =
      ((f, h'), Inr ks)" "map k_index ks = map (Some \<circ> ?r) is'" "on_hdu api (f, h')"
    using Cons.IH [OF k(2) i(3)] Cons.prems(3) i(1) by auto
  then show ?case
    using k(1) i(1) Cons.prems(3) by simp
qed

text \<open>
  C13: Removing the columns of a sequence of distinct keys, forward or backward, in whatever order they are given, leaves
  exactly the other columns, in their order.\<close>

theorem removing_columns:
  fixes columns_of :: "'f \<Rightarrow> 'c list"
  assumes "on_hdu api (f, h)" and doc: "deletes_columns api bt columns_of" and keys: "map k_index keys = map Some is"
    and "distinct (map (resolved_index (length (columns_of f))) is)"
    and range: "\<forall>i \<in> set is. 0 \<le> resolved_index (length (columns_of f)) i \<and> resolved_index (length (columns_of f)) i < int (length (columns_of f))"
  shows "\<exists>f' h'. columns_remove_seq api bt keys (f, h) = ((f', h'), Inr ()) \<and>
     columns_of f' = nths (columns_of f) {j. int j \<notin> resolved_index (length (columns_of f)) ` set is}"
proof -
  let ?r = "resolved_index (length (columns_of f))"
  consider "keys = []" | k where "keys = [k]" | "2 \<le> length keys"
    by (cases keys rule: remdups_adj.cases) auto
  then show ?thesis
  proof cases
    case 1
    then show ?thesis
      using keys by (simp add: columns_remove_seq_def resolve_keys_def io_bind_apply nths_all)
  next
    case (2 k)
    then obtain i where i: "is = [i]" "k_index k = Some i"
      using keys by (cases "is") auto
    have j: "?r i = int (nat (?r i))" "nat (?r i) < length (columns_of f)"
      using range i(1) by auto
    have "{j. int j \<noteq> ?r i} = - {nat (?r i)}"
      using j(1) by auto
    then show ?thesis
      using columns_remove_run [OF assms(1) doc i(2) j] nths_delete [OF j(2), of "{}"] 2 i(1)
      by (auto simp: columns_remove_seq_def resolve_keys_def io_bind_apply io_then_def nths_all)
  next
    case 3
    obtain h1 ks where ks: "resolve_keys api bt keys (f, h) = ((f, h1), Inr ks)" "map k_index ks = map (Some \<circ> ?r) is" "on_hdu api (f, h1)"
      using resolve_each [OF assms(1) doc keys] range 3 by (auto simp: resolve_keys_def)
    define ks' where "ks' = sort_key (\<lambda>k. - the (k_index k)) ks"
    define js where "js = map (\<lambda>k. nat (the (k_index k))) ks'"
    have ix: "map (\<lambda>k. the (k_index k)) ks = map ?r is"
      using arg_cong [OF ks(2), of "map the"] by (simp add: comp_def)
    have idx: "\<exists>i \<in> set is. k_index k = Some (?r i)" if "k \<in> set ks'" for k
      using that ks(2) unfolding ks'_def by (metis (no_types, lifting) comp_apply in_set_conv_nth length_map nth_map set_sort)
    have kj: "map k_index ks' = map (\<lambda>j. Some (int j)) js"
      using idx range by (fastforce simp: js_def)
    have "distinct (map (\<lambda>k. - the (k_index k)) ks')"
      using assms(4) unfolding ks'_def ix [symmetric] by (auto simp: distinct_map inj_on_def)
    moreover have "sorted (map (\<lambda>k. - the (k_index k)) ks')"
      unfolding ks'_def by (rule sorted_sort_key)
    ultimately have "sorted_wrt (<) (map (\<lambda>k. - the (k_index k)) ks')"
      by (simp add: strict_sorted_iff)
    then have desc: "sorted_wrt (>) js"
      unfolding js_def sorted_wrt_map using idx range by (elim sorted_wrt_mono_rel [rotated]) fastforce
    have "Some ` int ` set js = Some ` ?r ` set is"
      using arg_cong [OF kj, of set] arg_cong [OF ks(2), of set] unfolding ks'_def by (simp add: image_image)
    then have set_js: "int ` set js = ?r ` set is"
      by (simp add: inj_image_eq_iff)
    have "j < length (columns_of f)" if "j \<in> set js" for j
    proof -
      have "int j \<in> ?r ` set is"
        using that set_js by blast
      then show ?thesis
        using range by auto
    qed
    then obtain f' h' where "io_foreach (columns_remove api bt) ks' (f, h1) = ((f', h'), Inr ())" "columns_of f' = nths (columns_of f) (- set js)"
      using remove_descending [OF ks(3) doc kj desc] by blast
    moreover have "{j. int j \<notin> ?r ` set is} = - set js"
      unfolding set_js [symmetric] by auto
    ultimately show ?thesis
      using ks(1) by (simp add: columns_remove_seq_def ks'_def io_bind_apply)
  qed
qed

text \<open>A table whose columns are the entries of a list.\<close>

definition columns_api :: "mem_header cfitsio" where
  "columns_api = mem_api\<lparr>api_get_num_cols := \<lambda>f. (int (length f), 0)\<rparr>"

definition columns_table :: "mem_header bintable_api" where
  "columns_table = mem_table\<lparr>bt_delete_col := \<lambda>i f. (take (nat (i - 1)) f @ drop (nat i) f, 0)\<rparr>"

theorem removing_columns_witness:
  "\<exists>f' h'. columns_remove_seq columns_api columns_table [key_of_index 0, key_of_index (- 1)]
       ([(''A'', IntVal 1, []), (''B'', IntVal 2, []), (''C'', IntVal 3, [])], hdu_init 0 Bintable Untouched) = ((f', h'), Inr ()) \<and>
     map fst f' = [''B'']"
proof -
  let ?f = "[(''A'', IntVal 1, []), (''B'', IntVal 2, []), (''C'', IntVal 3, [])]"
  have on: "on_hdu columns_api (?f, hdu_init 0 Bintable Untouched)"
    by (simp add: on_hdu_def columns_api_def hdu_init_def status_reachable.opened) (simp add: mem_api_def)
  have doc: "deletes_columns columns_api columns_table (map fst)"
    by (simp add: deletes_columns_def columns_api_def columns_table_def nat_add_distrib take_map drop_map) (simp add: mem_api_def)
  have keys: "map k_index [key_of_index 0, key_of_index (- 1)] = map Some [0, - 1]"
    by (simp add: key_of_index_def)
  from removing_columns [OF on doc keys] obtain f' h' where
    "columns_remove_seq columns_api columns_table [key_of_index 0, key_of_index (- 1)] (?f, hdu_init 0 Bintable Untouched) = ((f', h'), Inr ())"
    "map fst f' = nths (map fst ?f) {j. int j \<notin> resolved_index 3 ` {0, - 1}}"
    by (auto simp: resolved_index_def)
  then show ?thesis
    by (simp add: nths_Cons resolved_index_def)
qed

section \<open>Writing by chunks\<close>

text \<open>What a write keeps of the table: the current HDU, the number of rows, the names of the columns.\<close>

definition same_layout :: "'f cfitsio \<Rightarrow> 'f bintable_api \<Rightarrow> 'f \<Rightarrow> 'f \<Rightarrow> bool" where
  "same_layout api bt f f' \<longleftrightarrow> api_get_hdu_num api f' = api_get_hdu_num api f \<and> api_get_num_rows api f' = api_get_num_rows api f \<and>
     (\<forall>n. bt_get_colnum bt n f' = bt_get_colnum bt n f)"

text \<open>
  What CFITSIO documents of \<^verbatim>\<open>fits_write_col\<close> on existing rows, where \<open>cells\<close> are the elements of a column: they are replaced
  from the first element of the given row on, and nothing else changes.
\<close>

definition writes_documented :: "'f cfitsio \<Rightarrow> 'f bintable_api \<Rightarrow> ('f \<Rightarrow> nat \<Rightarrow> payload list) \<Rightarrow> stored list \<Rightarrow> bool" where
  "writes_documented api bt cells xs \<longleftrightarrow>
     (\<forall>x \<in> set xs. \<forall>f a vs. a * width x + length vs \<le> length (cells f (st_index x)) \<longrightarrow>
        (\<exists>f'. bt_write_col bt (st_type x) (int (st_index x) + 1) (int a + 1) vs f = (f', 0) \<and> same_layout api bt f f' \<and>
              cells f' = (cells f)(st_index x := take (a * width x) (cells f (st_index x)) @ vs @
                                                 drop (a * width x + length vs) (cells f (st_index x)))))"

definition writable :: "'f bintable_api \<Rightarrow> ('f \<Rightarrow> nat \<Rightarrow> payload list) \<Rightarrow> nat \<Rightarrow> nat \<Rightarrow> 'f \<Rightarrow> stored \<Rightarrow> bool" where
  "writable bt cells rows m f x \<longleftrightarrow>
     0 < element_count (st_info x) \<and> ci_is_string (st_info x) = (st_type x = TString) \<and> length (st_memory x) = m * width x \<and>
     length (cells f (st_index x)) = rows * width x \<and> bt_get_colnum bt (ci_name (st_info x)) f = (int (st_index x) + 1, 0)"

definition memory_column :: "stored \<Rightarrow> typed_column" where
  "memory_column x = (st_type x, make_column (st_info x) (st_memory x))"

lemma write_segment_run:
  assumes on: "on_hdu api (f, h)" and rows: "api_get_num_rows api f = (int rows, 0)" and doc: "writes_documented api bt cells xs" "x \<in> set xs"
    and wr: "writable bt cells rows m f x" and n: "0 < n" "a + n \<le> rows" "b + n \<le> m"
  shows "\<exists>f' h'. write_segment api bt (fms_of_memory (int a) \<lparr>seg_front = int b, seg_back = int b + int n - 1\<rparr>) (memory_column x) (f, h) =
       ((f', h'), Inr ()) \<and> on_hdu api (f', h') \<and> same_layout api bt f f' \<and>
     cells f' = (cells f)(st_index x := take (a * width x) (cells f (st_index x)) @ take (n * width x) (drop (b * width x) (st_memory x)) @
                                        drop ((a + n) * width x) (cells f (st_index x)))"
proof -
  let ?h = "h\<lparr>m_status := snd (edit_status (m_status h))\<rparr>"
  let ?vs = "take (n * width x) (drop (b * width x) (st_memory x))"
  let ?c = "make_column (st_info x) (st_memory x)"
  have c: "m_info ?c = st_info x" "c_data ?c = st_memory x"
    by (simp_all add: make_column_def)
  have here: "api_get_hdu_num api f = m_cfitsio_index h" "status_reachable (m_status h)"
    using on by (simp_all add: on_hdu_def)
  have e: "edit api (f, h) = ((f, ?h), Inr ())" "touch api (f, ?h) = ((f, ?h), Inr ())"
    using here by (simp_all add: edit_at touch_at status_edit_touch)
  have w: "0 < width x" "element_count (st_info x) = int (width x)"
    using wr by (simp_all add: writable_def width_def)
  have m: "row_count ?c = Inr (int m)"
    using wr w by (simp add: row_count_def make_column_def writable_def)
  have res: "fms_resolve (int rows - 1) (int m - 1) (fms_of_memory (int a) \<lparr>seg_front = int b, seg_back = int b + int n - 1\<rparr>)
      = \<lparr>fm_file = \<lparr>seg_front = int a, seg_back = int a + int n - 1\<rparr>, fm_memory = \<lparr>seg_front = int b, seg_back = int b + int n - 1\<rparr>\<rparr>"
    using n by (simp add: fms_resolve_def fms_of_memory_def seg_fromSize_def seg_size_def)
  have ix: "Fits_Column.column_index ?c (int b) 0 = int (b * width x)"
    using w by (simp add: Fits_Column.column_index_def make_column_def)
  have rep: "(if st_type x = TString then int n else int n * repeat_count (st_info x)) = int (n * width x)"
    using wr w by (auto simp: writable_def element_count_def)
  have "(b + n) * width x \<le> m * width x"
    using n by simp
  then have fits: "b * width x + n * width x \<le> length (st_memory x)"
    using wr by (simp add: writable_def algebra_simps)
  then have rb: "read_block (st_memory x) (int (b * width x)) (int (n * width x)) = Inr ?vs"
    by (simp add: read_block_def nat_mult_distrib flip: of_nat_mult of_nat_add)
  have len: "length ?vs = n * width x"
    using fits by simp
  have "(a + n) * width x \<le> rows * width x"
    using n by simp
  then have "a * width x + length ?vs \<le> length (cells f (st_index x))"
    using wr len by (simp add: writable_def algebra_simps)
  then obtain f' where f': "bt_write_col bt (st_type x) (int (st_index x) + 1) (int a + 1) ?vs f = (f', 0)" "same_layout api bt f f'"
      "cells f' = (cells f)(st_index x := take (a * width x) (cells f (st_index x)) @ ?vs @ drop (a * width x + length ?vs) (cells f (st_index x)))"
    using doc unfolding writes_documented_def by blast
  have sz: "seg_size \<lparr>seg_front = int a + 1, seg_back = int a + int n\<rparr> = int n"
    by (simp add: seg_size_def)
  have data: "write_column_data bt (st_type x) \<lparr>seg_front = int a + 1, seg_back = int a + int n\<rparr> (int (st_index x) + 1) (repeat_count (st_info x))
      (st_memory x) (int (b * width x)) f = (f', Inr ())"
    unfolding write_column_data_def sz rep using rb f'(1) by (simp add: io_bind_apply checked_def del: of_nat_mult)
  have "write_segment api bt (fms_of_memory (int a) \<lparr>seg_front = int b, seg_back = int b + int n - 1\<rparr>) (memory_column x) (f, h) = ((f', ?h), Inr ())"
    using wr data
    by (simp add: write_segment_def memory_column_def io_then_def io_bind_apply e columns_read_row_count_def on_file_def io_row_count_def rows m Let_def res
        columns_read_index_def io_column_index_def writable_def seg_add_def seg_plus_def ix c del: of_nat_mult)
  moreover have "on_hdu api (f', ?h)"
    using f'(2) here by (simp add: on_hdu_def same_layout_def status_edit)
  ultimately show ?thesis
    using f'(2,3) len by (simp add: algebra_simps)
qed


lemma writable_layout: "writable bt cells rows m f x \<Longrightarrow> same_layout api bt f f' \<Longrightarrow>
    length (cells f' (st_index x)) = length (cells f (st_index x)) \<Longrightarrow> writable bt cells rows m f' x"
  by (simp add: writable_def same_layout_def)

lemma same_layout_trans: "same_layout api bt f g \<Longrightarrow> same_layout api bt g h \<Longrightarrow> same_layout api bt f h"
  by (simp add: same_layout_def)

text \<open>The elements of a column of the file once \<open>n\<close> rows of memory, from row \<open>b\<close> on, are at row \<open>a\<close>.\<close>

definition overlay :: "stored \<Rightarrow> nat \<Rightarrow> nat \<Rightarrow> nat \<Rightarrow> payload list \<Rightarrow> payload list" where
  "overlay x a b n vs = take (a * width x) vs @ take (n * width x) (drop (b * width x) (st_memory x)) @ drop ((a + n) * width x) vs"

lemma length_overlay:
  assumes "writable bt cells rows m f x" "a + n \<le> rows" "b + n \<le> m"
  shows "length (overlay x a b n (cells f (st_index x))) = length (cells f (st_index x))"
proof -
  have "(a + n) * width x \<le> rows * width x" "(b + n) * width x \<le> m * width x"
    using assms(2,3) by simp_all
  then show ?thesis
    using assms(1) by (simp add: overlay_def writable_def algebra_simps)
qed

lemma overlay_overlay:
  assumes "writable bt cells rows m f x" "a + k + n \<le> rows" "k + n \<le> m"
  shows "overlay x (a + k) k n (overlay x a 0 k (cells f (st_index x))) = overlay x a 0 (k + n) (cells f (st_index x))"
proof -
  have "(a + k) * width x \<le> rows * width x" "k * width x \<le> m * width x"
    using assms(2,3) by simp_all
  then have l: "length (take (a * width x) (cells f (st_index x))) = a * width x" "length (take (k * width x) (st_memory x)) = k * width x"
    using assms(1) by (simp_all add: writable_def algebra_simps)
  show ?thesis
    using l by (simp add: overlay_def algebra_simps take_add)
qed

lemma write_each_run:
  assumes "on_hdu api (f, h)" and "api_get_num_rows api f = (int rows, 0)" and doc: "writes_documented api bt cells xs"
    and "set ys \<subseteq> set xs" "distinct (map st_index ys)" "\<forall>x \<in> set ys. writable bt cells rows m f x"
    and n: "0 < n" "a + n \<le> rows" "b + n \<le> m"
  shows "\<exists>f' h'. io_foreach (write_segment api bt (fms_of_memory (int a) \<lparr>seg_front = int b, seg_back = int b + int n - 1\<rparr>)) (map memory_column ys) (f, h) =
       ((f', h'), Inr ()) \<and> on_hdu api (f', h') \<and> same_layout api bt f f' \<and>
     (\<forall>x \<in> set ys. cells f' (st_index x) = overlay x a b n (cells f (st_index x))) \<and>
     (\<forall>j. j \<notin> st_index ` set ys \<longrightarrow> cells f' j = cells f j)"
  using assms(1,2,4-6)
proof (induction ys arbitrary: f h)
  case Nil
  then show ?case
    by (simp add: same_layout_def)
next
  case (Cons y ys)
  have y: "y \<in> set xs" "writable bt cells rows m f y"
    using Cons.prems by simp_all
  obtain f1 h1 where one: "write_segment api bt (fms_of_memory (int a) \<lparr>seg_front = int b, seg_back = int b + int n - 1\<rparr>) (memory_column y) (f, h) =
       ((f1, h1), Inr ())" "on_hdu api (f1, h1)" "same_layout api bt f f1" "cells f1 = (cells f)(st_index y := overlay y a b n (cells f (st_index y)))"
    using write_segment_run [OF Cons.prems(1,2) doc y n] by (auto simp: overlay_def)
  have other: "cells f1 (st_index x) = cells f (st_index x)" if "x \<in> set ys" for x
  proof -
    have "st_index x \<noteq> st_index y"
      using that Cons.prems(4) by (metis distinct.simps(2) image_eqI list.simps(9) set_map)
    then show ?thesis
      using one(4) by simp
  qed
  have rows1: "api_get_num_rows api f1 = (int rows, 0)"
    using one(3) Cons.prems(2) by (simp add: same_layout_def)
  have "\<forall>x \<in> set ys. writable bt cells rows m f1 x"
    using Cons.prems(5) one(3) other writable_layout [of bt cells rows m f _ api f1] by simp
  then obtain f' h' where rest: "io_foreach (write_segment api bt (fms_of_memory (int a) \<lparr>seg_front = int b, seg_back = int b + int n - 1\<rparr>)) (map memory_column ys) (f1, h1) =
       ((f', h'), Inr ())" "on_hdu api (f', h')" "same_layout api bt f1 f'"
     "\<forall>x \<in> set ys. cells f' (st_index x) = overlay x a b n (cells f1 (st_index x))" "\<forall>j. j \<notin> st_index ` set ys \<longrightarrow> cells f' j = cells f1 j"
    using Cons.IH [OF one(2) rows1] Cons.prems(3,4) by auto
  have "cells f' (st_index y) = overlay y a b n (cells f (st_index y))"
    using rest(5) one(4) Cons.prems(4) by auto
  moreover have "cells f' j = cells f j" if "j \<notin> st_index ` set (y # ys)" for j
    using that rest(5) one(4) by simp
  ultimately show ?case
    using one(1) rest same_layout_trans [OF one(3) rest(3)] other by (auto simp: io_then_def io_bind_apply)
qed


lemma write_seq_loop_run:
  assumes on: "on_hdu api (f, h)" and rows: "api_get_num_rows api f = (int rows, 0)" and doc: "writes_documented api bt cells xs"
    and "distinct (map st_index xs)" and f0: "\<forall>x \<in> set xs. writable bt cells rows m f0 x" "same_layout api bt f0 f"
    and "0 < buffer" "a + m \<le> rows" "k \<le> m"
    and "\<forall>x \<in> set xs. cells f (st_index x) = overlay x a 0 k (cells f0 (st_index x))" "\<forall>j. j \<notin> st_index ` set xs \<longrightarrow> cells f j = cells f0 j"
  shows "\<exists>f' h'. write_seq_loop api bt (int buffer) (int m - 1) (seg_fromSize (int k) (int buffer)) (seg_fromSize (int (a + k)) (int buffer))
      (map memory_column xs) (f, h) = Some ((f', h'), Inr ()) \<and>
     (\<forall>x \<in> set xs. cells f' (st_index x) = overlay x a 0 m (cells f0 (st_index x))) \<and> (\<forall>j. j \<notin> st_index ` set xs \<longrightarrow> cells f' j = cells f0 j)"
  using on rows f0(2) assms(9-)
proof (induction "m - k" arbitrary: k f h rule: less_induct)
  case less
  show ?case
  proof (cases "k = m")
    case True
    then show ?thesis
      using less.prems by (subst write_seq_loop.simps) (simp add: seg_fromSize_def)
  next
    case False
    define n where "n = min buffer (m - k)"
    let ?mem = "\<lparr>seg_front = int k, seg_back = int k + int n - 1\<rparr>"
    have n: "0 < n" "a + k + n \<le> rows" "k + n \<le> m"
      using False less.prems(4) assms(7,8) by (auto simp: n_def)
    have wr: "\<forall>x \<in> set xs. writable bt cells rows m f x"
    proof
      fix x
      assume x: "x \<in> set xs"
      then have w0: "writable bt cells rows m f0 x"
        using f0(1) by simp
      show "writable bt cells rows m f x"
        using length_overlay [OF w0, of a k 0] less.prems(3-5) assms(8) x by (intro writable_layout [OF w0]) simp_all
    qed
    obtain f1 h1 where one: "io_foreach (write_segment api bt (fms_of_memory (int (a + k)) ?mem)) (map memory_column xs) (f, h) = ((f1, h1), Inr ())"
        "on_hdu api (f1, h1)" "same_layout api bt f f1" "\<forall>x \<in> set xs. cells f1 (st_index x) = overlay x (a + k) k n (cells f (st_index x))"
        "\<forall>j. j \<notin> st_index ` set xs \<longrightarrow> cells f1 j = cells f j"
      using write_each_run [OF less.prems(1,2) doc subset_refl assms(4) wr n] by blast
    have cells1: "\<forall>x \<in> set xs. cells f1 (st_index x) = overlay x a 0 (k + n) (cells f0 (st_index x))"
      using one(4) less.prems(5) f0(1) overlay_overlay [of bt cells rows m f0, OF _ n(2,3)] by simp
    have clip: "(if seg_back (seg_fromSize (int k) (int buffer)) > int m - 1
        then (seg_fromSize (int k) (int buffer))\<lparr>seg_back := int m - 1\<rparr> else seg_fromSize (int k) (int buffer)) = ?mem"
      using False less.prems(4) by (auto simp: n_def seg_fromSize_def min_def of_nat_diff)
    have step: "write_seq_loop api bt (int buffer) (int m - 1) (seg_fromSize (int k) (int buffer)) (seg_fromSize (int (a + k)) (int buffer))
        (map memory_column xs) (f, h) =
      write_seq_loop api bt (int buffer) (int m - 1) (seg_plus ?mem (int buffer)) (seg_plus (seg_fromSize (int (a + k)) (int buffer)) (int buffer))
        (map memory_column xs) (f1, h1)"
      using False less.prems(4) one(1) clip by (subst write_seq_loop.simps) (simp add: Let_def seg_fromSize_def)
    show ?thesis
    proof (cases "k + buffer \<le> m")
      case True
      then have "n = buffer"
        by (simp add: n_def)
      moreover have "\<exists>f' h'. write_seq_loop api bt (int buffer) (int m - 1) (seg_fromSize (int (k + n)) (int buffer)) (seg_fromSize (int (a + (k + n))) (int buffer))
          (map memory_column xs) (f1, h1) = Some ((f', h'), Inr ()) \<and>
         (\<forall>x \<in> set xs. cells f' (st_index x) = overlay x a 0 m (cells f0 (st_index x))) \<and> (\<forall>j. j \<notin> st_index ` set xs \<longrightarrow> cells f' j = cells f0 j)"
      proof (rule less.hyps)
        show "m - (k + n) < m - k"
          using n(1,3) by simp
        show "api_get_num_rows api f1 = (int rows, 0)" "same_layout api bt f0 f1"
          using one(3) less.prems(2,3) same_layout_trans by (auto simp: same_layout_def)
        show "\<forall>j. j \<notin> st_index ` set xs \<longrightarrow> cells f1 j = cells f0 j"
          using one(5) less.prems(6) by simp
      qed (use one(2) n(3) cells1 in auto)
      ultimately show ?thesis
        unfolding step by (simp add: seg_plus_def seg_fromSize_def algebra_simps)
    next
      case last_chunk: False
      then have "k + n = m"
        using n by (simp add: n_def)
      then show ?thesis
        unfolding step using cells1 one(5) less.prems(6) last_chunk
        by (subst write_seq_loop.simps) (simp add: seg_plus_def)
    qed
  qed
qed


text \<open>
  C4: Writing a sequence of columns by chunks of rows ends, and replaces the rows of the file from the given one on by those of
  the columns, whatever the number of rows CFITSIO advises to write at once; other rows and other columns are left as they are.\<close>

theorem chunked_writing:
  assumes on: "on_hdu api (f, h)" and rows: "api_get_num_rows api f = (int rows, 0)" and doc: "writes_documented api bt cells xs"
    and xs: "distinct (map st_index xs)" "xs \<noteq> []" "\<forall>x \<in> set xs. writable bt cells rows m f x"
    and size: "bt_get_rowsize bt f = (int buffer, 0)" "0 < buffer" and "a + m \<le> rows"
  shows "\<exists>f' h'. write_segment_seq api bt (fms_of_memory (int a) seg_whole) (map memory_column xs) (f, h) = Some ((f', h'), Inr ()) \<and>
     (\<forall>x \<in> set xs. cells f' (st_index x) =
        take (a * width x) (cells f (st_index x)) @ st_memory x @ drop ((a + m) * width x) (cells f (st_index x))) \<and>
     (\<forall>j. j \<notin> st_index ` set xs \<longrightarrow> cells f' j = cells f j)"
proof -
  let ?h = "h\<lparr>m_status := touch_status (m_status h)\<rparr>"
  have t: "touch api (f, h) = ((f, ?h), Inr ())" "on_hdu api (f, ?h)"
    using on by (simp_all add: on_hdu_def touch_at status_touch)
  have "row_count (snd tc) = Inr (int m)" if "tc \<in> set (map memory_column xs)" for tc
    using that xs(3) by (auto simp: memory_column_def make_column_def row_count_def writable_def width_def nat_mult_distrib)
  then have m: "columns_row_count (map memory_column xs) (- 1) = Inr (int m)"
    using xs(2) by (intro columns_row_count_same) auto
  have res: "fms_resolve (int rows - 1) (int m - 1) (fms_of_memory (int a) seg_whole) =
      \<lparr>fm_file = \<lparr>seg_front = int a, seg_back = int a + int m - 1\<rparr>, fm_memory = \<lparr>seg_front = 0, seg_back = int m - 1\<rparr>\<rparr>"
    by (simp add: fms_resolve_def fms_of_memory_def seg_whole_def seg_fromSize_def seg_size_def)
  have "\<exists>f' h'. write_seq_loop api bt (int buffer) (int m - 1) (seg_fromSize (int 0) (int buffer)) (seg_fromSize (int (a + 0)) (int buffer))
      (map memory_column xs) (f, ?h) = Some ((f', h'), Inr ()) \<and>
     (\<forall>x \<in> set xs. cells f' (st_index x) = overlay x a 0 m (cells f (st_index x))) \<and> (\<forall>j. j \<notin> st_index ` set xs \<longrightarrow> cells f' j = cells f j)"
    by (rule write_seq_loop_run [OF t(2) rows doc xs(1,3)]) (use assms in \<open>simp_all add: same_layout_def overlay_def\<close>)
  then obtain f' h' where "write_seq_loop api bt (int buffer) (int m - 1) (seg_fromSize 0 (int buffer)) (seg_fromSize (int a) (int buffer))
      (map memory_column xs) (f, ?h) = Some ((f', h'), Inr ())"
     "\<forall>x \<in> set xs. cells f' (st_index x) = overlay x a 0 m (cells f (st_index x))" "\<forall>j. j \<notin> st_index ` set xs \<longrightarrow> cells f' j = cells f j"
    by auto
  then show ?thesis
    using xs(3) t(1) size(1) m
    by (simp add: write_segment_seq_def io_bind_apply io_then_def read_buffer_row_count_def columns_read_row_count_def on_file_def io_row_count_def rows res
        overlay_def writable_def)
qed

text \<open>A table of one integer column, whose elements are the values of a header kept in memory.\<close>

definition store_cells :: "mem_header \<Rightarrow> nat \<Rightarrow> payload list" where
  "store_cells f j = (if j = 0 then map (fst \<circ> snd) f else [])"

definition store_table :: "mem_header bintable_api" where
  "store_table = mem_table\<lparr>bt_write_col := \<lambda>t i a vs f.
     (take (nat (a - 1)) f @ map (\<lambda>v. ([], v, [])) vs @ drop (nat (a - 1) + length vs) f, 0)\<rparr>"

theorem chunked_writing_witness:
  "\<exists>f' h'. write_segment_seq table_api store_table (fms_of_memory 1 seg_whole)
      [(TInt, make_column \<lparr>ci_is_string = False, ci_Dim = 1, ci_name = ''A'', ci_unit = [], ci_shape = [1]\<rparr> [IntVal 1, IntVal 2, IntVal 3])]
      (replicate 5 ([], IntVal 0, []), hdu_init 0 Bintable Untouched) = Some ((f', h'), Inr ()) \<and>
     store_cells f' 0 = [IntVal 0, IntVal 1, IntVal 2, IntVal 3, IntVal 0]"
proof -
  let ?i = "\<lparr>ci_is_string = False, ci_Dim = 1, ci_name = ''A'', ci_unit = [], ci_shape = [1]\<rparr>"
  let ?x = "\<lparr>st_type = TInt, st_info = ?i, st_index = 0, st_file = [], st_memory = [IntVal 1, IntVal 2, IntVal 3]\<rparr>"
  let ?f = "replicate 5 ([], IntVal 0, [])"
  have w: "width ?x = 1" "element_count ?i = 1"
    by (simp_all add: width_def element_count_def repeat_count_def shapeSize_def)
  have doc: "writes_documented table_api store_table store_cells [?x]"
    using w(1) by (auto simp: writes_documented_def store_table_def store_cells_def same_layout_def table_api_def mem_table_def take_map drop_map fun_eq_iff comp_def)
       (simp_all add: mem_api_def)
  have wr: "\<forall>x \<in> set [?x]. writable store_table store_cells 5 3 ?f x"
    using w by (simp add: writable_def store_cells_def store_table_def mem_table_def)
  have on: "on_hdu table_api (?f, hdu_init 0 Bintable Untouched)" "api_get_num_rows table_api ?f = (int 5, 0)" "bt_get_rowsize store_table ?f = (int 2, 0)"
    by (simp_all add: on_hdu_def table_api_def hdu_init_def status_reachable.opened store_table_def mem_table_def) (simp add: mem_api_def)
  show ?thesis
    using chunked_writing [OF on(1,2) doc _ _ wr on(3), of 1] w(1) by (simp add: memory_column_def store_cells_def eval_nat_numeral)
qed

end
