(* ===== verification/Fits_SifLaws.thy ===== *)
theory Fits_SifLaws
  imports Fits_Place Fits_BintableLaws
begin

text \<open>
  Single-image files: what \<^verbatim>\<open>SifFile::write\<close> writes is what \<^verbatim>\<open>ImageRaster::read\<close> reads.
\<close>

section \<open>What CFITSIO documents of images\<close>

definition same_image :: "'f cfitsio \<Rightarrow> 'f \<Rightarrow> 'f \<Rightarrow> bool" where
  "same_image api f f' \<longleftrightarrow> api_get_hdu_num api f' = api_get_hdu_num api f \<and> api_get_img_size api f' = api_get_img_size api f \<and>
     api_get_img_equivtype api f' = api_get_img_equivtype api f"

text \<open>Resizing sets the type and the shape of the current image; pixels of that type are read as they were written.\<close>

definition images_documented :: "'f cfitsio \<Rightarrow> ('f, 'a) pixel_api \<Rightarrow> bool" where
  "images_documented api px \<longleftrightarrow>
     (\<forall>b shape f f'. px_resize_img px b shape f = (f', 0) \<longrightarrow>
        api_get_hdu_num api f' = api_get_hdu_num api f \<and> api_get_img_size api f' = (shape, 0) \<and> api_get_img_equivtype api f' = (b, 0)) \<and>
     (\<forall>t b shape data f f'. bitpix t = Some b \<longrightarrow> api_get_img_equivtype api f = (b, 0) \<longrightarrow> api_get_img_size api f = (shape, 0) \<longrightarrow>
        int (length data) = shapeSize shape \<longrightarrow> px_write_img px t 1 data f = (f', 0) \<longrightarrow>
        same_image api f f' \<and> px_read_img px t 1 (int (length data)) f' = (data, 0))"

text \<open>Records of other keywords than those that describe the image leave it as it is.\<close>

definition keywords_documented :: "'f cfitsio \<Rightarrow> string set \<Rightarrow> bool" where
  "keywords_documented api K \<longleftrightarrow>
     (\<forall>k f. k \<in> K \<longrightarrow> (\<forall>t v c. same_image api f (fst (api_update_key api t k v c f))) \<and>
        (\<forall>v c. same_image api f (fst (api_write_key_longstr api k v c f))) \<and> same_image api f (fst (api_delete_key api k f))) \<and>
     (\<forall>f. same_image api f (fst (api_write_key_longwarn api f)))"

lemma same_image_refl [simp]: "same_image api f f"
  by (simp add: same_image_def)

lemma same_image_trans: "same_image api f g \<Longrightarrow> same_image api g h \<Longrightarrow> same_image api f h"
  by (simp add: same_image_def)

section \<open>Writing records\<close>

definition same_image_place :: "'f cfitsio \<Rightarrow> 'f \<times> hdu \<Rightarrow> 'f \<times> hdu \<Rightarrow> bool" where
  "same_image_place api fh fh' \<longleftrightarrow> (on_hdu api fh \<longrightarrow> on_hdu api fh' \<and> same_image api (fst fh) (fst fh'))"

interpretation image_kept: kept_relation "same_image_place api" for api
  by unfold_locales (auto simp: same_image_place_def intro: same_image_trans)

lemma image_edit: "preserves (same_image_place api) (edit api)"
  unfolding preserves_def same_image_place_def on_hdu_def split_paired_all
  by (simp add: edit_at status_edit)

lemma image_on_file:
  assumes "preserves (same_image api) m"
  shows "preserves (same_image_place api) (on_file m)"
  using assms by (auto simp: preserves_def same_image_place_def on_hdu_def on_file_def same_image_def split: prod.splits)
    (metis fst_conv)+

interpretation stored_kept: kept_relation "same_image api" for api
  by unfold_locales (auto intro: same_image_trans)

lemma image_checked: "(\<And>f. same_image api f (fst (w f))) \<Longrightarrow> preserves (same_image api) (checked w msg)"
  by (simp add: preserves_def checked_def split_beta)

lemma image_update_string:
  assumes "keywords_documented api K" and "rec_keyword r \<in> K"
  shows "preserves (same_image api) (update_record_string api r)"
proof -
  have doc: "same_image api f (fst (api_update_key api t (rec_keyword r) v c f))" "same_image api f (fst (api_write_key_longstr api (rec_keyword r) s c f))"
    "same_image api f (fst (api_delete_key api (rec_keyword r) f))" "same_image api f (fst (api_write_key_longwarn api f))" for f t v s c
    using assms by (simp_all add: keywords_documented_def)
  have "same_image api f (fst (case (if is_long_string r then api_write_key_longwarn api f else (f, 0)) of (f', st) \<Rightarrow>
           after_status st (api_write_key_longstr api (rec_keyword r) (string_payload (rec_value r)) (raw_comment r)) f'))" for f
    using doc(2,4) same_image_trans [OF doc(4) doc(2)] by (simp add: after_status_def split_beta)
  then have stored: "preserves (same_image api) (write_record_string api r)"
    unfolding write_record_string_def by (rule image_checked)
  show ?thesis
    unfolding update_record_string_def remove_record_def
    by (intro stored_kept.preserves_rules image_checked stored doc)
qed

lemma image_record:
  assumes "keywords_documented api K" and "rec_keyword r \<in> K"
  shows "preserves (same_image_place api) (record_writer api CreateOrUpdate r)"
proof -
  let ?r = "variant_payload_record r"
  have k: "rec_keyword ?r \<in> K"
    using assms(2) by (simp add: variant_payload_record_def record_init_def)
  have "same_image api f (fst (api_update_key api t (rec_keyword ?r) v c f))" for f t v c
    using assms(1) k by (simp add: keywords_documented_def)
  then have "preserves (same_image api) (update_record_bool api ?r)" "preserves (same_image api) (update_record api t ?r)" for t
    unfolding update_record_bool_def update_record_def by (intro image_checked; simp)+
  then have "preserves (same_image api) (update_record_any api r)"
    using image_update_string [OF assms(1) k] by (simp add: update_record_any_def update_record_as_def)
  then show ?thesis
    by (simp add: image_on_file)
qed

lemma image_records:
  assumes "keywords_documented api K" and "rec_keyword ` set records \<subseteq> K"
  shows "preserves (same_image_place api) (header_write_seq api CreateOrUpdate records)"
  unfolding header_write_seq_def using assms
  by (intro image_kept.preserves_then image_kept.preserves_foreach image_edit image_record) auto

section \<open>Writing and reading an image\<close>

lemma edit_places:
  assumes "moves_documented api" and "status_reachable (m_status h)" and "edit api (f, h) = (fh', Inr x)"
  shows "on_hdu api fh'"
proof -
  obtain fh1 y where 1: "touch api (f, h) = (fh1, Inr y)"
    using assms(3) by (auto simp: edit_def io_then_success)
  have place: "in_place api fh1"
    using settles_touch [OF assms(1)] 1 unfolding settles_def by blast
  have "m_status (snd fh1) = touch_status (m_status h)"
    using 1 by (auto simp: touch_def io_then_success on_file_def split: prod.splits)
  then have "fh' = (fst fh1, (snd fh1)\<lparr>m_status := snd (edit_status (m_status h))\<rparr>)"
    using assms(2,3) 1 handler_status_edit [OF assms(2)]
    by (auto simp: edit_def io_then_def io_bind_apply edit_status_def split: prod.splits option.splits)
  then show ?thesis
    using place assms(2) by (simp add: on_hdu_def in_place_def current_index_def status_edit)
qed

lemma resize_places:
  assumes "moves_documented api" and "images_documented api px" and "status_reachable (m_status h)"
    and "raster_update_type_shape api px t shape (f, h) = ((f', h'), Inr ())"
  shows "on_hdu api (f', h') \<and> api_get_img_size api f' = (shape, 0) \<and> (\<exists>b. bitpix t = Some b \<and> api_get_img_equivtype api f' = (b, 0))"
proof -
  obtain f1 h1 where e: "edit api (f, h) = ((f1, h1), Inr ())" and u: "on_file (update_type_shape px t shape) (f1, h1) = ((f', h'), Inr ())"
    using assms(4) by (auto simp: raster_update_type_shape_def io_then_success)
  then obtain b where b: "bitpix t = Some b" "px_resize_img px b shape f1 = (f', 0)" "h' = h1"
    by (auto simp: on_file_success update_type_shape_def checked_def split: option.splits prod.splits)
  then show ?thesis
    using edit_places [OF assms(1,3) e] assms(2) unfolding images_documented_def on_hdu_def by fastforce
qed

lemma write_then_read:
  assumes "images_documented api px" and on: "on_hdu api (f, h)" and size: "api_get_img_size api f = (m_shape ra, 0)"
    and type: "bitpix t = Some b" "api_get_img_equivtype api f = (b, 0)"
    and wf: "raster_wf ra" and "raster_write api px t ra (f, h) = ((f', h'), Inr ())"
  shows "\<exists>h''. raster_read api px zero t (f', h') = ((f', h''), Inr (ra\<lparr>Dim := - 1\<rparr>))"
proof -
  let ?h = "h\<lparr>m_status := snd (edit_status (m_status h))\<rparr>"
  have "edit api (f, h) = ((f, ?h), Inr ())"
    using on by (simp add: on_hdu_def edit_at)
  then have w: "px_write_img px t 1 (m_data ra) f = (f', 0)" "h' = ?h"
    using assms(7) by (auto simp: raster_write_def on_file_success write_raster_def checked_def io_then_success may_throw_readonly_def
        split: prod.splits if_splits)
  have len: "int (length (m_data ra)) = shapeSize (m_shape ra)"
    using wf by (simp add: raster_wf_def)
  have doc: "same_image api f f'" "px_read_img px t 1 (int (length (m_data ra))) f' = (m_data ra, 0)"
    using assms(1) type size len w(1) unfolding images_documented_def by blast+
  have here: "on_hdu api (f', h')"
    using on doc(1) w(2) by (simp add: on_hdu_def same_image_def status_edit)
  let ?h2 = "h'\<lparr>m_status := snd (edit_status (m_status h'))\<rparr>"
  have shape: "raster_read_shape api (f', h') = ((f', ?h2), Inr (m_shape ra))"
    using here size doc(1) by (simp add: raster_read_shape_def io_then_def io_bind_apply on_hdu_def edit_at on_file_def read_shape_dynamic_def same_image_def)
  have zero: "raster_zero zero (- 1) (m_shape ra) = Inr \<lparr>Dim = - 1, m_shape = m_shape ra, m_data = replicate (length (m_data ra)) zero\<rparr>"
    using len by (simp add: raster_zero_def holder_vector_def)
  have "api_get_hdu_num api f' = m_cfitsio_index ?h2"
    using here by (simp add: on_hdu_def)
  then have "raster_read_to api px t \<lparr>Dim = - 1, m_shape = m_shape ra, m_data = replicate (length (m_data ra)) zero\<rparr> (f', ?h2) =
      ((f', ?h2\<lparr>m_status := touch_status (m_status ?h2)\<rparr>), Inr (ra\<lparr>Dim := - 1\<rparr>))"
    using doc(2) by (simp add: raster_read_to_def io_then_def io_bind_apply touch_at on_file_def read_raster_to_def write_block_def)
  then show ?thesis
    unfolding raster_read_def using shape zero by (intro exI) (simp add: io_bind_apply)
qed

section \<open>Single-image files\<close>

lemma with_sif_then: "io_then (with_sif m) (with_sif n) = with_sif (io_then m n)"
  by (intro ext) (auto simp: with_sif_def io_then_def io_bind_apply split: option.splits prod.splits sum.splits)

text \<open>
  C7: What \<^verbatim>\<open>SifFile::write\<close> writes is read back.  If writing records and a raster succeeds, where no record is one of those that describe the
  image, then reading the raster of the file, with the pixel type it was written with, gives the same shape and the same pixels.\<close>

theorem sif_roundtrip:
  assumes "moves_documented api" and "images_documented api px" and "keywords_documented api K"
    and "rec_keyword ` set records \<subseteq> K" and "raster_wf ra" and "status_reachable (m_status (sif_hdu s))"
    and "sif_write api px t records ra s = (s', Inr ())"
  shows "\<exists>s''. with_sif (raster_read api px zero t) s' = (s'', Inr (ra\<lparr>Dim := - 1\<rparr>))"
proof -
  let ?h = "sif_hdu s"
  obtain f where f: "m_fptr s = Some f"
    using assms(7) by (cases "m_fptr s") (auto simp: sif_write_def with_sif_def io_then_def io_bind_apply)
  let ?m = "io_then (raster_update_type_shape api px t (m_shape ra))
    (io_then (header_write_seq api CreateOrUpdate records) (raster_write api px t ra))"
  have "with_sif ?m s = (s', Inr ())"
    using assms(7) by (simp only: sif_write_def with_sif_then)
  then obtain f' h' where run: "?m (f, ?h) = ((f', h'), Inr ())" and s': "s' = s\<lparr>m_fptr := Some f', sif_hdu := h'\<rparr>"
    using f by (auto simp: with_sif_def split: prod.splits)
  obtain f1 h1 where 1: "raster_update_type_shape api px t (m_shape ra) (f, ?h) = ((f1, h1), Inr ())"
    and 2: "io_then (header_write_seq api CreateOrUpdate records) (raster_write api px t ra) (f1, h1) = ((f', h'), Inr ())"
    using run by (auto simp: io_then_success)
  obtain f2 h2 where 3: "header_write_seq api CreateOrUpdate records (f1, h1) = ((f2, h2), Inr ())"
    and 4: "raster_write api px t ra (f2, h2) = ((f', h'), Inr ())"
    using 2 by (auto simp: io_then_success)
  obtain b where resized: "on_hdu api (f1, h1)" "api_get_img_size api f1 = (m_shape ra, 0)" "bitpix t = Some b" "api_get_img_equivtype api f1 = (b, 0)"
    using resize_places [OF assms(1,2,6) 1] by blast
  have "same_image_place api (f1, h1) (f2, h2)"
    using preservesD [OF image_records [OF assms(3,4)] 3] .
  then have "on_hdu api (f2, h2)" "api_get_img_size api f2 = (m_shape ra, 0)" "api_get_img_equivtype api f2 = (b, 0)"
    using resized by (simp_all add: same_image_place_def same_image_def)
  from write_then_read [OF assms(2) this(1,2) resized(3) this(3) assms(5) 4]
  obtain h'' where "raster_read api px zero t (f', h') = ((f', h''), Inr (ra\<lparr>Dim := - 1\<rparr>))"
    by blast
  then show ?thesis
    unfolding s' by (simp add: with_sif_def)
qed

text \<open>A file of one image: its shape, its type and its pixels.\<close>

type_synonym plate = "(position \<times> int) \<times> int list"

definition plate_api :: "plate cfitsio" where
  "plate_api =
     \<lparr>api_get_hdu_num = \<lambda>f. 1, api_get_num_hdus = \<lambda>f. (1, 0), api_get_hdu_type = \<lambda>f. (IMAGE_HDU, 0),
      api_get_hduaddr = \<lambda>f. ((0, 2880), 0), api_movabs_hdu = \<lambda>i f. (f, if i = 1 then 0 else 107), api_movrel_hdu = \<lambda>i f. (f, if i = 0 then 0 else 107),
      api_movnam_hdu = \<lambda>t n v f. (f, 0), api_delete_hdu = \<lambda>f. (f, 0), api_create_img = \<lambda>t s f. (f, 0),
      api_verify_chksum = \<lambda>f. ((1, 1), 0), api_write_chksum = \<lambda>f. (f, 0), api_file_mode = \<lambda>f. (READWRITE, 0),
      api_hdr2str = \<lambda>b f. ([], 0), api_get_hdrspace = \<lambda>f. (0, 0), api_read_keyn = \<lambda>i f. (([], []), 0),
      api_get_key_strlen = \<lambda>k f. (0, KEY_NO_EXIST), api_read_key = \<lambda>t k f. ((IntVal 0, []), KEY_NO_EXIST),
      api_read_key_longstr = \<lambda>k f. (([], []), KEY_NO_EXIST), api_read_key_unit = \<lambda>k f. ([], KEY_NO_EXIST),
      api_read_keyword = \<lambda>k f. ([], KEY_NO_EXIST), api_get_keytype = \<lambda>v. (CHR ''I'', 0),
      api_write_key = \<lambda>t k v c f. (f, 0), api_update_key = \<lambda>t k v c f. (f, 0), api_write_key_longwarn = \<lambda>f. (f, 0),
      api_write_key_longstr = \<lambda>k s c f. (f, 0), api_delete_key = \<lambda>k f. (f, 0), api_write_comment = \<lambda>c f. (f, 0),
      api_write_history = \<lambda>h f. (f, 0), api_get_img_equivtype = \<lambda>f. (snd (fst f), 0), api_get_img_size = \<lambda>f. (fst (fst f), 0),
      api_is_compressed_image = \<lambda>f. (False, 0), api_get_num_cols = \<lambda>f. (0, 0), api_get_num_rows = \<lambda>f. (0, 0)\<rparr>"

definition plate_pixels :: "(plate, int) pixel_api" where
  "plate_pixels =
     \<lparr>px_read_img = \<lambda>t first n f. (take (nat n) (snd f), 0), px_read_subset = \<lambda>t lo hi step f. ([], 0),
      px_write_img = \<lambda>t first data f. ((fst f, data), 0), px_write_subset = \<lambda>t lo hi data f. (f, 0), px_write_pix = \<lambda>t pos data f. (f, 0),
      px_get_img_type = \<lambda>f. (snd (fst f), 0), px_resize_img = \<lambda>b shape f. (((shape, b), []), 0)\<rparr>"

lemma plate_documented:
  "moves_documented plate_api" "images_documented plate_api plate_pixels" "keywords_documented plate_api UNIV"
  by (auto simp: moves_documented_def images_documented_def keywords_documented_def same_image_def plate_api_def plate_pixels_def)

definition plate_file :: "plate sif_file" where
  "plate_file = \<lparr>m_fptr = Some (([], 8), []), m_filename = [], m_permission = Create, sif_hdu = hdu_init 0 Image Untouched\<rparr>"

theorem sif_roundtrip_witness:
  "\<exists>s''. with_sif (raster_read plate_api plate_pixels 0 TInt)
     (fst (sif_write plate_api plate_pixels TInt [record_init ''OBJECT'' (Variant TString (StrVal ''M31'')) [] []] (makeRaster [1, 2, 3, 4, 5, 6] [2, 3])
        plate_file)) = (s'', Inr \<lparr>Dim = - 1, m_shape = [2, 3], m_data = [1, 2, 3, 4, 5, 6]\<rparr>)"
proof -
  let ?rs = "[record_init ''OBJECT'' (Variant TString (StrVal ''M31'')) [] []]" and ?ra = "makeRaster [1, 2, 3, 4, 5, 6] [2, 3] :: int raster"
  have "snd (sif_write plate_api plate_pixels TInt ?rs ?ra plate_file) = Inr ()"
    by code_simp
  then have run: "sif_write plate_api plate_pixels TInt ?rs ?ra plate_file = (fst (sif_write plate_api plate_pixels TInt ?rs ?ra plate_file), Inr ())"
    by (simp only: prod_eq_iff fst_conv snd_conv)
  have "raster_wf ?ra" "status_reachable (m_status (sif_hdu plate_file))" "?ra\<lparr>Dim := - 1\<rparr> = \<lparr>Dim = - 1, m_shape = [2, 3], m_data = [1, 2, 3, 4, 5, 6]\<rparr>"
    by (simp_all add: raster_wf_def makeRaster_def shapeSize_def plate_file_def hdu_init_def status_reachable.opened)
  then show ?thesis
    using sif_roundtrip [OF plate_documented _ _ _ run, of 0] by simp
qed

end
