(* ===== verification/Fits_ErrorReport.thy ===== *)
theory Fits_ErrorReport
  imports Fits_Hdu
begin

text \<open>
  The exceptions that report errors of CFITSIO (\<^verbatim>\<open>ErrorWrapper.cpp\<close>).  The constructor of an exception describes the file, and calls functions
  for that which may throw exceptions of the same class themselves.
\<close>

section \<open>The model\<close>

text \<open>What CFITSIO knows beside the file: its version, the text of its codes, the messages of its error stack.\<close>

record 'f error_api =
  er_file_name :: "'f \<Rightarrow> string \<times> int"
  er_version :: string
  er_errstatus :: "int \<Rightarrow> string"
  er_errmsgs :: "string list"

definition BAD_FILEPTR :: int where "BAD_FILEPTR = 114"

definition error_message :: "'f error_api \<Rightarrow> int \<Rightarrow> string" where
  "error_message er st = ''CFITSIO v'' @ er_version er @ '' error '' @ to_string st @ '': '' @ er_errstatus er st"

text \<open>The exception built from a status code only.\<close>

definition error_of_status :: "'f error_api \<Rightarrow> int \<Rightarrow> string" where
  "error_of_status er st = fits_error_init (error_message er st)"

definition status_may_throw :: "int \<Rightarrow> unit result" where
  "status_may_throw st = (if st \<noteq> 0 then Inl (CfitsioError st []) else Inr ())"

definition may_throw_invalid_file :: "'f option \<Rightarrow> unit result" where
  "may_throw_invalid_file fptr = (if fptr = None then Inl (CfitsioError BAD_FILEPTR []) else Inr ())"

text \<open>The lines after those that describe the file.\<close>

definition error_stack_text :: "'f error_api \<Rightarrow> int \<Rightarrow> string \<Rightarrow> string" where
  "error_stack_text er st m_message =
     fold (\<lambda>msg. fits_error_append msg 1) (er_errmsgs er) (fits_error_append (error_message er st) 0 (fits_error_append [] 0 m_message))"

definition null_file_text :: "'f error_api \<Rightarrow> int \<Rightarrow> string \<Rightarrow> string" where
  "null_file_text er st context =
     error_stack_text er st (fits_error_append ''CFITSIO fitsfile pointer is null.'' 0 (fits_error_append [] 0 (fits_error_init context)))"

definition file_text :: "'f cfitsio \<Rightarrow> 'f error_api \<Rightarrow> int \<Rightarrow> string \<Rightarrow> 'f \<Rightarrow> string \<Rightarrow> string \<Rightarrow> string" where
  "file_text api er st context f file_line name_line =
     error_stack_text er st
       (fits_error_append name_line 0
       (fits_error_append (''Current HDU index (0-based): '' @ to_string (current_index api f - 1)) 0
       (fits_error_append file_line 0 (fits_error_append [] 0 (fits_error_init context)))))"

text \<open>
  The text of an exception with a context.  An exception thrown meanwhile has to be constructed before it is caught and dropped.
  \<open>None\<close> is a construction that does not end.
\<close>

partial_function (option) error_text :: "'f cfitsio \<Rightarrow> 'f error_api \<Rightarrow> int \<Rightarrow> string \<Rightarrow> 'f \<Rightarrow> string result option" where
  "error_text api er st context f =
     Option.bind
       (if snd (er_file_name er f) \<noteq> 0
        then Option.bind (error_text api er (snd (er_file_name er f)) ''Filename not found'' f) (\<lambda>_. Some ''Unknown file name.'')
        else Some (''File name: '' @ fst (er_file_name er f))) (\<lambda>file_line.
     case current_name api f of
       Inr n \<Rightarrow> Some (Inr (file_text api er st context f file_line (''Current HDU name: '' @ n)))
     | Inl (CfitsioError st' context') \<Rightarrow>
         Option.bind (error_text api er st' context' f) (\<lambda>_. Some (Inr (file_text api er st context f file_line ''Unknown current HDU name.'')))
     | Inl Undefined \<Rightarrow> Some (Inl Undefined)
     | Inl _ \<Rightarrow> Some (Inr (file_text api er st context f file_line ''Unknown current HDU name.'')))"

definition error_init :: "'f cfitsio \<Rightarrow> 'f error_api \<Rightarrow> int \<Rightarrow> 'f option \<Rightarrow> string \<Rightarrow> string result option" where
  "error_init api er st fptr context =
     (case fptr of None \<Rightarrow> Some (Inr (null_file_text er st context)) | Some f \<Rightarrow> error_text api er st context f)"

section \<open>When an error is reported\<close>

definition describable :: "'f cfitsio \<Rightarrow> 'f error_api \<Rightarrow> 'f \<Rightarrow> bool" where
  "describable api er f \<longleftrightarrow> snd (er_file_name er f) = 0 \<and> (\<forall>st msg. current_name api f \<noteq> Inl (CfitsioError st msg))"

lemma error_text_describable:
  assumes "error_text api er st ctx f = Some y"
  shows "describable api er f"
proof (induction rule: error_text.raw_induct [OF _ assms])
  case (1 run api er st ctx f y)
  then show ?case
    by (auto simp: describable_def Option.bind_eq_Some_conv split: if_splits sum.splits fits_error.splits)
qed

lemma error_text_described:
  assumes "describable api er f"
  shows "error_text api er st ctx f =
    Some (case current_name api f of
            Inr n \<Rightarrow> Inr (file_text api er st ctx f (''File name: '' @ fst (er_file_name er f)) (''Current HDU name: '' @ n))
          | Inl Undefined \<Rightarrow> Inl Undefined
          | Inl _ \<Rightarrow> Inr (file_text api er st ctx f (''File name: '' @ fst (er_file_name er f)) ''Unknown current HDU name.''))"
  using assms by (subst error_text.simps) (auto simp: describable_def split: sum.splits fits_error.splits)

text \<open>
  C23: An error of CFITSIO is reported exactly when reading the name of the file and the name of its current HDU raise none themselves.  Otherwise
  the construction of the exception raises an exception of the same class, whose construction does the same, and never ends.\<close>

theorem error_report_ends:
  "(\<exists>y. error_text api er st ctx f = Some y) \<longleftrightarrow>
     snd (er_file_name er f) = 0 \<and> (\<forall>st' msg. current_name api f \<noteq> Inl (CfitsioError st' msg))"
proof -
  have "(\<exists>y. error_text api er st ctx f = Some y) \<longleftrightarrow> describable api er f"
    using error_text_describable [of api er st ctx f] error_text_described [of api er f st ctx] by blast
  then show ?thesis
    by (simp only: describable_def)
qed

end
