(* ===== verification/Fits_TestData.thy ===== *)
theory Fits_TestData
  imports Fits_HeaderIo Fits_Column
begin

text \<open>
  The generators of test data (\<^verbatim>\<open>TestUtils.h\<close>, \<^verbatim>\<open>TestRaster.h\<close>, \<^verbatim>\<open>TestColumn.h\<close>, \<^verbatim>\<open>TestRecord.h\<close>): random
  values between two bounds, rasters, columns, tables and headers made of them, and approximate comparison.  The random
  numbers of the standard library are a parameter: \<open>uniform seed a b k\<close> is the number drawn in \<open>k\<close>-th place, from the
  bounds \<open>a\<close> and \<open>b\<close>, by an engine seeded with \<open>seed\<close>; \<open>clock\<close> gives the successive readings of the time that seed the engines.
\<close>

section \<open>Limits\<close>

type_synonym rounding = "value_type \<Rightarrow> real \<Rightarrow> real"
type_synonym uniform = "int \<Rightarrow> real \<Rightarrow> real \<Rightarrow> nat \<Rightarrow> real"

text \<open>\<^verbatim>\<open>std::numeric_limits\<close> of the real types.\<close>

definition real_max :: "value_type \<Rightarrow> real" where
  "real_max t = (if t = TFloat then (2 - 1 / 2 ^ 23) * 2 ^ 127 else (2 - 1 / 2 ^ 52) * 2 ^ 1023)"

definition real_epsilon :: "value_type \<Rightarrow> real" where
  "real_epsilon t = (if t = TFloat then 1 / 2 ^ 23 else 1 / 2 ^ 52)"

definition scalar_bound :: "(int \<times> int \<Rightarrow> int) \<Rightarrow> int \<Rightarrow> real \<Rightarrow> value_type \<Rightarrow> payload result" where
  "scalar_bound range_bound bool_bound x t =
     (if t = TBool then Inr (IntVal bool_bound)
      else case int_range t of
        Some r \<Rightarrow> Inr (IntVal (range_bound r))
      | None \<Rightarrow> if is_real_type t then Inr (RealVal x) else Inl Undefined)"

text \<open>A bound of the complex types and of strings, from that of their components and of \<^verbatim>\<open>int\<close>.\<close>

definition any_bound :: "(value_type \<Rightarrow> payload result) \<Rightarrow> value_type \<Rightarrow> payload result" where
  "any_bound bound t =
     (if is_complex_type t
      then rbind (bound (component_type t)) (\<lambda>v. case v of RealVal x \<Rightarrow> Inr (ComplexVal x x) | _ \<Rightarrow> Inl Undefined)
      else if t = TString then rbind (bound TInt) (\<lambda>v. case v of IntVal i \<Rightarrow> Inr (StrVal (to_string i)) | _ \<Rightarrow> Inl Undefined)
      else bound t)"

definition almost_min :: "rounding \<Rightarrow> value_type \<Rightarrow> payload result" where
  "almost_min rnd = any_bound (\<lambda>t. scalar_bound (\<lambda>(lo, hi). lo + 0) 0 (rnd t (- real_max t + real_epsilon t)) t)"

definition almost_max :: "rounding \<Rightarrow> value_type \<Rightarrow> payload result" where
  "almost_max rnd = any_bound (\<lambda>t. scalar_bound (\<lambda>(lo, hi). hi - 0) 1 (rnd t (real_max t - real_epsilon t)) t)"

definition half_min :: "rounding \<Rightarrow> value_type \<Rightarrow> payload result" where
  "half_min rnd = any_bound (\<lambda>t. scalar_bound (\<lambda>(lo, hi). trunc_div lo 2) 0 (rnd t (- real_max t / 2)) t)"

definition half_max :: "rounding \<Rightarrow> value_type \<Rightarrow> payload result" where
  "half_max rnd = any_bound (\<lambda>t. scalar_bound (\<lambda>(lo, hi). trunc_div hi 2) 1 (rnd t (real_max t / 2)) t)"

section \<open>Random values\<close>

definition to_real :: "payload \<Rightarrow> real" where
  "to_real v = (case v of IntVal i \<Rightarrow> real_of_int i | RealVal x \<Rightarrow> x | _ \<Rightarrow> 0)"

definition generate_random_scalars ::
  "rounding \<Rightarrow> uniform \<Rightarrow> int \<Rightarrow> value_type \<Rightarrow> int \<Rightarrow> payload \<Rightarrow> payload \<Rightarrow> payload list result" where
  "generate_random_scalars rnd uniform seed t sz mn mx =
     (if sz < 0 then Inl (StdException ''length_error'')
      else rmap (\<lambda>k. cast_real rnd t (uniform seed (to_real mn) (to_real mx) k)) [0..<nat sz])"

fun complex_of :: "payload \<times> payload \<Rightarrow> payload result" where
  "complex_of (RealVal re, RealVal im) = Inr (ComplexVal re im)"
| "complex_of _ = Inl Undefined"

definition generate_random_complexes ::
  "rounding \<Rightarrow> uniform \<Rightarrow> (nat \<Rightarrow> int) \<Rightarrow> value_type \<Rightarrow> int \<Rightarrow> payload \<Rightarrow> payload \<Rightarrow> payload list result" where
  "generate_random_complexes rnd uniform clock t sz mn mx =
     (case (mn, mx) of
        (ComplexVal a c, ComplexVal b d) \<Rightarrow>
          rbind (generate_random_scalars rnd uniform (clock 0) (component_type t) sz (RealVal a) (RealVal b)) (\<lambda>re_vec.
          rbind (generate_random_scalars rnd uniform (clock 1) (component_type t) sz (RealVal c) (RealVal d)) (\<lambda>im_vec.
          rmap complex_of (zip re_vec im_vec)))
      | _ \<Rightarrow> Inl Undefined)"

text \<open>\<^verbatim>\<open>std::atoi\<close>: no number is zero, and one that does not fit is undefined.\<close>

definition atoi :: "string \<Rightarrow> int result" where
  "atoi s = (case parse_int s of
      Inl _ \<Rightarrow> Inr 0
    | Inr v \<Rightarrow> if - (2 ^ 31) \<le> v \<and> v \<le> 2 ^ 31 - 1 then Inr v else Inl Undefined)"

definition generate_random_strings ::
  "rounding \<Rightarrow> uniform \<Rightarrow> int \<Rightarrow> int \<Rightarrow> payload \<Rightarrow> payload \<Rightarrow> payload list result" where
  "generate_random_strings rnd uniform seed sz mn mx =
     (case (mn, mx) of
        (StrVal a, StrVal b) \<Rightarrow>
          rbind (atoi a) (\<lambda>lo. rbind (atoi b) (\<lambda>hi.
          rbind (generate_random_scalars rnd uniform seed TInt sz (IntVal lo) (IntVal hi)) (\<lambda>int_vec.
          rmap (\<lambda>v. case v of IntVal i \<Rightarrow> Inr (StrVal (to_string i)) | _ \<Rightarrow> Inl Undefined) int_vec)))
      | _ \<Rightarrow> Inl Undefined)"

definition generate_random_vector ::
  "rounding \<Rightarrow> uniform \<Rightarrow> (nat \<Rightarrow> int) \<Rightarrow> value_type \<Rightarrow> int \<Rightarrow> payload \<Rightarrow> payload \<Rightarrow> payload list result" where
  "generate_random_vector rnd uniform clock t sz mn mx =
     (if is_complex_type t then generate_random_complexes rnd uniform clock t sz mn mx
      else if t = TString then generate_random_strings rnd uniform (clock 0) sz mn mx
      else generate_random_scalars rnd uniform (clock 0) t sz mn mx)"

definition generate_random_value ::
  "rounding \<Rightarrow> uniform \<Rightarrow> (nat \<Rightarrow> int) \<Rightarrow> value_type \<Rightarrow> payload \<Rightarrow> payload \<Rightarrow> payload result" where
  "generate_random_value rnd uniform clock t mn mx =
     rbind (generate_random_vector rnd uniform clock t 1 mn mx) (\<lambda>vec. rd vec 0)"

section \<open>Approximate comparison\<close>

text \<open>A division by zero is infinite, or not a number when both are zero; the operands are rounded to \<^verbatim>\<open>double\<close>.\<close>

definition approx_real :: "rounding \<Rightarrow> real \<Rightarrow> real \<Rightarrow> real \<Rightarrow> bool" where
  "approx_real rnd test ref tol =
     (if tol = 0 \<or> test = 0 then test = ref
      else if ref = 0 then False
      else let rel = rnd TDouble (rnd TDouble (test - ref) / ref) in
        if rel > 0 \<and> rel > tol then False
        else if rel < 0 \<and> - rel > tol then False
        else True)"

definition approx :: "rounding \<Rightarrow> payload \<Rightarrow> payload \<Rightarrow> real \<Rightarrow> bool" where
  "approx rnd test ref tol =
     (case (test, ref) of
        (RealVal a, RealVal b) \<Rightarrow> approx_real rnd a b tol
      | (ComplexVal a c, ComplexVal b d) \<Rightarrow> approx_real rnd a b tol \<and> approx_real rnd c d tol
      | _ \<Rightarrow> test = ref)"

fun approx_all :: "rounding \<Rightarrow> real \<Rightarrow> payload list \<Rightarrow> payload list \<Rightarrow> bool result" where
  "approx_all rnd tol [] refs = Inr True"
| "approx_all rnd tol (t # ts) [] = Inl Undefined"
| "approx_all rnd tol (t # ts) (r # rs) = (if \<not> approx rnd t r tol then Inr False else approx_all rnd tol ts rs)"

definition raster_approx :: "rounding \<Rightarrow> payload raster \<Rightarrow> payload raster \<Rightarrow> real \<Rightarrow> bool result" where
  "raster_approx rnd test ref tol =
     (if container_neq (m_shape test) (m_shape ref) then Inr False else approx_all rnd tol (m_data test) (m_data ref))"

section \<open>Rasters and columns\<close>

definition small_pixel :: "rounding \<Rightarrow> int \<times> int \<Rightarrow> payload raster \<Rightarrow> payload raster result" where
  "small_pixel rnd = (\<lambda>(y, x) ra. raster_assign ra [x, y]
     (RealVal (rnd TFloat (rnd TFloat (rnd TFloat (1 / 10) * rnd TFloat (real_of_int y)) + rnd TFloat (real_of_int x)))))"

definition small_raster :: "rounding \<Rightarrow> int \<Rightarrow> int \<Rightarrow> payload raster result" where
  "small_raster rnd width height =
     rbind (raster_zero (RealVal 0) 2 [width, height]) (\<lambda>ra.
     rfold (small_pixel rnd) (concat (map (\<lambda>y. map (\<lambda>x. (y, x)) [0..width - 1]) [0..height - 1])) ra)"

definition random_raster ::
  "rounding \<Rightarrow> uniform \<Rightarrow> (nat \<Rightarrow> int) \<Rightarrow> value_type \<Rightarrow> int \<Rightarrow> position \<Rightarrow> payload \<Rightarrow> payload \<Rightarrow> payload raster result" where
  "random_raster rnd uniform clock t N shape mn mx =
     rbind (generate_random_vector rnd uniform clock t (shapeSize shape) mn mx) (\<lambda>data.
     Inr \<lparr>Dim = N, m_shape = shape, m_data = data\<rparr>)"

definition random_scalar_column ::
  "rounding \<Rightarrow> uniform \<Rightarrow> (nat \<Rightarrow> int) \<Rightarrow> value_type \<Rightarrow> int \<Rightarrow> payload \<Rightarrow> payload \<Rightarrow> payload column result" where
  "random_scalar_column rnd uniform clock t sz mn mx =
     rbind (column_info_init (t = TString) 1 ''SCALAR'' ''m'' 1) (\<lambda>info.
     rbind (generate_random_vector rnd uniform clock t sz mn mx) (\<lambda>data. Inr (make_column info data)))"

text \<open>The loop of the constructor for strings, which adapts the width of the fields.\<close>

definition fit_width :: "payload \<Rightarrow> payload column \<Rightarrow> payload column result" where
  "fit_width v c =
     (case v of
        StrVal s \<Rightarrow> if int (length s) + 1 > repeat_count (m_info c) then column_reshape_count (int (length s) + 1) c else Inr c
      | _ \<Rightarrow> Inl Undefined)"

definition random_string_column ::
  "rounding \<Rightarrow> uniform \<Rightarrow> (nat \<Rightarrow> int) \<Rightarrow> int \<Rightarrow> payload \<Rightarrow> payload \<Rightarrow> payload column result" where
  "random_string_column rnd uniform clock sz mn mx =
     rbind (random_scalar_column rnd uniform clock TString sz mn mx) (\<lambda>c. rfold fit_width (c_data c) c)"

definition random_vector_column ::
  "rounding \<Rightarrow> uniform \<Rightarrow> (nat \<Rightarrow> int) \<Rightarrow> value_type \<Rightarrow> int \<Rightarrow> int \<Rightarrow> payload \<Rightarrow> payload \<Rightarrow> payload column result" where
  "random_vector_column rnd uniform clock t rep rows mn mx =
     rbind (column_info_init (t = TString) 1 ''VECTOR'' ''m'' rep) (\<lambda>info.
     rbind (generate_random_vector rnd uniform clock t (rep * rows) mn mx) (\<lambda>data. Inr (make_column info data)))"

section \<open>Names\<close>

text \<open>The loop on \<^verbatim>\<open>std::getline\<close> with a space as delimiter.\<close>

function type_chunks :: "string \<Rightarrow> string list" where
  "type_chunks [] = []"
| "type_chunks (c # cs) = takeWhile (\<lambda>x. x \<noteq> CHR '' '') (c # cs) # type_chunks (drop 1 (dropWhile (\<lambda>x. x \<noteq> CHR '' '') (c # cs)))"
  by pat_completeness auto

termination
proof (relation "measure length")
  fix c :: char and cs :: string
  have "length (dropWhile (\<lambda>x. x \<noteq> CHR '' '') (c # cs)) \<le> length (c # cs)"
    by (rule length_dropWhile_le)
  then show "(drop 1 (dropWhile (\<lambda>x. x \<noteq> CHR '' '') (c # cs)), c # cs) \<in> measure length"
    by simp
qed simp

definition first_char :: "string \<Rightarrow> char" where
  "first_char s = (case s of [] \<Rightarrow> char_of (0::nat) | c # _ \<Rightarrow> c)"

definition toupper :: "char \<Rightarrow> char" where
  "toupper c = (let n = of_char c :: nat in if 97 \<le> n \<and> n \<le> 122 then char_of (n - 32) else c)"

text \<open>The keyword, prefixes and suffix computed from the name of a type.\<close>

definition type_words :: "string \<Rightarrow> (string \<times> string \<times> string) result" where
  "type_words type_name =
     (let chunks = type_chunks type_name in
      if chunks = [] then Inl Undefined
      else let suffix = last chunks; prefixes = map first_char (butlast chunks)
           in Inr (map toupper (prefixes @ suffix), prefixes, suffix))"

definition generate_column ::
  "rounding \<Rightarrow> uniform \<Rightarrow> (nat \<Rightarrow> int) \<Rightarrow> value_type \<Rightarrow> string \<Rightarrow> int \<Rightarrow> int \<Rightarrow> payload column result" where
  "generate_column rnd uniform clock t type_name rep rows =
     rbind (type_words type_name) (\<lambda>(keyword, prefixes, suffix).
     rbind (column_info_init (t = TString) 1 keyword (prefixes @ [first_char suffix]) rep) (\<lambda>info.
     rbind (half_min rnd t) (\<lambda>mn. rbind (half_max rnd t) (\<lambda>mx.
     rbind (generate_random_vector rnd uniform clock t (rep * rows) mn mx) (\<lambda>data. Inr (make_column info data))))))"

text \<open>\<^verbatim>\<open>ELEFITS_FOREACH_COLUMN_TYPE\<close>.\<close>

definition column_types :: "(value_type \<times> string) list" where
  "column_types =
     [(TChar, ''char''), (TShort, ''int16''), (TInt, ''int32''), (TLong, ''int64''), (TFloat, ''float''), (TDouble, ''double''),
      (TComplexFloat, ''complex_float''), (TComplexDouble, ''complex_double''), (TString, ''string''), (TUChar, ''uchar''),
      (TUShort, ''uint16''), (TUInt, ''uint32''), (TULong, ''uint64'')]"

definition random_table :: "rounding \<Rightarrow> uniform \<Rightarrow> (nat \<Rightarrow> nat \<Rightarrow> int) \<Rightarrow> int \<Rightarrow> int \<Rightarrow> payload column list result" where
  "random_table rnd uniform clock rep rows =
     rmap (\<lambda>(i, t, n). generate_column rnd uniform (clock i) t n rep rows) (enumerate 0 column_types)"

definition record_of :: "rounding \<Rightarrow> uniform \<Rightarrow> (nat \<Rightarrow> int) \<Rightarrow> value_type \<Rightarrow> string \<Rightarrow> string \<Rightarrow> string \<Rightarrow> variant fits_record result" where
  "record_of rnd uniform clock t k u c =
     rbind (half_min rnd t) (\<lambda>mn. rbind (half_max rnd t) (\<lambda>mx.
     rbind (generate_random_value rnd uniform clock t mn mx) (\<lambda>v. Inr (record_init k (Variant t v) u c))))"

definition generate_random_record :: "rounding \<Rightarrow> uniform \<Rightarrow> (nat \<Rightarrow> int) \<Rightarrow> value_type \<Rightarrow> string \<Rightarrow> variant fits_record result" where
  "generate_random_record rnd uniform clock t type_name =
     rbind (type_words type_name) (\<lambda>(keyword, prefixes, suffix).
     record_of rnd uniform clock t keyword (prefixes @ [first_char suffix]) (if prefixes = [] then suffix else prefixes @ '' '' @ suffix))"

text \<open>
  The members of \<^verbatim>\<open>RandomHeader\<close>: the type of the member, the type its record is generated with, its name.
\<close>

definition header_members :: "(value_type \<times> value_type \<times> string) list" where
  "header_members =
     [(TBool, TBool, ''bool''), (TChar, TChar, ''char''), (TShort, TShort, ''short''), (TInt, TInt, ''int''),
      (TLong, TShort, ''long''), (TLongLong, TLongLong, ''long long''), (TUChar, TUChar, ''unsigned char''),
      (TUShort, TUShort, ''unsigned short''), (TUInt, TUInt, ''unsigned int''), (TULong, TUShort, ''unsigned long''),
      (TULongLong, TULongLong, ''unsigned long long''), (TFloat, TFloat, ''float''), (TDouble, TDouble, ''double''),
      (TComplexFloat, TComplexFloat, ''complex float''), (TComplexDouble, TComplexDouble, ''complex double''),
      (TString, TString, ''string'')]"

definition member_of :: "rounding \<Rightarrow> value_type \<Rightarrow> variant fits_record \<Rightarrow> variant fits_record result" where
  "member_of rnd t = record_convert (\<lambda>v. rbind (cast_variant rnd t v) (\<lambda>x. Inr (Variant t x)))"

definition random_header :: "rounding \<Rightarrow> uniform \<Rightarrow> (nat \<Rightarrow> nat \<Rightarrow> int) \<Rightarrow> variant fits_record list result" where
  "random_header rnd uniform clock =
     rmap (\<lambda>(i, t, g, n). rbind (generate_random_record rnd uniform (clock i) g n) (member_of rnd t)) (enumerate 0 header_members)"

section \<open>Laws\<close>

text \<open>What the standard library documents of \<^verbatim>\<open>std::uniform_real_distribution\<close>.\<close>

definition uniform_documented :: "uniform \<Rightarrow> bool" where
  "uniform_documented uniform \<longleftrightarrow> (\<forall>seed a b k. a < b \<longrightarrow> a \<le> uniform seed a b k \<and> uniform seed a b k < b)"

lemma rmap_ex:
  "(\<And>x. x \<in> set xs \<Longrightarrow> \<exists>y. f x = Inr y \<and> P x y) \<Longrightarrow> \<exists>ys. rmap f xs = Inr ys \<and> list_all2 P xs ys"
proof (induction xs)
  case (Cons x xs)
  then obtain y ys where "f x = Inr y" "P x y" "rmap f xs = Inr ys" "list_all2 P xs ys"
    by (meson list.set_intros)
  then show ?case
    by simp
qed simp

lemma trunc_between:
  assumes "real_of_int a \<le> x" "x < real_of_int b"
  shows "a \<le> trunc_real x \<and> trunc_real x \<le> b \<and> (0 < b \<longrightarrow> trunc_real x < b)"
  using assms by (auto simp: trunc_real_def le_floor_iff floor_less_iff ceiling_le_iff le_ceiling_iff less_ceiling_iff) linarith+

lemma random_integer:
  assumes "uniform_documented uniform" and "int_range t = Some (lo, hi)" and "lo \<le> a" "a < b" "b \<le> hi"
  shows "\<exists>v. cast_real rnd t (uniform seed (real_of_int a) (real_of_int b) k) = Inr (IntVal v) \<and>
             a \<le> v \<and> v \<le> b \<and> (0 < b \<longrightarrow> v < b)"
proof -
  let ?x = "uniform seed (real_of_int a) (real_of_int b) k"
  have "real_of_int a \<le> ?x" "?x < real_of_int b"
    using assms(1,4) by (simp_all add: uniform_documented_def)
  from trunc_between [OF this] show ?thesis
    using assms(2,3,5) int_range_scalar [OF assms(2)] by (auto simp: cast_real_def)
qed

text \<open>
  Random integers between a minimum and a greater maximum are within these bounds, and conversions never overflow.  When the maximum is positive
  it is never drawn itself.\<close>

theorem random_integers_bounded:
  assumes "uniform_documented uniform" and "int_range t = Some (lo, hi)" and "lo \<le> a" "a < b" "b \<le> hi" and "0 \<le> sz"
  shows "\<exists>vs. generate_random_vector rnd uniform clock t sz (IntVal a) (IntVal b) = Inr (map IntVal vs) \<and> int (length vs) = sz \<and>
           (\<forall>v \<in> set vs. a \<le> v \<and> v \<le> b \<and> (0 < b \<longrightarrow> v < b))"
proof -
  let ?draw = "\<lambda>k. cast_real rnd t (uniform (clock 0) (real_of_int a) (real_of_int b) k)"
  have "\<exists>v. \<forall>k. ?draw k = Inr (IntVal (v k)) \<and> a \<le> v k \<and> v k \<le> b \<and> (0 < b \<longrightarrow> v k < b)"
    using random_integer [OF assms(1-5), of rnd "clock 0"] by metis
  then obtain v where v: "\<And>k. ?draw k = Inr (IntVal (v k)) \<and> a \<le> v k \<and> v k \<le> b \<and> (0 < b \<longrightarrow> v k < b)"
    by blast
  have "\<not> is_complex_type t" "t \<noteq> TString"
    using assms(2) by (auto simp: is_complex_type_def)
  then have "generate_random_vector rnd uniform clock t sz (IntVal a) (IntVal b) = Inr (map IntVal (map v [0..<nat sz]))"
    using assms(6) v rmap_Inr [of "[0..<nat sz]" ?draw "\<lambda>k. IntVal (v k)"]
    by (simp add: generate_random_vector_def generate_random_scalars_def to_real_def comp_def)
  moreover have "int (length (map v [0..<nat sz])) = sz"
    using assms(6) by simp
  moreover have "\<forall>x \<in> set (map v [0..<nat sz]). a \<le> x \<and> x \<le> b \<and> (0 < b \<longrightarrow> x < b)"
    using v by auto
  ultimately show ?thesis
    by blast
qed

text \<open>An instance of the documented behaviour: the same fraction of the interval each time.\<close>

lemma middle_documented: "uniform_documented (\<lambda>seed a b k. (a + b) / 2)"
  by (simp add: uniform_documented_def)

theorem random_integers_bounded_witness:
  "\<exists>vs. generate_random_vector (\<lambda>_ x. x) (\<lambda>seed a b k. (a + b) / 2) (\<lambda>_. 0) TUChar 3 (IntVal 0) (IntVal 9) = Inr (map IntVal vs) \<and>
        int (length vs) = 3 \<and> (\<forall>v \<in> set vs. 0 \<le> v \<and> v < 9)"
  using random_integers_bounded [OF middle_documented, of TUChar 0 255 0 9 3 "\<lambda>_ x. x" "\<lambda>_. 0"] by auto

lemma random_scalars:
  assumes "uniform_documented uniform" and "0 \<le> sz"
    and "is_real_type t \<or> t = TBool \<or>
      (\<exists>lo hi a b. int_range t = Some (lo, hi) \<and> mn = IntVal a \<and> mx = IntVal b \<and> lo \<le> a \<and> a < b \<and> b \<le> hi)"
  shows "\<exists>vs. generate_random_scalars rnd uniform seed t sz mn mx = Inr vs \<and> length vs = nat sz \<and> (\<forall>v \<in> set vs. well_typed (Variant t v))"
proof -
  let ?draw = "\<lambda>k. cast_real rnd t (uniform seed (to_real mn) (to_real mx) k)"
  have "\<exists>v. ?draw k = Inr v \<and> well_typed (Variant t v)" for k
    using assms(3)
  proof (elim disjE exE conjE)
    fix lo hi a b
    assume a: "int_range t = Some (lo, hi)" "mn = IntVal a" "mx = IntVal b" "lo \<le> a" "a < b" "b \<le> hi"
    then show ?thesis
      using random_integer [OF assms(1) a(1,4-6), of rnd seed k] by (auto simp: to_real_def well_typed_def)
  qed (auto simp: cast_real_def well_typed_def is_real_type_def)
  then obtain vs where "rmap ?draw [0..<nat sz] = Inr vs" "list_all2 (\<lambda>_ v. well_typed (Variant t v)) [0..<nat sz] vs"
    using rmap_ex [of "[0..<nat sz]" ?draw "\<lambda>_ v. well_typed (Variant t v)"] by blast
  then show ?thesis
    using assms(2) by (auto simp: generate_random_scalars_def list_all2_conv_all_nth in_set_conv_nth)
qed

lemma half_bounds:
  assumes "t = TBool \<or> int_range t \<noteq> None \<or> is_real_type t"
  shows "\<exists>mn mx. half_min rnd t = Inr mn \<and> half_max rnd t = Inr mx \<and>
     (is_real_type t \<or> t = TBool \<or>
      (\<exists>lo hi a b. int_range t = Some (lo, hi) \<and> mn = IntVal a \<and> mx = IntVal b \<and> lo \<le> a \<and> a < b \<and> b \<le> hi))"
  using assms
  by (cases t) (auto simp: half_min_def half_max_def any_bound_def scalar_bound_def is_complex_type_def is_real_type_def trunc_div_def)

lemma well_typed_real: "is_real_type t \<Longrightarrow> well_typed (Variant t v) \<Longrightarrow> \<exists>x. v = RealVal x"
  by (cases v) (auto simp: well_typed_def is_real_type_def is_complex_type_def)

lemma well_typed_int: "well_typed (Variant TInt v) \<Longrightarrow> \<exists>i. v = IntVal i"
  by (cases v) (auto simp: well_typed_def is_real_type_def is_complex_type_def)

lemma random_complexes:
  assumes "uniform_documented uniform" and "0 \<le> sz" and "is_complex_type t"
  shows "\<exists>vs. generate_random_complexes rnd uniform clock t sz (ComplexVal a c) (ComplexVal b d) = Inr vs \<and> length vs = nat sz \<and>
           (\<forall>v \<in> set vs. well_typed (Variant t v))"
proof -
  let ?c = "component_type t"
  have real: "is_real_type ?c"
    by (simp add: component_type_def is_real_type_def)
  obtain re im where
    re: "generate_random_scalars rnd uniform (clock 0) ?c sz (RealVal a) (RealVal b) = Inr re" "length re = nat sz"
      "\<forall>v \<in> set re. well_typed (Variant ?c v)" and
    im: "generate_random_scalars rnd uniform (clock 1) ?c sz (RealVal c) (RealVal d) = Inr im" "length im = nat sz"
      "\<forall>v \<in> set im. well_typed (Variant ?c v)"
    using random_scalars [OF assms(1,2), of ?c "RealVal a" "RealVal b" rnd "clock 0"]
      random_scalars [OF assms(1,2), of ?c "RealVal c" "RealVal d" rnd "clock 1"] real by blast
  have "\<exists>y. complex_of p = Inr y \<and> well_typed (Variant t y)" if p: "p \<in> set (zip re im)" for p
  proof -
    obtain v w where vw: "p = (v, w)"
      by (cases p)
    have "v \<in> set re" "w \<in> set im"
      using p set_zip_leftD [of v w re im] set_zip_rightD [of v w re im] unfolding vw by blast+
    then obtain x y where "v = RealVal x" "w = RealVal y"
      using re(3) im(3) well_typed_real [OF real] by meson
    then show ?thesis
      using assms(3) unfolding vw by (simp add: well_typed_def)
  qed
  then obtain vs where "rmap complex_of (zip re im) = Inr vs" "list_all2 (\<lambda>_ v. well_typed (Variant t v)) (zip re im) vs"
    using rmap_ex [of "zip re im" complex_of "\<lambda>_ v. well_typed (Variant t v)"] by blast
  then show ?thesis
    using re im by (auto simp: generate_random_complexes_def list_all2_conv_all_nth in_set_conv_nth)
qed

lemma random_strings:
  assumes "uniform_documented uniform" and "0 \<le> sz"
    and "atoi a = Inr lo" "atoi b = Inr hi" "- (2 ^ 31) \<le> lo" "lo < hi" "hi \<le> 2 ^ 31 - 1"
  shows "\<exists>vs. generate_random_strings rnd uniform seed sz (StrVal a) (StrVal b) = Inr vs \<and> length vs = nat sz \<and>
           (\<forall>v \<in> set vs. well_typed (Variant TString v))"
proof -
  obtain ints where i: "generate_random_scalars rnd uniform seed TInt sz (IntVal lo) (IntVal hi) = Inr ints" "length ints = nat sz"
      "\<forall>v \<in> set ints. well_typed (Variant TInt v)"
    using random_scalars [OF assms(1,2), of TInt "IntVal lo" "IntVal hi" rnd seed] assms(5-7) by auto
  let ?show = "\<lambda>v. case v of IntVal i \<Rightarrow> Inr (StrVal (to_string i)) | _ \<Rightarrow> Inl Undefined"
  have "\<exists>y. ?show v = Inr y \<and> well_typed (Variant TString y)" if "v \<in> set ints" for v
    using that i(3) well_typed_int [of v] by (auto simp: well_typed_def)
  then obtain vs where "rmap ?show ints = Inr vs" "list_all2 (\<lambda>_ v. well_typed (Variant TString v)) ints vs"
    using rmap_ex [of ints ?show "\<lambda>_ v. well_typed (Variant TString v)"] by blast
  then show ?thesis
    using i assms(3,4) by (auto simp: generate_random_strings_def list_all2_conv_all_nth in_set_conv_nth)
qed

lemma atoi_to_string: "- (2 ^ 31) \<le> v \<Longrightarrow> v \<le> 2 ^ 31 - 1 \<Longrightarrow> atoi (to_string v) = Inr v"
  by (simp add: atoi_def parse_int_to_string)

text \<open>With the default bounds, a vector of any type is generated, and its values are of that type.\<close>

lemma random_default:
  assumes "uniform_documented uniform" and "0 \<le> sz" and "t \<noteq> TCStr"
  shows "\<exists>mn mx vs. half_min rnd t = Inr mn \<and> half_max rnd t = Inr mx \<and> generate_random_vector rnd uniform clock t sz mn mx = Inr vs \<and>
           length vs = nat sz \<and> (\<forall>v \<in> set vs. well_typed (Variant t v))"
proof -
  consider (complex) "is_complex_type t" | (string) "t = TString" | (scalar) "t = TBool \<or> int_range t \<noteq> None \<or> is_real_type t"
    using assms(3) by (cases t) (auto simp: is_complex_type_def is_real_type_def)
  then show ?thesis
  proof cases
    case complex
    let ?c = "component_type t"
    have "?c \<noteq> TBool" "int_range ?c = None" "is_real_type ?c"
      by (simp_all add: component_type_def is_real_type_def)
    then obtain x y where "half_min rnd t = Inr (ComplexVal x x)" "half_max rnd t = Inr (ComplexVal y y)"
      using complex by (simp add: half_min_def half_max_def any_bound_def scalar_bound_def)
    then show ?thesis
      using random_complexes [OF assms(1,2) complex, of rnd clock x x y y] complex by (auto simp: generate_random_vector_def)
  next
    case string
    have "half_min rnd t = Inr (StrVal (to_string (- (2 ^ 30))))" "half_max rnd t = Inr (StrVal (to_string (2 ^ 30 - 1)))"
      using string by (simp_all add: half_min_def half_max_def any_bound_def scalar_bound_def is_complex_type_def trunc_div_def)
    moreover have "atoi (to_string (- (2 ^ 30))) = Inr (- (2 ^ 30))" "atoi (to_string (2 ^ 30 - 1)) = Inr (2 ^ 30 - 1)"
      by (simp_all add: atoi_to_string)
    ultimately show ?thesis
      using random_strings [OF assms(1,2), of "to_string (- (2 ^ 30))" "- (2 ^ 30)" "to_string (2 ^ 30 - 1)" "2 ^ 30 - 1" rnd "clock 0"] string
      by (auto simp: generate_random_vector_def is_complex_type_def)
  next
    case scalar
    then have "\<not> is_complex_type t" "t \<noteq> TString"
      by (auto simp: is_complex_type_def is_real_type_def)
    then show ?thesis
      using half_bounds [OF scalar, of rnd] random_scalars [OF assms(1,2), of t _ _ rnd "clock 0"]
      by (fastforce simp: generate_random_vector_def)
  qed
qed

lemma record_of_typed:
  assumes "uniform_documented uniform" and "t \<noteq> TCStr"
  shows "\<exists>v. record_of rnd uniform clock t k u c = Inr (record_init k (Variant t v) u c) \<and> well_typed (Variant t v)"
proof -
  obtain mn mx vs where v: "half_min rnd t = Inr mn" "half_max rnd t = Inr mx"
      "generate_random_vector rnd uniform clock t 1 mn mx = Inr vs" "length vs = nat 1" "\<forall>v \<in> set vs. well_typed (Variant t v)"
    using random_default [OF assms(1) _ assms(2), of 1 rnd clock] by auto
  then obtain w where "vs = [w]"
    by (auto simp: length_Suc_conv)
  then show ?thesis
    using v by (intro exI [of _ w]) (simp add: record_of_def generate_random_value_def)
qed

text \<open>A member of the header: its record is converted to the type of the member, which holds the values of the type it was drawn from.\<close>

lemma member_of_typed:
  assumes "well_typed (Variant g v)" and "g = t \<or> (g, t) = (TShort, TLong) \<or> (g, t) = (TUShort, TULong)" and "t \<noteq> TCStr"
  shows "\<exists>w. member_of rnd t (record_init k (Variant g v) u c) = Inr (record_init k (Variant t w) u c) \<and> well_typed (Variant t w)"
proof -
  have same: "cast_variant rnd t (Variant t v) = Inr v"
    using assms(3) by (cases t) (simp_all add: cast_variant_def cast_variant_scalar_def cast_variant_complex_def cast_variant_string_def
        is_scalar_type_def is_real_type_def is_complex_type_def)
  have "cast_variant rnd t (Variant g v) = Inr v \<and> well_typed (Variant t v)" if "(g, t) = (TShort, TLong) \<or> (g, t) = (TUShort, TULong)"
    using that assms(1) by (cases v) (auto simp: well_typed_def cast_variant_def cast_variant_scalar_def is_scalar_type_def is_real_type_def
        is_complex_type_def static_cast_def cast_int_def wrap_range_def)
  then show ?thesis
    using assms(1,2) same by (auto simp: member_of_def record_convert_def record_init_def)
qed

definition keyword_of :: "string \<Rightarrow> string result" where
  "keyword_of n = map_sum id fst (type_words n)"

text \<open>A sequence generated from a list of named types, in which each element is labelled with the keyword of the name.\<close>

lemma labelled_sequence:
  assumes "\<And>i x. x \<in> set xs \<Longrightarrow> \<exists>y. f (i, x) = Inr y \<and> keyword_of (name x) = Inr (key y) \<and> Q x y"
  shows "\<exists>ys. rmap f (enumerate 0 xs) = Inr ys \<and> length ys = length xs \<and>
           map Inr (map key ys) = map (\<lambda>x. keyword_of (name x)) xs \<and> (\<forall>i < length xs. Q (xs ! i) (ys ! i))"
proof -
  let ?P = "\<lambda>(i, x) y. keyword_of (name x) = Inr (key y) \<and> Q x y"
  have "\<exists>y. f z = Inr y \<and> ?P z y" if z: "z \<in> set (enumerate 0 xs)" for z
  proof -
    have "fst z < length xs" "xs ! fst z = snd z"
      using z by (simp_all add: in_set_enumerate_eq)
    then have "snd z \<in> set xs"
      using nth_mem by metis
    then show ?thesis
      using assms [of "snd z" "fst z"] by (simp add: split_beta)
  qed
  then obtain ys where ys: "rmap f (enumerate 0 xs) = Inr ys" "list_all2 ?P (enumerate 0 xs) ys"
    using rmap_ex [of "enumerate 0 xs" f ?P] by blast
  have len: "length ys = length xs"
    using ys(2) by (auto dest: list_all2_lengthD)
  have nth: "keyword_of (name (xs ! i)) = Inr (key (ys ! i)) \<and> Q (xs ! i) (ys ! i)" if "i < length xs" for i
    using list_all2_nthD [OF ys(2), of i] that by (simp add: nth_enumerate_eq)
  have "map Inr (map key ys) = map (\<lambda>x. keyword_of (name x)) xs"
    using nth len by (intro nth_equalityI) simp_all
  then show ?thesis
    using ys(1) len nth by blast
qed

lemma generated_record:
  assumes "uniform_documented uniform" and "type_words n = Inr (k, p, s)" and "g \<noteq> TCStr" "t \<noteq> TCStr"
    and "g = t \<or> (g, t) = (TShort, TLong) \<or> (g, t) = (TUShort, TULong)"
  shows "\<exists>r. rbind (generate_random_record rnd uniform clock g n) (member_of rnd t) = Inr r \<and>
           rec_keyword r = k \<and> vtype (rec_value r) = t \<and> well_typed (rec_value r)"
proof -
  let ?u = "p @ [first_char s]" and ?c = "if p = [] then s else p @ '' '' @ s"
  obtain v where v: "record_of rnd uniform clock g k ?u ?c = Inr (record_init k (Variant g v) ?u ?c)" "well_typed (Variant g v)"
    using record_of_typed [OF assms(1,3), of rnd clock k ?u ?c] by blast
  then show ?thesis
    using member_of_typed [OF v(2) assms(5,4), of rnd k ?u ?c] assms(2)
    by (auto simp: generate_random_record_def record_init_def)
qed

lemma header_keywords:
  "map (\<lambda>x. keyword_of (snd (snd x))) header_members =
   map Inr [''BOOL'', ''CHAR'', ''SHORT'', ''INT'', ''LONG'', ''LLONG'', ''UCHAR'', ''USHORT'', ''UINT'', ''ULONG'', ''ULLONG'', ''FLOAT'',
            ''DOUBLE'', ''CFLOAT'', ''CDOUBLE'', ''STRING'']"
  by code_simp

lemma keyword_of_known: "keyword_of n \<in> set (map Inr ks) \<Longrightarrow> \<exists>k p s. type_words n = Inr (k, p, s) \<and> keyword_of n = Inr k"
  by (cases "type_words n") (auto simp: keyword_of_def)



lemma column_keywords:
  "map (\<lambda>x. keyword_of (snd x)) column_types =
   map Inr [''CHAR'', ''INT16'', ''INT32'', ''INT64'', ''FLOAT'', ''DOUBLE'', ''COMPLEX_FLOAT'', ''COMPLEX_DOUBLE'', ''STRING'', ''UCHAR'',
            ''UINT16'', ''UINT32'', ''UINT64'']"
  by code_simp

lemma generated_column:
  assumes "uniform_documented uniform" and "type_words n = Inr (k, p, s)" and "t \<noteq> TCStr" and "0 < rep" "0 \<le> rows"
  shows "\<exists>c. generate_column rnd uniform clock t n rep rows = Inr c \<and> ci_name (m_info c) = k \<and>
           row_count c = Inr (if t = TString then rep * rows else rows) \<and> (\<forall>v \<in> set (c_data c). well_typed (Variant t v))"
proof -
  have "0 \<le> rep * rows"
    using assms(4,5) by simp
  then obtain mn mx vs where v: "half_min rnd t = Inr mn" "half_max rnd t = Inr mx"
      "generate_random_vector rnd uniform clock t (rep * rows) mn mx = Inr vs" "length vs = nat (rep * rows)"
      "\<forall>v \<in> set vs. well_typed (Variant t v)"
    using random_default [OF assms(1) _ assms(3), of "rep * rows" rnd clock] by blast
  define info where "info = \<lparr>ci_is_string = (t = TString), ci_Dim = 1, ci_name = k, ci_unit = p @ [first_char s], ci_shape = [rep]\<rparr>"
  have "column_info_init (t = TString) 1 k (p @ [first_char s]) rep = Inr info"
    by (simp add: column_info_init_def pos_one_def wr_def info_def)
  then have "generate_column rnd uniform clock t n rep rows = Inr (make_column info vs)"
    using v assms(2) by (simp add: generate_column_def)
  moreover have "row_count (make_column info vs) = Inr (if t = TString then rep * rows else rows)"
    using v(4) assms(4) \<open>0 \<le> rep * rows\<close>
    by (simp add: row_count_def make_column_def info_def element_count_def repeat_count_def shapeSize_def)
  ultimately show ?thesis
    using v(5) by (auto simp: make_column_def info_def)
qed

text \<open>
  The columns of a random table have distinct names and values of their types.  They have the number of rows asked for, except the column of
  strings, which has as many rows as the other columns have elements.\<close>

theorem random_table_rows:
  assumes "uniform_documented uniform" and "0 < rep" "0 \<le> rows"
  shows "\<exists>cs. random_table rnd uniform clock rep rows = Inr cs \<and> length cs = length column_types \<and> distinct (map (\<lambda>c. ci_name (m_info c)) cs) \<and>
           (\<forall>i < length column_types.
              row_count (cs ! i) = Inr (if fst (column_types ! i) = TString then rep * rows else rows) \<and>
              (\<forall>v \<in> set (c_data (cs ! i)). well_typed (Variant (fst (column_types ! i)) v)))"
proof -
  let ?f = "\<lambda>(i, t, n). generate_column rnd uniform (clock i) t n rep rows"
  let ?Q = "\<lambda>x c. row_count c = Inr (if fst x = TString then rep * rows else rows) \<and> (\<forall>v \<in> set (c_data c). well_typed (Variant (fst x) v))"
  have "\<exists>c. ?f (i, x) = Inr c \<and> keyword_of (snd x) = Inr (ci_name (m_info c)) \<and> ?Q x c" if x: "x \<in> set column_types" for i x
  proof -
    have "keyword_of (snd x) \<in> set (map (\<lambda>x. keyword_of (snd x)) column_types)"
      using x by simp
    then obtain k p s where w: "type_words (snd x) = Inr (k, p, s)" "keyword_of (snd x) = Inr k"
      unfolding column_keywords using keyword_of_known by blast
    moreover have "fst x \<noteq> TCStr"
      using x by (auto simp: column_types_def)
    ultimately show ?thesis
      using generated_column [OF assms(1) w(1) _ assms(2,3), of "fst x" rnd "clock i"] by (auto simp: split_beta)
  qed
  from labelled_sequence [of column_types ?f snd "\<lambda>c. ci_name (m_info c)", OF this] obtain cs where
    cs: "random_table rnd uniform clock rep rows = Inr cs" "length cs = length column_types"
      "map Inr (map (\<lambda>c. ci_name (m_info c)) cs) = map (\<lambda>x. keyword_of (snd x)) column_types"
      "\<forall>i < length column_types. ?Q (column_types ! i) (cs ! i)"
    by (auto simp: random_table_def)
  have "distinct (map (\<lambda>x. keyword_of (snd x)) column_types)"
    unfolding column_keywords by simp
  then have "distinct (map Inr (map (\<lambda>c. ci_name (m_info c)) cs) :: string result list)"
    by (simp only: cs(3))
  then have "distinct (map (\<lambda>c. ci_name (m_info c)) cs)"
    by (simp only: distinct_map)
  then show ?thesis
    using cs by (intro exI [of _ cs]) simp
qed

theorem random_table_rows_witness:
  "\<exists>cs. random_table (\<lambda>_ x. x) (\<lambda>seed a b k. (a + b) / 2) (\<lambda>_ _. 0) 3 2 = Inr cs \<and> row_count (cs ! 0) = Inr 2 \<and> row_count (cs ! 8) = Inr 6"
  using random_table_rows [OF middle_documented, of 3 2 "\<lambda>_ x. x" "\<lambda>_ _. 0"] by (force simp: column_types_def)

section \<open>Approximation\<close>

lemma approx_exact:
  assumes "0 < tol" and "test \<noteq> 0"
  shows "approx_real (\<lambda>_ x. x) test ref tol \<longleftrightarrow> ref \<noteq> 0 \<and> \<bar>test - ref\<bar> \<le> tol * \<bar>ref\<bar>"
proof (cases "ref = 0")
  case False
  have "approx_real (\<lambda>_ x. x) test ref tol \<longleftrightarrow> \<bar>(test - ref) / ref\<bar> \<le> tol"
    using assms False by (auto simp: approx_real_def Let_def abs_if)
  also have "\<dots> \<longleftrightarrow> \<bar>test - ref\<bar> \<le> tol * \<bar>ref\<bar>"
    using False by (simp add: abs_divide pos_divide_le_eq)
  finally show ?thesis
    using False by simp
qed (use assms in \<open>simp add: approx_real_def\<close>)

text \<open>Zero approximates nothing but zero, whatever the tolerance.\<close>

lemma approx_zero: "approx_real rnd 0 ref tol \<longleftrightarrow> ref = 0"
  by (auto simp: approx_real_def)

lemma approx_all_iff: "length ts = length rs \<Longrightarrow> approx_all rnd tol ts rs = Inr (list_all2 (\<lambda>t r. approx rnd t r tol) ts rs)"
  by (induction ts rs rule: list_induct2) simp_all

lemma raster_approx_iff:
  assumes "raster_wf test" "raster_wf ref" "length (m_shape test) = length (m_shape ref)"
  shows "raster_approx rnd test ref tol = Inr (m_shape test = m_shape ref \<and> list_all2 (\<lambda>t r. approx rnd t r tol) (m_data test) (m_data ref))"
proof (cases "m_shape test = m_shape ref")
  case True
  then have "length (m_data test) = length (m_data ref)"
    using raster_wf_size [OF assms(1)] raster_wf_size [OF assms(2)] by simp
  then show ?thesis
    using True by (simp add: raster_approx_def approx_all_iff container_neq_def)
next
  case False
  then show ?thesis
    using assms(3) by (simp add: raster_approx_def container_neq_def)
qed

lemma random_bool:
  "generate_random_value rnd uniform clock TBool mn mx = Inr (IntVal (if uniform (clock 0) (to_real mn) (to_real mx) 0 = 0 then 0 else 1))"
  by (simp add: generate_random_value_def generate_random_vector_def generate_random_scalars_def is_complex_type_def cast_real_def)

end
