(* ===== verification/Fits_Life.thy ===== *)
theory Fits_Life
  imports Fits_TestData "HOL-Library.Word"
begin

text \<open>
  The Game of Life of the examples (\<^verbatim>\<open>GameOfLife.cpp\<close>): a raster of three axes is the evolution of a board in time, and two
  views on it, of one frame each, are the previous and the current frame.  Frames may be the same memory.
\<close>

section \<open>The model\<close>

type_synonym cell = "8 word"

record life =
  l_width :: int
  l_height :: int
  l_turns :: int
  l_board :: "cell raster"
  l_t :: int
  l_previous :: ptr_raster
  l_current :: ptr_raster

text \<open>Element access through a view on the memory of the board, by position and by raw index.\<close>

definition frame_index :: "ptr_raster \<Rightarrow> position \<Rightarrow> int result" where
  "frame_index v p = raster_index (\<lparr>Dim = 2, m_shape = pr_shape v, m_data = []\<rparr> :: cell raster) p"

definition frame_read :: "life \<Rightarrow> ptr_raster \<Rightarrow> int \<Rightarrow> cell result" where
  "frame_read s v i = rd (m_data (l_board s)) (pr_offset v + i)"

definition frame_write :: "ptr_raster \<Rightarrow> int \<Rightarrow> cell \<Rightarrow> life \<Rightarrow> life result" where
  "frame_write v i c s = rbind (wr (m_data (l_board s)) (pr_offset v + i) c) (\<lambda>d. Inr (s\<lparr>l_board := (l_board s)\<lparr>m_data := d\<rparr>\<rparr>))"

definition life_init :: "int \<Rightarrow> int \<Rightarrow> int \<Rightarrow> life result" where
  "life_init width height turns =
     rbind (raster_zero 0 3 [width, height, turns]) (\<lambda>board.
     rbind (raster_section_at board 0) (\<lambda>previous.
     rbind (raster_section_at board 1) (\<lambda>current.
     Inr \<lparr>l_width = width, l_height = height, l_turns = turns, l_board = board, l_t = 0, l_previous = previous, l_current = current\<rparr>)))"

text \<open>The body of the loop of \<^verbatim>\<open>generate\<close>: whether a life was added, and the game.\<close>

definition add_life :: "int \<Rightarrow> life \<Rightarrow> (bool \<times> life) result" where
  "add_life i s =
     rbind (frame_read s (l_previous s) i) (\<lambda>c.
       if c = 0 then rbind (frame_write (l_previous s) i 1 s) (\<lambda>s'. Inr (True, s')) else Inr (False, s))"

definition draw_cell :: "uniform \<Rightarrow> (nat \<Rightarrow> int) \<Rightarrow> life \<Rightarrow> int result" where
  "draw_cell uniform clock s =
     rbind (generate_random_value (\<lambda>_ x. x) uniform clock TLong (IntVal 0) (IntVal (l_width s * l_height s - 1)))
       (\<lambda>v. case v of IntVal i \<Rightarrow> Inr i | _ \<Rightarrow> Inl Undefined)"

partial_function (option) generate_lives :: "uniform \<Rightarrow> (nat \<Rightarrow> nat \<Rightarrow> int) \<Rightarrow> int \<Rightarrow> nat \<Rightarrow> int \<Rightarrow> life \<Rightarrow> life result option" where
  "generate_lives uniform clock count k done s =
     (if done \<le> count
      then case rbind (draw_cell uniform (clock k) s) (\<lambda>i. add_life i s) of
             Inl e \<Rightarrow> Some (Inl e)
           | Inr r \<Rightarrow> generate_lives uniform clock count (Suc k) (if fst r then done + 1 else done) (snd r)
      else Some (Inr s))"

definition life_generate :: "uniform \<Rightarrow> (nat \<Rightarrow> nat \<Rightarrow> int) \<Rightarrow> int \<Rightarrow> life \<Rightarrow> life result option" where
  "life_generate uniform clock count s = generate_lives uniform clock count 0 0 s"

definition is_in_domain :: "life \<Rightarrow> position \<Rightarrow> bool result" where
  "is_in_domain s p =
     rbind (rd p 0) (\<lambda>x. rbind (rd p 1) (\<lambda>y.
       if x < 0 \<or> x \<ge> l_width s then Inr False
       else if y < 0 \<or> y \<ge> l_height s then Inr False
       else Inr True))"

definition neighbors :: "position list" where
  "neighbors = [[- 1, - 1], [- 1, 0], [- 1, 1], [0, - 1], [0, 1], [1, - 1], [1, 0], [1, 1]]"

definition count_neighbor :: "life \<Rightarrow> position \<Rightarrow> position \<Rightarrow> int \<Rightarrow> int result" where
  "count_neighbor s p n count =
     (let q = op_plus p n in
      rbind (is_in_domain s q) (\<lambda>b.
        if b then rbind (frame_index (l_previous s) q) (\<lambda>i. rbind (frame_read s (l_previous s) i) (\<lambda>c. Inr (if c \<noteq> 0 then count + 1 else count)))
        else Inr count))"

definition count_lives :: "life \<Rightarrow> position \<Rightarrow> int result" where
  "count_lives s p = rfold (count_neighbor s p) neighbors 0"

text \<open>The body of the loop of \<^verbatim>\<open>update\<close>.\<close>

definition update_cell :: "position \<Rightarrow> life \<Rightarrow> life result" where
  "update_cell p s =
     rbind (count_lives s p) (\<lambda>lives.
     rbind (frame_index (l_previous s) p) (\<lambda>i. rbind (frame_read s (l_previous s) i) (\<lambda>c.
     rbind (frame_index (l_current s) p) (\<lambda>j.
       if c \<noteq> 0 then
         if lives < 2 \<or> lives > 3 then frame_write (l_current s) j 0 s
         else let inc = c + 1 in frame_write (l_current s) j (min inc (- 1)) s
       else if lives = 3 then frame_write (l_current s) j 1 s
       else Inr s))))"

definition frame_domain :: "ptr_raster \<Rightarrow> region" where
  "frame_domain v = raster_domain (\<lparr>Dim = 2, m_shape = pr_shape v, m_data = []\<rparr> :: cell raster)"

definition life_update :: "life \<Rightarrow> life result option" where
  "life_update s =
     (let dom = frame_domain (l_previous s) in
      map_option (\<lambda>r. rbind r (\<lambda>ps. rfold update_cell ps s)) (screen_region (Suc (nat (rg_size dom))) dom))"

definition life_next :: "life \<Rightarrow> life result" where
  "life_next s =
     (let t = l_t s + 1 in
      rbind (raster_section_at (l_board s) t) (\<lambda>current. Inr (s\<lparr>l_previous := l_current s, l_t := t, l_current := current\<rparr>)))"

partial_function (option) life_run :: "life \<Rightarrow> life result option" where
  "life_run s =
     (if l_t s < l_turns s
      then case Option.bind (life_update s) (\<lambda>r. Some (rbind r life_next)) of
             None \<Rightarrow> None
           | Some (Inl e) \<Rightarrow> Some (Inl e)
           | Some (Inr s') \<Rightarrow> life_run s'
      else Some (Inr s))"

section \<open>Frames\<close>

text \<open>The view of a frame of the board, and games as they are built: the board has its shape, and the views are frames.\<close>

definition frame :: "life \<Rightarrow> int \<Rightarrow> ptr_raster" where
  "frame s f = \<lparr>pr_offset = l_width s * l_height s * f, pr_shape = [l_width s, l_height s]\<rparr>"

definition life_wf :: "life \<Rightarrow> bool" where
  "life_wf s \<longleftrightarrow> 0 < l_width s \<and> 0 < l_height s \<and> 0 < l_turns s \<and>
     Dim (l_board s) = 3 \<and> m_shape (l_board s) = [l_width s, l_height s, l_turns s] \<and>
     int (length (m_data (l_board s))) = l_width s * l_height s * l_turns s"

definition in_frame :: "life \<Rightarrow> position \<Rightarrow> bool" where
  "in_frame s p \<longleftrightarrow> (\<exists>x y. p = [x, y] \<and> 0 \<le> x \<and> x < l_width s \<and> 0 \<le> y \<and> y < l_height s)"

text \<open>The cell at a position of a frame.\<close>

definition cell_at :: "life \<Rightarrow> int \<Rightarrow> position \<Rightarrow> cell" where
  "cell_at s f p = m_data (l_board s) ! nat (l_width s * l_height s * f + (p ! 0 + l_width s * p ! 1))"

lemma section_frame:
  assumes "Dim b = 3" "m_shape b = [w, h, n]"
  shows "raster_section_at b f = Inr \<lparr>pr_offset = w * h * f, pr_shape = [w, h]\<rparr>"
  using assms
  by (simp add: raster_section_at_def section_region_def raster_domain_def rg_fromShape_def pos_zero_def raster_dimension_def Let_def wr_def
      raster_slice_def isContiguous_def spans_axis_def flat_axis_def upto_rec1 numeral_3_eq_3 numeral_2_eq_2 raster_index_def)

lemma in_frame_index:
  assumes "in_frame s p"
  shows "0 \<le> p ! 0 + l_width s * p ! 1" "p ! 0 + l_width s * p ! 1 < l_width s * l_height s"
proof -
  obtain x y where p: "p = [x, y]" "0 \<le> x" "x < l_width s" "0 \<le> y" "y < l_height s"
    using assms by (auto simp: in_frame_def)
  then have "0 \<le> l_width s * y" "l_width s * (y + 1) \<le> l_width s * l_height s"
    by (simp_all add: mult_left_mono)
  then show "0 \<le> p ! 0 + l_width s * p ! 1" "p ! 0 + l_width s * p ! 1 < l_width s * l_height s"
    using p by (simp_all add: algebra_simps)
qed

lemma frame_offset:
  assumes "life_wf s" and "0 \<le> f" "f < l_turns s" and "0 \<le> i" "i < l_width s * l_height s"
  shows "0 \<le> l_width s * l_height s * f + i" "l_width s * l_height s * f + i < int (length (m_data (l_board s)))"
proof -
  have pos: "0 < l_width s * l_height s"
    using assms(1) by (simp add: life_wf_def)
  have "0 \<le> l_width s * l_height s * f"
    by (rule mult_nonneg_nonneg [OF less_imp_le [OF pos] assms(2)])
  moreover have "l_width s * l_height s * (f + 1) \<le> l_width s * l_height s * l_turns s"
    by (rule mult_left_mono) (use assms(3) pos in linarith)+
  ultimately show "0 \<le> l_width s * l_height s * f + i" "l_width s * l_height s * f + i < int (length (m_data (l_board s)))"
    using assms pos by (simp_all add: life_wf_def algebra_simps)
qed

lemma frame_read_in:
  assumes "life_wf s" and "0 \<le> f" "f < l_turns s" and "0 \<le> i" "i < l_width s * l_height s"
  shows "frame_read s (frame s f) i = Inr (m_data (l_board s) ! nat (l_width s * l_height s * f + i))"
  using frame_offset [OF assms] by (simp add: frame_read_def frame_def)

definition set_cell :: "int \<Rightarrow> cell \<Rightarrow> life \<Rightarrow> life" where
  "set_cell k c s = s\<lparr>l_board := (l_board s)\<lparr>m_data := (m_data (l_board s))[nat k := c]\<rparr>\<rparr>"

lemma set_cell_simps [simp]:
  "l_width (set_cell k c s) = l_width s" "l_height (set_cell k c s) = l_height s" "l_turns (set_cell k c s) = l_turns s"
  "l_t (set_cell k c s) = l_t s" "l_previous (set_cell k c s) = l_previous s" "l_current (set_cell k c s) = l_current s"
  "m_data (l_board (set_cell k c s)) = (m_data (l_board s))[nat k := c]" "frame (set_cell k c s) = frame s"
  "in_frame (set_cell k c s) = in_frame s" "life_wf (set_cell k c s) = life_wf s"
  by (auto simp: set_cell_def frame_def in_frame_def life_wf_def)

lemma frame_write_in:
  assumes "life_wf s" and "0 \<le> f" "f < l_turns s" and "0 \<le> i" "i < l_width s * l_height s"
  shows "frame_write (frame s f) i c s = Inr (set_cell (l_width s * l_height s * f + i) c s)"
  using frame_offset [OF assms] by (simp add: frame_write_def frame_def set_cell_def)

lemma frame_index_in: "in_frame s p \<Longrightarrow> frame_index (frame s f) p = Inr (p ! 0 + l_width s * p ! 1)"
  by (auto simp: in_frame_def frame_index_def raster_index_def frame_def numeral_2_eq_2)

section \<open>Generating lives\<close>

definition cells :: "life \<Rightarrow> int set" where
  "cells s = {i. 0 \<le> i \<and> i < l_width s * l_height s \<and> m_data (l_board s) ! nat i \<noteq> 0}"

lemma finite_cells: "finite (cells s)"
  by (rule finite_subset [of _ "{0..<l_width s * l_height s}"]) (auto simp: cells_def)

lemma cells_set_cell:
  assumes "life_wf s" and "0 \<le> i" "i < l_width s * l_height s"
  shows "cells (set_cell i 1 s) = insert i (cells s)"
proof -
  have "i < int (length (m_data (l_board s)))"
    using frame_offset(2) [OF assms(1) _ _ assms(2,3), of 0] assms(1) by (simp add: life_wf_def)
  then show ?thesis
    using assms(2,3) by (auto simp: cells_def nth_list_update nat_eq_iff2)
qed

lemma add_life_in:
  assumes "life_wf s" and "l_previous s = frame s 0" and "0 \<le> i" "i < l_width s * l_height s"
  shows "add_life i s = Inr (i \<notin> cells s, if i \<in> cells s then s else set_cell i 1 s)"
  using assms(1,2) frame_read_in [OF assms(1) _ _ assms(3,4), of 0] frame_write_in [OF assms(1) _ _ assms(3,4), of 0 1] assms(3,4)
  by (simp add: add_life_def life_wf_def cells_def)

text \<open>The index of the cell that is drawn in \<open>k\<close>-th place.\<close>

definition drawn :: "uniform \<Rightarrow> (nat \<Rightarrow> nat \<Rightarrow> int) \<Rightarrow> int \<Rightarrow> nat \<Rightarrow> int" where
  "drawn uniform clock n k = trunc_real (uniform (clock k 0) 0 (real_of_int (n - 1)) 0)"

lemma draw_cell_drawn:
  assumes "uniform_documented uniform" and "2 \<le> l_width s * l_height s" "l_width s * l_height s \<le> 2 ^ 63"
  shows "draw_cell uniform (clock k) s = Inr (drawn uniform clock (l_width s * l_height s) k) \<and>
         0 \<le> drawn uniform clock (l_width s * l_height s) k \<and> drawn uniform clock (l_width s * l_height s) k < l_width s * l_height s - 1"
proof -
  have x: "0 \<le> uniform (clock k 0) 0 (real_of_int (l_width s * l_height s - 1)) 0"
      "uniform (clock k 0) 0 (real_of_int (l_width s * l_height s - 1)) 0 < real_of_int (l_width s * l_height s - 1)"
    using assms(1,2) by (simp_all add: uniform_documented_def del: of_int_mult of_int_diff)
  have "cast_real (\<lambda>_ x. x) TLong (uniform (clock k 0) 0 (real_of_int (l_width s * l_height s - 1)) 0) =
      Inr (IntVal (drawn uniform clock (l_width s * l_height s) k))"
    using trunc_between [of 0 _ "l_width s * l_height s - 1", OF _ x(2)] x(1) assms(2,3)
    by (simp add: cast_real_def drawn_def)
  then show ?thesis
    using trunc_between [of 0 _ "l_width s * l_height s - 1", OF _ x(2)] x(1) assms(2)
    by (simp add: draw_cell_def generate_random_value_def generate_random_vector_def generate_random_scalars_def is_complex_type_def
        to_real_def drawn_def)
qed

definition generating :: "life \<Rightarrow> int \<Rightarrow> int \<Rightarrow> bool" where
  "generating s n done \<longleftrightarrow> life_wf s \<and> l_previous s = frame s 0 \<and> l_current s = frame s 1 \<and> l_t s = 0 \<and> l_width s * l_height s = n \<and>
     done = int (card (cells s)) \<and> cells s \<subseteq> {0..<n - 1}"

lemma generating_step:
  assumes "uniform_documented uniform" and "2 \<le> n" "n \<le> 2 ^ 63" and "generating s n done"
  shows "\<exists>b s'. rbind (draw_cell uniform (clock k) s) (\<lambda>i. add_life i s) = Inr (b, s') \<and>
           generating s' n (if b then done + 1 else done) \<and> cells s' = insert (drawn uniform clock n k) (cells s) \<and> l_turns s' = l_turns s"
proof -
  let ?i = "drawn uniform clock n k"
  have s: "life_wf s" "l_previous s = frame s 0" "l_width s * l_height s = n" "done = int (card (cells s))" "cells s \<subseteq> {0..<n - 1}"
      "l_current s = frame s 1" "l_t s = 0"
    using assms(4) by (simp_all add: generating_def)
  have i: "draw_cell uniform (clock k) s = Inr ?i" "0 \<le> ?i" "?i < n - 1"
    using draw_cell_drawn [OF assms(1), of s clock k] assms(2,3) s(3) by simp_all
  let ?s = "if ?i \<in> cells s then s else set_cell ?i 1 s"
  have "rbind (draw_cell uniform (clock k) s) (\<lambda>i. add_life i s) = Inr (?i \<notin> cells s, ?s)"
    using i add_life_in [OF s(1,2), of ?i] s(3) by simp
  moreover have c: "cells ?s = insert ?i (cells s)"
    using cells_set_cell [OF s(1), of ?i] i s(3) by auto
  moreover have "generating ?s n (if ?i \<notin> cells s then done + 1 else done)"
    using s i c finite_cells [of s] by (simp add: generating_def insert_absorb)
  moreover have "l_turns ?s = l_turns s"
    by simp
  ultimately show ?thesis
    by blast
qed

text \<open>Enough cells are drawn before the \<open>K\<close>-th place: the loop ends there at the latest.\<close>

lemma generate_returns:
  assumes "uniform_documented uniform" and "2 \<le> n" "n \<le> 2 ^ 63" and "count < n - 1"
    and "generating s n done" and "done \<le> count + 1" and "{0..<n - 1} \<subseteq> cells s \<union> drawn uniform clock n ` {k..<k + m}"
  shows "\<exists>s'. generate_lives uniform clock count k done s = Some (Inr s') \<and> generating s' n (max done (count + 1)) \<and> l_turns s' = l_turns s"
  using assms(5-)
proof (induction m arbitrary: k "done" s)
  case 0
  have "cells s = {0..<n - 1}"
    using 0(1,3) by (auto simp: generating_def)
  then have "done = n - 1"
    using 0(1) assms(2) by (simp add: generating_def)
  then show ?case
    using 0(1,2) assms(4) by (subst generate_lives.simps) simp
next
  case (Suc m)
  show ?case
  proof (cases "done \<le> count")
    case True
    obtain b s' where s': "rbind (draw_cell uniform (clock k) s) (\<lambda>i. add_life i s) = Inr (b, s')"
        "generating s' n (if b then done + 1 else done)" "cells s' = insert (drawn uniform clock n k) (cells s)" "l_turns s' = l_turns s"
      using generating_step [OF assms(1-3) Suc.prems(1), of clock k] by blast
    have "{k..<k + Suc m} = insert k {Suc k..<Suc k + m}"
      by auto
    then have "{0..<n - 1} \<subseteq> cells s' \<union> drawn uniform clock n ` {Suc k..<Suc k + m}"
      using Suc.prems(3) s'(3) by auto
    then have "\<exists>s''. generate_lives uniform clock count (Suc k) (if b then done + 1 else done) s' = Some (Inr s'') \<and>
        generating s'' n (max (if b then done + 1 else done) (count + 1)) \<and> l_turns s'' = l_turns s'"
      using True by (intro Suc.IH [OF s'(2)]) auto
    then show ?thesis
      using True s'(1,4) by (subst generate_lives.simps) (auto simp: max_def split: if_splits)
  next
    case False
    then have "max done (count + 1) = done"
      using Suc.prems(2) by simp
    then show ?thesis
      using False Suc.prems(1) by (subst generate_lives.simps) simp
  qed
qed

text \<open>When more lives are asked for than there are cells to draw, the loop has no result.\<close>

lemma generate_stuck:
  assumes "uniform_documented uniform" and "2 \<le> n" "n \<le> 2 ^ 63" and "n - 1 \<le> count" and "generating s n done"
    and "generate_lives uniform clock count k done s = Some y"
  shows False
  using assms(1-5)
proof (induction rule: generate_lives.raw_induct [OF _ assms(6)])
  case (1 run uniform clock count k "done" s y)
  have "card (cells s) \<le> card {0..<n - 1}"
    using 1(7) by (intro card_mono) (simp_all add: generating_def)
  then have "done \<le> count"
    using 1(4,6,7) by (simp add: generating_def)
  moreover obtain b s' where "rbind (draw_cell uniform (clock k) s) (\<lambda>i. add_life i s) = Inr (b, s')"
      "generating s' n (if b then done + 1 else done)"
    using generating_step [OF 1(3-5,7), of clock k] by blast
  ultimately show ?case
    using 1 by (auto split: if_splits)
qed

lemma card_bounded_image:
  assumes "\<And>i. i \<in> {0..<n} \<Longrightarrow> \<exists>k. g k = (i :: int)"
  shows "\<exists>m. {0..<n} \<subseteq> g ` {0..<m :: nat}"
proof -
  obtain h where h: "\<And>i. i \<in> {0..<n} \<Longrightarrow> g (h i) = i"
    using assms by metis
  have "h i < Suc (Max (h ` {0..<n}))" if "i \<in> {0..<n}" for i
    using that by (intro le_imp_less_Suc Max_ge) auto
  then have "{0..<n} \<subseteq> g ` {0..<Suc (Max (h ` {0..<n}))}"
    using h by (metis (no_types, lifting) atLeastLessThan_iff image_eqI subsetI zero_le)
  then show ?thesis ..
qed

lemma generate_fair:
  assumes "uniform_documented uniform" and "2 \<le> n" "n \<le> 2 ^ 63" and "count < n - 1" and "generating s n 0"
    and "\<And>i. 0 \<le> i \<Longrightarrow> i < n - 1 \<Longrightarrow> \<exists>k. drawn uniform clock n k = i" and "0 \<le> count + 1"
  shows "\<exists>s'. generate_lives uniform clock count 0 0 s = Some (Inr s') \<and> generating s' n (max 0 (count + 1)) \<and> l_turns s' = l_turns s"
proof -
  obtain m where "{0..<n - 1} \<subseteq> drawn uniform clock n ` {0..<m}"
    using card_bounded_image [of "n - 1" "drawn uniform clock n"] assms(6) by auto
  then show ?thesis
    using generate_returns [OF assms(1-5), of clock 0 m] assms(7) by auto
qed

lemma life_init_eq:
  assumes "0 < w" "0 < h" "0 < turns"
  shows "life_init w h turns =
    Inr \<lparr>l_width = w, l_height = h, l_turns = turns,
         l_board = \<lparr>Dim = 3, m_shape = [w, h, turns], m_data = replicate (nat (w * h * turns)) 0\<rparr>, l_t = 0,
         l_previous = \<lparr>pr_offset = 0, pr_shape = [w, h]\<rparr>, l_current = \<lparr>pr_offset = w * h, pr_shape = [w, h]\<rparr>\<rparr>"
proof -
  have "0 < w * h * turns"
    using assms by simp
  then have "raster_zero (0 :: cell) 3 [w, h, turns] = Inr \<lparr>Dim = 3, m_shape = [w, h, turns], m_data = replicate (nat (w * h * turns)) 0\<rparr>"
    by (simp add: raster_zero_def shapeSize_def holder_vector_def)
  then show ?thesis
    by (simp add: life_init_def section_frame [of _ w h turns])
qed

lemma life_init_frames:
  assumes "0 < w" "0 < h" "0 < turns" and "life_init w h turns = Inr s"
  shows "life_wf s \<and> l_width s = w \<and> l_height s = h \<and> l_turns s = turns \<and> l_t s = 0 \<and> l_previous s = frame s 0 \<and> l_current s = frame s 1 \<and>
         set (m_data (l_board s)) \<subseteq> {0}"
  using assms(4) unfolding life_init_eq [OF assms(1-3)] by (auto simp: life_wf_def frame_def assms(1-3) less_imp_le)

lemma life_init_generating:
  assumes "0 < w" "0 < h" "0 < turns" and "life_init w h turns = Inr s"
  shows "generating s (w * h) 0 \<and> cells s = {}"
proof -
  have s: "life_wf s" "l_width s = w" "l_height s = h" "l_previous s = frame s 0" "set (m_data (l_board s)) \<subseteq> {0}"
      "l_current s = frame s 1" "l_t s = 0"
    using life_init_frames [OF assms] by simp_all
  have "m_data (l_board s) ! nat i = 0" if i: "0 \<le> i" "i < w * h" for i
  proof -
    have "0 < l_turns s"
      using s(1) by (simp add: life_wf_def)
    then have "nat i < length (m_data (l_board s))"
      using frame_offset(2) [OF s(1), of 0 i] i s(2,3) by simp
    then show ?thesis
      using s(5) by (meson nth_mem singletonD subsetD)
  qed
  then have "cells s = {}"
    using s(2,3) by (auto simp: cells_def)
  then show ?thesis
    using s by (simp add: generating_def)
qed

text \<open>
  C24: On a new board of at least two cells, if the random numbers are such that every cell but the last is drawn at some time, the generation of
  lives returns exactly when fewer lives are asked for than there are cells but the last; it has then made one life more than asked for.\<close>

theorem generate_liveness:
  assumes "uniform_documented uniform" and "0 < w" "0 < h" "0 < turns" "2 \<le> w * h" "w * h \<le> 2 ^ 63"
    and "life_init w h turns = Inr s" and "\<And>i. 0 \<le> i \<Longrightarrow> i < w * h - 1 \<Longrightarrow> \<exists>k. drawn uniform clock (w * h) k = i"
  shows "if count < w * h - 1
         then \<exists>s'. life_generate uniform clock count s = Some (Inr s') \<and> int (card (cells s')) = max 0 (count + 1)
         else life_generate uniform clock count s = None"
proof -
  have gen: "generating s (w * h) 0" and none: "cells s = {}"
    using life_init_generating [OF assms(2-4,7)] by simp_all
  show ?thesis
  proof (cases "count < w * h - 1")
    case True
    show ?thesis
    proof (cases "count + 1 < 0")
      case True
      then have "life_generate uniform clock count s = Some (Inr s)"
        by (simp add: life_generate_def generate_lives.simps)
      then show ?thesis
        using True \<open>count < w * h - 1\<close> none by simp
    next
      case False
      then obtain s' where "generate_lives uniform clock count 0 0 s = Some (Inr s')" "generating s' (w * h) (max 0 (count + 1))"
        using generate_fair [OF assms(1,5,6) True gen assms(8)] by auto
      then show ?thesis
        using True by (simp add: life_generate_def generating_def)
    qed
  next
    case False
    then have "generate_lives uniform clock count 0 0 s \<noteq> Some y" for y
      using generate_stuck [OF assms(1,5,6) _ gen, of count clock 0 y] by auto
    then show ?thesis
      using False by (cases "generate_lives uniform clock count 0 0 s") (auto simp: life_generate_def)
  qed
qed

text \<open>Draws that go through a board of two by two cells.\<close>

lemma cycling_documented: "uniform_documented (\<lambda>seed a b k. if seed = 0 then a else a + (b - a) * (if seed = 1 then 1 / 2 else 5 / 6))"
  by (auto simp: uniform_documented_def field_simps)

lemma cycling_draws:
  assumes "0 \<le> i" "i < 2 * 2 - 1"
  shows "\<exists>k. drawn (\<lambda>seed a b k. if seed = 0 then a else a + (b - a) * (if seed = 1 then 1 / 2 else 5 / 6)) (\<lambda>k _. int (k mod 3)) (2 * 2) k = i"
proof -
  have "i = 0 \<or> i = 1 \<or> i = 2"
    using assms by auto
  then show ?thesis
    by (auto simp: drawn_def trunc_real_def intro: exI [of _ 0] exI [of _ 1] exI [of _ 2])
qed

theorem generate_liveness_witness:
  "\<exists>s s'. life_init 2 2 3 = Inr s \<and>
     life_generate (\<lambda>seed a b k. if seed = 0 then a else a + (b - a) * (if seed = 1 then 1 / 2 else 5 / 6)) (\<lambda>k _. int (k mod 3)) 1 s = Some (Inr s') \<and>
     card (cells s') = 2"
proof -
  obtain s where s: "life_init 2 2 3 = Inr s"
    using life_init_eq [of 2 2 3] by simp
  show ?thesis
    using generate_liveness [OF cycling_documented _ _ _ _ _ s cycling_draws, of 1] s by auto
qed

section \<open>Playing\<close>

text \<open>The rule of the game, and the number of lives around a position.\<close>

definition around :: "position \<Rightarrow> position \<Rightarrow> bool" where
  "around p q \<longleftrightarrow> q \<noteq> p \<and> \<bar>q ! 0 - p ! 0\<bar> \<le> 1 \<and> \<bar>q ! 1 - p ! 1\<bar> \<le> 1"

definition lives_around :: "life \<Rightarrow> int \<Rightarrow> position \<Rightarrow> int" where
  "lives_around s f p = int (card {q. in_frame s q \<and> around p q \<and> cell_at s f q \<noteq> 0})"

definition new_cell :: "cell \<Rightarrow> int \<Rightarrow> cell \<Rightarrow> cell" where
  "new_cell old lives blank =
     (if old \<noteq> 0 then if lives < 2 \<or> lives > 3 then 0 else old + 1 else if lives = 3 then 1 else blank)"

lemma min_top: "min x (- 1) = (x :: cell)"
  by (simp add: min_def)

lemma is_in_domain_iff: "is_in_domain s [x, y] = Inr (in_frame s [x, y])"
  by (auto simp: is_in_domain_def in_frame_def)

lemma frame_read_at:
  assumes "life_wf s" "0 \<le> f" "f < l_turns s" "in_frame s q"
  shows "rbind (frame_index (frame s f) q) (frame_read s (frame s f)) = Inr (cell_at s f q)"
  using frame_index_in [OF assms(4), of f] frame_read_in [OF assms(1-3) in_frame_index [OF assms(4)]] by (simp add: cell_at_def)

lemma count_neighbor_at:
  assumes "life_wf s" "0 \<le> f" "f < l_turns s" "l_previous s = frame s f"
  shows "count_neighbor s [x, y] [dx, dy] c =
    Inr (c + (if in_frame s [x + dx, y + dy] \<and> cell_at s f [x + dx, y + dy] \<noteq> 0 then 1 else 0))"
proof (cases "in_frame s [x + dx, y + dy]")
  case True
  then show ?thesis
    using frame_read_at [OF assms(1-3) True] assms(4)
    by (cases "frame_index (frame s f) [x + dx, y + dy]") (simp_all add: count_neighbor_def is_in_domain_iff)
qed (simp add: count_neighbor_def is_in_domain_iff)

lemma neighbors_around:
  "{q. in_frame s q \<and> around [x, y] q \<and> P q} = {q \<in> set (map (op_plus [x, y]) neighbors). in_frame s q \<and> P q}"
proof -
  have "around [x, y] [a, b] \<longleftrightarrow> [a, b] \<in> set (map (op_plus [x, y]) neighbors)" for a b
    by (simp add: around_def neighbors_def) presburger
  then have "in_frame s q \<Longrightarrow> around [x, y] q \<longleftrightarrow> q \<in> set (map (op_plus [x, y]) neighbors)" for q
    by (metis in_frame_def)
  then show ?thesis
    by blast
qed

lemma count_neighbors:
  assumes "life_wf s" "0 \<le> f" "f < l_turns s" "l_previous s = frame s f" and "\<forall>n \<in> set ns. length n = 2"
  shows "rfold (count_neighbor s [x, y]) ns c =
    Inr (c + int (length (filter (\<lambda>q. in_frame s q \<and> cell_at s f q \<noteq> 0) (map (op_plus [x, y]) ns))))"
  using assms(5)
proof (induction ns arbitrary: c)
  case (Cons n ns)
  then obtain dx dy where "n = [dx, dy]"
    by (auto simp: length_Suc_conv numeral_2_eq_2)
  then show ?case
    using Cons by (simp add: count_neighbor_at [OF assms(1-4)])
qed simp

lemma count_lives_at:
  assumes "life_wf s" "0 \<le> f" "f < l_turns s" "l_previous s = frame s f"
  shows "count_lives s [x, y] = Inr (lives_around s f [x, y])"
proof -
  let ?alive = "\<lambda>q. in_frame s q \<and> cell_at s f q \<noteq> 0"
  let ?qs = "map (op_plus [x, y]) neighbors"
  have "count_lives s [x, y] = Inr (int (length (filter ?alive ?qs)))"
    unfolding count_lives_def by (subst count_neighbors [OF assms]) (simp_all add: neighbors_def)
  also have "length (filter ?alive ?qs) = card (set (filter ?alive ?qs))"
    by (rule distinct_card [symmetric]) (simp add: neighbors_def)
  also have "set (filter ?alive ?qs) = {q. in_frame s q \<and> around [x, y] q \<and> cell_at s f q \<noteq> 0}"
    unfolding neighbors_around by auto
  finally show ?thesis
    by (simp add: lives_around_def)
qed

text \<open>One cell, for any two frames of the board.\<close>

definition cell_index :: "life \<Rightarrow> int \<Rightarrow> position \<Rightarrow> int" where
  "cell_index s f p = l_width s * l_height s * f + (p ! 0 + l_width s * p ! 1)"

lemma update_cell_in:
  assumes "life_wf s" "0 \<le> f" "f < l_turns s" "l_previous s = frame s f" "0 \<le> g" "g < l_turns s" "l_current s = frame s g" "in_frame s p"
  shows "update_cell p s = Inr (set_cell (cell_index s g p) (new_cell (cell_at s f p) (lives_around s f p) (cell_at s g p)) s)"
proof -
  obtain x y where p: "p = [x, y]"
    using assms(8) by (auto simp: in_frame_def)
  note index = in_frame_index [OF assms(8)]
  have same: "set_cell (cell_index s g p) (cell_at s g p) s = s"
    by (simp add: set_cell_def cell_index_def cell_at_def)
  show ?thesis
    using count_lives_at [OF assms(1-4), of x y] frame_index_in [OF assms(8)] frame_read_in [OF assms(1-3) index]
      frame_write_in [OF assms(1,5,6) index] assms(4,7) same
    by (simp add: update_cell_def p [symmetric] new_cell_def min_top Let_def cell_index_def [symmetric] cell_at_def cell_index_def)
qed

lemma cell_index_inject:
  assumes "0 < l_width s" "0 < l_height s" and "in_frame s p" "in_frame s q"
  shows "cell_index s f p = cell_index s g q \<longleftrightarrow> f = g \<and> p = q"
proof
  assume eq: "cell_index s f p = cell_index s g q"
  let ?n = "l_width s * l_height s"
  obtain x y u v where pq: "p = [x, y]" "q = [u, v]" "0 \<le> x" "x < l_width s" "0 \<le> u" "u < l_width s"
    using assms(3,4) by (auto simp: in_frame_def)
  have "(n * f + i) div n = f \<and> (n * f + i) mod n = i" if "0 \<le> i" "i < n" for n f i :: int
    using that by simp
  then have split: "cell_index s f p div ?n = f \<and> cell_index s f p mod ?n = p ! 0 + l_width s * p ! 1" if "in_frame s p" for f p
    unfolding cell_index_def using in_frame_index [OF that] by blast
  have "f = g" "x + l_width s * y = u + l_width s * v"
    using split [OF assms(3), of f] split [OF assms(4), of g] eq pq by auto
  moreover from this(2) have "(x + l_width s * y) div l_width s = (u + l_width s * v) div l_width s"
    by simp
  then have "y = v"
    using pq assms(1) by simp
  ultimately show "f = g \<and> p = q"
    using pq by simp
qed simp

lemma cell_index_bounds:
  assumes "life_wf s" "0 \<le> f" "f < l_turns s" "in_frame s p"
  shows "0 \<le> cell_index s f p" "cell_index s f p < int (length (m_data (l_board s)))"
  unfolding cell_index_def by (rule frame_offset [OF assms(1-3) in_frame_index [OF assms(4)]])+

lemma cell_at_set_cell:
  assumes "life_wf s" and "0 \<le> f" "f < l_turns s" "0 \<le> g" "g < l_turns s" and "in_frame s p" "in_frame s q"
  shows "cell_at (set_cell (cell_index s g p) c s) f q = (if f = g \<and> q = p then c else cell_at s f q)"
proof -
  have "cell_at s f q = m_data (l_board s) ! nat (cell_index s f q)" for s f q
    by (simp add: cell_at_def cell_index_def)
  moreover have "cell_index (set_cell k c s) f q = cell_index s f q" for k
    by (simp add: cell_index_def)
  ultimately show ?thesis
    using cell_index_bounds [OF assms(1-3,7)] cell_index_bounds [OF assms(1,4,5,6)] assms(1)
      cell_index_inject [of s p q g f, OF _ _ assms(6,7)]
    by (auto simp: nth_list_update life_wf_def)
qed

text \<open>The loop over the frame, whether the frames are the same or not: it ends normally and keeps the views.\<close>

definition same_game :: "life \<Rightarrow> life \<Rightarrow> bool" where
  "same_game s s' \<longleftrightarrow> l_width s' = l_width s \<and> l_height s' = l_height s \<and> l_turns s' = l_turns s \<and> l_t s' = l_t s \<and>
     l_previous s' = l_previous s \<and> l_current s' = l_current s \<and> life_wf s'"

lemma same_game_frame: "same_game s s' \<Longrightarrow> frame s' = frame s \<and> in_frame s' = in_frame s \<and> cell_index s' = cell_index s"
  by (simp add: same_game_def frame_def in_frame_def cell_index_def fun_eq_iff)

lemma same_game_trans: "same_game s s' \<Longrightarrow> same_game s' s'' \<Longrightarrow> same_game s s''"
  by (simp add: same_game_def)

lemma same_game_set_cell: "life_wf s \<Longrightarrow> same_game s (set_cell k c s)"
  by (simp add: same_game_def)

lemma update_cells_total:
  assumes "life_wf s" "0 \<le> f" "f < l_turns s" "l_previous s = frame s f" "0 \<le> g" "g < l_turns s" "l_current s = frame s g"
    and "\<forall>p \<in> set ps. in_frame s p"
  shows "\<exists>s'. rfold update_cell ps s = Inr s' \<and> same_game s s'"
  using assms
proof (induction ps arbitrary: s)
  case Nil
  then show ?case
    by (simp add: same_game_def)
next
  case (Cons p ps)
  let ?s = "set_cell (cell_index s g p) (new_cell (cell_at s f p) (lives_around s f p) (cell_at s g p)) s"
  have "update_cell p s = Inr ?s"
    using Cons.prems by (intro update_cell_in) simp_all
  moreover have "\<exists>s'. rfold update_cell ps ?s = Inr s' \<and> same_game ?s s'"
    using Cons.prems by (intro Cons.IH) simp_all
  ultimately show ?case
    using same_game_trans same_game_set_cell [OF Cons.prems(1)] by (metis rbind_simps(2) rfold.simps(2))
qed

text \<open>With two different frames, each cell of the current frame depends on the previous frame only.\<close>

lemma update_cells_apart:
  assumes "life_wf s" "0 \<le> f" "f < l_turns s" "l_previous s = frame s f" "0 \<le> g" "g < l_turns s" "l_current s = frame s g" and "f \<noteq> g"
    and "\<forall>p \<in> set ps. in_frame s p" "distinct ps" "rfold update_cell ps s = Inr s'" and "in_frame s q" "0 \<le> h" "h < l_turns s"
  shows "cell_at s' h q =
    (if h = g \<and> q \<in> set ps then new_cell (cell_at s f q) (lives_around s f q) (cell_at s g q) else cell_at s h q)"
  using assms
proof (induction ps arbitrary: s)
  case Nil
  then show ?case
    by simp
next
  case (Cons p ps)
  let ?s = "set_cell (cell_index s g p) (new_cell (cell_at s f p) (lives_around s f p) (cell_at s g p)) s"
  have p: "update_cell p s = Inr ?s" "in_frame s p"
    using Cons.prems by (auto intro: update_cell_in)
  have cell: "cell_at ?s f' r = (if f' = g \<and> r = p then new_cell (cell_at s f p) (lives_around s f p) (cell_at s g p) else cell_at s f' r)"
    if "0 \<le> f'" "f' < l_turns s" "in_frame s r" for f' r
    using cell_at_set_cell [OF Cons.prems(1) that(1,2) Cons.prems(5,6) p(2) that(3)] by simp
  then have "lives_around ?s f r = lives_around s f r" for r
    using Cons.prems(2,3,8) unfolding lives_around_def by (intro arg_cong [where f = "\<lambda>A. int (card A)"]) auto
  moreover have "cell_at s' h q =
      (if h = g \<and> q \<in> set ps then new_cell (cell_at ?s f q) (lives_around ?s f q) (cell_at ?s g q) else cell_at ?s h q)"
    using Cons.prems p by (intro Cons.IH) simp_all
  ultimately show ?case
    using Cons.prems cell by (auto split: if_splits)
qed

lemma frame_screen:
  assumes "0 < l_width s" "0 < l_height s"
  shows "\<exists>ps. screen_region (Suc (nat (rg_size (frame_domain (frame s f))))) (frame_domain (frame s f)) = Some (Inr ps) \<and> distinct ps \<and>
           set ps = {p. in_frame s p}"
proof -
  let ?r = "frame_domain (frame s f)"
  have r: "rg_front ?r = [0, 0]" "rg_back ?r = [l_width s - 1, l_height s - 1]"
    by (simp_all add: frame_domain_def raster_domain_def rg_fromShape_def pos_zero_def frame_def numeral_2_eq_2)
  then have proper: "rg_proper ?r"
    using assms by (simp add: rg_proper_def)
  have "screen_region (Suc (nat (rg_size ?r))) ?r = Some (Inr (positions (rg_front ?r) (rg_back ?r)))"
    by (rule screen_region_positions [OF proper]) (simp add: rg_size_positions [OF proper])
  moreover have "set (positions (rg_front ?r) (rg_back ?r)) = {p. in_frame s p}"
    unfolding r by (subst set_positions) (auto simp: in_box_Cons in_frame_def)
  ultimately show ?thesis
    using distinct_positions by blast
qed

lemma life_update_total:
  assumes "life_wf s" "0 \<le> f" "f < l_turns s" "l_previous s = frame s f" "0 \<le> g" "g < l_turns s" "l_current s = frame s g"
  shows "\<exists>s'. life_update s = Some (Inr s') \<and> same_game s s'"
proof -
  have "0 < l_width s" "0 < l_height s"
    using assms(1) by (simp_all add: life_wf_def)
  from frame_screen [OF this, of f] show ?thesis
    using update_cells_total [OF assms] assms(4) by (fastforce simp: life_update_def Let_def)
qed

lemma life_update_cells:
  assumes "life_wf s" "0 \<le> f" "f < l_turns s" "l_previous s = frame s f" "0 \<le> g" "g < l_turns s" "l_current s = frame s g" and "f \<noteq> g"
    and "life_update s = Some (Inr s')" and "in_frame s q" "0 \<le> h" "h < l_turns s"
  shows "cell_at s' h q = (if h = g then new_cell (cell_at s f q) (lives_around s f q) (cell_at s g q) else cell_at s h q)"
proof -
  have "0 < l_width s" "0 < l_height s"
    using assms(1) by (simp_all add: life_wf_def)
  from frame_screen [OF this, of f] obtain ps where ps:
    "screen_region (Suc (nat (rg_size (frame_domain (frame s f))))) (frame_domain (frame s f)) = Some (Inr ps)" "distinct ps" "set ps = {p. in_frame s p}"
    by blast
  then have "rfold update_cell ps s = Inr s'"
    using assms(4,9) by (simp add: life_update_def Let_def)
  then show ?thesis
    using update_cells_apart [OF assms(1-8) _ ps(2) _ assms(10-12)] ps(3) assms(10) by simp
qed


text \<open>A game of two turns on three by three cells, three of which live in the middle column.\<close>

definition blinker :: life where
  "blinker = \<lparr>l_width = 3, l_height = 3, l_turns = 2,
     l_board = \<lparr>Dim = 3, m_shape = [3, 3, 2], m_data = [0, 1, 0, 0, 1, 0, 0, 1, 0] @ replicate 9 0\<rparr>, l_t = 0,
     l_previous = \<lparr>pr_offset = 0, pr_shape = [3, 3]\<rparr>, l_current = \<lparr>pr_offset = 9, pr_shape = [3, 3]\<rparr>\<rparr>"


text \<open>
  The views at the beginning of each turn.  At the second turn, both are the second frame: \<^verbatim>\<open>next\<close> selects the frame numbered with
  the turn that begins, while the first turn already updates the second frame.
\<close>

definition playing :: "life \<Rightarrow> bool" where
  "playing s \<longleftrightarrow> life_wf s \<and> 2 \<le> l_turns s \<and> 0 \<le> l_t s \<and> l_t s \<le> l_turns s \<and>
     l_previous s = frame s (if l_t s = 0 then 0 else max 1 (l_t s - 1)) \<and> l_current s = frame s (max 1 (l_t s))"

lemma life_next_frame:
  assumes "life_wf s"
  shows "life_next s = Inr (s\<lparr>l_previous := l_current s, l_t := l_t s + 1, l_current := frame s (l_t s + 1)\<rparr>)"
  using assms section_frame [of "l_board s" "l_width s" "l_height s" "l_turns s" "l_t s + 1"] by (simp add: life_next_def life_wf_def frame_def Let_def)

lemma life_turn:
  assumes "playing s" "l_t s < l_turns s"
  shows "\<exists>s'. Option.bind (life_update s) (\<lambda>r. Some (rbind r life_next)) = Some (Inr s') \<and> playing s' \<and>
           l_t s' = l_t s + 1 \<and> l_turns s' = l_turns s"
proof -
  have s: "life_wf s" "2 \<le> l_turns s" "0 \<le> l_t s" "l_previous s = frame s (if l_t s = 0 then 0 else max 1 (l_t s - 1))"
      "l_current s = frame s (max 1 (l_t s))"
    using assms(1) by (simp_all add: playing_def)
  have "\<exists>u. life_update s = Some (Inr u) \<and> same_game s u"
    by (rule life_update_total [OF s(1) _ _ s(4) _ _ s(5)]) (use s(2,3) assms(2) in auto)
  then obtain u where u: "life_update s = Some (Inr u)" "same_game s u"
    by blast
  have "life_wf u" "frame u = frame s"
    using u(2) same_game_frame [OF u(2)] by (simp_all add: same_game_def)
  then have "life_next u = Inr (u\<lparr>l_previous := l_current u, l_t := l_t u + 1, l_current := frame u (l_t u + 1)\<rparr>)"
    by (intro life_next_frame)
  moreover have "playing (u\<lparr>l_previous := l_current u, l_t := l_t u + 1, l_current := frame u (l_t u + 1)\<rparr>)"
    using u(2) s assms(2) \<open>frame u = frame s\<close> by (auto simp: playing_def same_game_def frame_def life_wf_def max_def)
  ultimately show ?thesis
    using u by (auto simp: same_game_def)
qed

lemma life_run_returns_from:
  assumes "playing s"
  shows "\<exists>s'. life_run s = Some (Inr s') \<and> playing s' \<and> l_t s' = l_turns s"
  using assms
proof (induction "nat (l_turns s - l_t s)" arbitrary: s)
  case 0
  then show ?case
    by (subst life_run.simps) (simp add: playing_def)
next
  case (Suc n)
  then have t: "l_t s < l_turns s"
    by simp
  from life_turn [OF Suc.prems t] obtain s1 where s1: "Option.bind (life_update s) (\<lambda>r. Some (rbind r life_next)) = Some (Inr s1)" "playing s1"
      "l_t s1 = l_t s + 1" "l_turns s1 = l_turns s"
    by blast
  then have "n = nat (l_turns s1 - l_t s1)"
    using Suc.hyps(2) by simp
  from Suc.hyps(1) [OF this s1(2)] show ?case
    using t s1 by (subst life_run.simps) simp
qed

lemma second_turn_in_place: "playing s \<Longrightarrow> l_t s = 1 \<Longrightarrow> l_previous s = l_current s"
  by (simp add: playing_def)

lemma playing_at_first:
  "life_wf s \<Longrightarrow> 2 \<le> l_turns s \<Longrightarrow> l_t s = 0 \<Longrightarrow> l_previous s = frame s 0 \<Longrightarrow> l_current s = frame s 1 \<Longrightarrow> playing s"
  by (simp add: playing_def)

text \<open>
  A game of two turns or more, from any lives in its first frame, runs to its end and never accesses memory out of the board.\<close>

theorem life_run_returns:
  assumes "life_wf s" and "2 \<le> l_turns s" and "l_t s = 0" and "l_previous s = frame s 0" "l_current s = frame s 1"
  shows "\<exists>s'. life_run s = Some (Inr s') \<and> l_t s' = l_turns s"
  using life_run_returns_from [OF playing_at_first [OF assms]] by blast

theorem life_run_returns_witness: "\<exists>s'. life_run blinker = Some (Inr s') \<and> l_t s' = 2"
  using life_run_returns [of blinker] by (simp add: blinker_def life_wf_def frame_def)

text \<open>A game of one turn writes after the end of its board: the current frame does not exist.\<close>

lemma one_turn_overflows:
  "update_cell [0, 0] \<lparr>l_width = 1, l_height = 1, l_turns = 1, l_board = \<lparr>Dim = 3, m_shape = [1, 1, 1], m_data = [1]\<rparr>, l_t = 0,
     l_previous = \<lparr>pr_offset = 0, pr_shape = [1, 1]\<rparr>, l_current = \<lparr>pr_offset = 1, pr_shape = [1, 1]\<rparr>\<rparr> = Inl Undefined"
  by code_simp

text \<open>The age of a cell wraps around, so that a cell of the greatest age dies of two or three neighbours.\<close>

lemma oldest_cell_dies: "new_cell 255 2 blank = 0" "new_cell 255 3 blank = 0"
  by (simp_all add: new_cell_def)

end
