(* ===== verification/Fits_LifeProgram.thy ===== *)
theory Fits_LifeProgram
  imports Fits_Life Fits_Mef
begin

text \<open>
  The program \<^verbatim>\<open>EleFitsGenerateLife\<close>: it generates lives, plays, and writes the board to a file of a single image.
\<close>

definition save_board :: "('w, 'f) storage \<Rightarrow> 'f cfitsio \<Rightarrow> ('f, cell) pixel_api \<Rightarrow> string \<Rightarrow> cell raster \<Rightarrow> 'w \<Rightarrow> 'w \<times> unit result" where
  "save_board fs api px output board w =
     (case sif_init fs api output Overwrite w of
        ((w1, f), Inl e) \<Rightarrow> (w1, Inl e)
      | ((w1, f), Inr _) \<Rightarrow>
          (case sif_write api px TUChar [] board f of (f1, r) \<Rightarrow>
           case close_impl fs api (w1, f1) of ((w2, f2), rc) \<Rightarrow> (w2, rbind r (\<lambda>_. rc))))"

definition life_main ::
  "('w, 'f) storage \<Rightarrow> 'f cfitsio \<Rightarrow> ('f, cell) pixel_api \<Rightarrow> uniform \<Rightarrow> (nat \<Rightarrow> nat \<Rightarrow> int) \<Rightarrow> string \<Rightarrow> int \<Rightarrow> int \<Rightarrow> int \<Rightarrow> int \<Rightarrow> 'w \<Rightarrow>
     ('w \<times> unit result) option" where
  "life_main fs api px uniform clock output width height turns count w =
     (case life_init width height turns of
        Inl e \<Rightarrow> Some (w, Inl e)
      | Inr s0 \<Rightarrow> Option.bind (life_generate uniform clock count s0) (\<lambda>r. case r of
          Inl e \<Rightarrow> Some (w, Inl e)
        | Inr s1 \<Rightarrow> Option.bind (life_run s1) (\<lambda>r. case r of
            Inl e \<Rightarrow> Some (w, Inl e)
          | Inr s2 \<Rightarrow> Some (save_board fs api px output (l_board s2) w))))"

lemma generate_playing:
  assumes "uniform_documented uniform" and "0 < w" "0 < h" "2 \<le> turns" "2 \<le> w * h" "w * h \<le> 2 ^ 63"
    and "\<And>i. 0 \<le> i \<Longrightarrow> i < w * h - 1 \<Longrightarrow> \<exists>k. drawn uniform clock (w * h) k = i" and "0 \<le> count" "count < w * h - 1"
    and "life_init w h turns = Inr s"
  shows "\<exists>s'. life_generate uniform clock count s = Some (Inr s') \<and> playing s' \<and> l_turns s' = turns"
proof -
  have gen: "generating s (w * h) 0" and "l_turns s = turns"
    using life_init_generating [of w h turns s] life_init_frames [of w h turns s] assms(2-4,10) by simp_all
  then obtain s' where "generate_lives uniform clock count 0 0 s = Some (Inr s')" "generating s' (w * h) (max 0 (count + 1))" "l_turns s' = turns"
    using generate_fair [OF assms(1,5,6,9) gen assms(7)] assms(8) by auto
  then show ?thesis
    using assms(4) by (auto simp: life_generate_def generating_def intro!: playing_at_first)
qed



end
