(* ===== verification/Fits_ZHeader.thy ===== *)
theory Fits_ZHeader
  imports Fits_Compression Fits_Hdu
begin

text \<open>
  Compression parameters read from the header of a compressed image (\<^verbatim>\<open>ImageCompression::read_parameters\<close> in
  \<^verbatim>\<open>CompressionWrapper.hpp\<close>).  The loop over the named parameters has no bound of its own: \<open>None\<close> is the value of a loop
  that does not end.
\<close>

section \<open>The model\<close>

definition record_real :: "payload fits_record result \<Rightarrow> real result" where
  "record_real r = rbind r (\<lambda>x. Inr (case rec_value x of RealVal v \<Rightarrow> v | IntVal i \<Rightarrow> of_int i | _ \<Rightarrow> 0))"

partial_function (option) parse_value_from :: "'f cfitsio \<Rightarrow> string \<Rightarrow> real \<Rightarrow> int \<Rightarrow> 'f \<Rightarrow> real result option" where
  "parse_value_from api key fallback i f =
     (case has_keyword api (''ZNAME'' @ to_string i) f of
        Inl e \<Rightarrow> Some (Inl e)
      | Inr found \<Rightarrow>
          if \<not> found then Some (Inr fallback)
          else (case record_string (parse_record_string api (''ZNAME'' @ to_string i) f) of
                  Inl e \<Rightarrow> Some (Inl e)
                | Inr value \<Rightarrow>
                    if value = key then Some (record_real (parse_record api TDouble (''ZVAL'' @ to_string i) f))
                    else parse_value_from api key fallback (i + 1) f))"

definition parse_value_or :: "'f cfitsio \<Rightarrow> string \<Rightarrow> real \<Rightarrow> 'f \<Rightarrow> real result option" where
  "parse_value_or api key fallback f = parse_value_from api key fallback 1 f"

text \<open>A missing tile length, or any other error of CFITSIO, counts for one.\<close>

definition read_tile_length :: "'f cfitsio \<Rightarrow> 'f \<Rightarrow> int \<Rightarrow> int result" where
  "read_tile_length api f i =
     (case record_int (parse_record api TLong (''ZTILE'' @ to_string (i + 1)) f) of
        Inl (CfitsioError st msg) \<Rightarrow> Inr 1
      | r \<Rightarrow> r)"

definition read_tiling :: "'f cfitsio \<Rightarrow> 'f \<Rightarrow> position result" where
  "read_tiling api f =
     rbind (record_int (parse_record api TLong ''ZNAXIS'' f)) (\<lambda>naxis.
     let dimension = min naxis MAX_COMPRESS_DIM in
     if dimension < 0 then Inl (StdException ''length_error'')
     else rmap (read_tile_length api f) [0..dimension - 1])"

definition read_quantized :: "'f cfitsio \<Rightarrow> 'f \<Rightarrow> bool result" where
  "read_quantized api f =
     rbind (record_int (parse_record api TLong ''TFIELDS'' f)) (\<lambda>column_count.
     rbind (rmap (\<lambda>i. record_string (parse_record_string api (''TTYPE'' @ to_string i) f)) [1..column_count]) (\<lambda>names.
     Inr (''ZSCALE'' \<in> set names)))"

text \<open>An unknown method leaves the quantization as it is: the exception meant for it is built but not thrown.\<close>

definition read_dithering :: "'f cfitsio \<Rightarrow> quantization \<Rightarrow> 'f \<Rightarrow> quantization result" where
  "read_dithering api q f =
     rbind (has_keyword api ''ZQUANTIZ'' f) (\<lambda>found.
     if found
     then rbind (record_string (parse_record_string api ''ZQUANTIZ'' f)) (\<lambda>method.
          if method = ''NONE'' then quantization_of \<lparr>sc_type = Absolute, sc_value = 0\<rparr>
          else if method = ''NO_DITHER'' then set_dithering NoDithering q
          else if method = ''SUBTRACTIVE_DITHER_1'' then set_dithering EveryPixel q
          else if method = ''SUBTRACTIVE_DITHER_2'' then set_dithering NonZeroPixel q
          else Inr q)
     else set_dithering NoDithering q)"

definition read_hcompress :: "'f cfitsio \<Rightarrow> position \<Rightarrow> quantization \<Rightarrow> 'f \<Rightarrow> compression result option" where
  "read_hcompress api shape q f =
     map_option (\<lambda>r. rbind r (\<lambda>scale.
       rbind (rd shape 0) (\<lambda>s0. rbind (rd shape 1) (\<lambda>s1.
       rbind (hcompress_init [s0, s1] q \<lparr>sc_type = Absolute, sc_value = 0\<rparr>) (\<lambda>out.
       rbind (scale_of_value scale) (\<lambda>sc. Inr (set_scaling sc out))))))) (parse_value_or api ''SCALE'' 0 f)"

definition read_algorithm :: "'f cfitsio \<Rightarrow> string \<Rightarrow> position \<Rightarrow> quantization \<Rightarrow> 'f \<Rightarrow> compression result option" where
  "read_algorithm api n shape q f =
     (if n = ''GZIP_1'' then Some (compression_init Gzip shape q)
      else if n = ''GZIP_2'' then Some (compression_init ShuffledGzip shape q)
      else if n = ''RICE_1'' then Some (compression_init Rice shape q)
      else if n = ''HCOMPRESS_1'' then read_hcompress api shape q f
      else if n = ''PLIO_1'' then Some (compression_init Plio shape q)
      else Some (Inl (FitsError ''Unknown compression type'')))"

definition read_parameters :: "'f cfitsio \<Rightarrow> 'f \<Rightarrow> compression result option" where
  "read_parameters api f =
     (case rbind (has_keyword api ''ZCMPTYPE'' f) (\<lambda>found.
           if found then record_string (parse_record_string api ''ZCMPTYPE'' f) else Inr ''NONE'') of
        Inl e \<Rightarrow> Some (Inl e)
      | Inr n \<Rightarrow>
          if n = ''NONE'' \<or> n = ''NOCOMPRESS'' then Some (Inr no_compression)
          else (case rbind (read_tiling api f) (\<lambda>shape. rbind (read_quantized api f) (\<lambda>quantized. Inr (shape, quantized))) of
                  Inl e \<Rightarrow> Some (Inl e)
                | Inr (shape, quantized) \<Rightarrow>
                    (case parse_value_or api ''NOISEBIT'' (if quantized then 4 else 0) f of
                       None \<Rightarrow> None
                     | Some r \<Rightarrow>
                         (case rbind r (\<lambda>level. rbind (level_of_value level) (\<lambda>s. rbind (quantization_of s) (\<lambda>q. read_dithering api q f))) of
                            Inl e \<Rightarrow> Some (Inl e)
                          | Inr q \<Rightarrow> read_algorithm api n shape q f))))"

section \<open>Named parameters\<close>

lemma named_parameter_found:
  assumes "1 \<le> n" and "\<And>i. 1 \<le> i \<Longrightarrow> i < n \<Longrightarrow> has_keyword api (''ZNAME'' @ to_string i) f = Inr True \<and>
       record_string (parse_record_string api (''ZNAME'' @ to_string i) f) = Inr (names i)"
    and "has_keyword api (''ZNAME'' @ to_string n) f = Inr False"
  shows "parse_value_or api key fallback f =
    Some (case find (\<lambda>i. names i = key) [1..n - 1] of
            None \<Rightarrow> Inr fallback
          | Some i \<Rightarrow> record_real (parse_record api TDouble (''ZVAL'' @ to_string i) f))"
proof -
  have "parse_value_from api key fallback k f =
    Some (case find (\<lambda>i. names i = key) [k..n - 1] of
            None \<Rightarrow> Inr fallback
          | Some i \<Rightarrow> record_real (parse_record api TDouble (''ZVAL'' @ to_string i) f))" if "1 \<le> k" "k \<le> n" for k
    using that
  proof (induction "nat (n - k)" arbitrary: k)
    case 0
    then have "k = n"
      by simp
    then show ?case
      using assms(3) by (subst parse_value_from.simps) simp
  next
    case (Suc d)
    then have k: "k < n" "[k..n - 1] = k # [k + 1..n - 1]"
      by (auto intro: upto_rec1)
    show ?case
      using k Suc.hyps(1) [of "k + 1"] Suc.hyps(2) Suc.prems assms(2) [of k]
      by (subst parse_value_from.simps) simp
  qed
  then show ?thesis
    using assms(1) by (simp add: parse_value_or_def)
qed

text \<open>
  C20: Reading the parameters of a compressed image ends if the names of parameters are not numbered without end.  The search of a
  named parameter then returns the value of the first parameter of that name before the first missing number, and the fallback
  if there is none.\<close>

theorem compression_parameters_read:
  assumes "1 \<le> n" and "\<forall>i. 1 \<le> i \<and> i < n \<longrightarrow> has_keyword api (''ZNAME'' @ to_string i) f = Inr True \<and>
       record_string (parse_record_string api (''ZNAME'' @ to_string i) f) = Inr (names i)"
    and "has_keyword api (''ZNAME'' @ to_string n) f = Inr False"
  shows "read_parameters api f \<noteq> None \<and>
    parse_value_or api key fallback f =
    Some (case find (\<lambda>i. names i = key) [1..n - 1] of
            None \<Rightarrow> Inr fallback
          | Some i \<Rightarrow> record_real (parse_record api TDouble (''ZVAL'' @ to_string i) f))"
proof -
  have found: "parse_value_or api k d f =
    Some (case find (\<lambda>i. names i = k) [1..n - 1] of
            None \<Rightarrow> Inr d
          | Some i \<Rightarrow> record_real (parse_record api TDouble (''ZVAL'' @ to_string i) f))" for k d
    using assms by (intro named_parameter_found) auto
  then show ?thesis
    by (auto simp: read_parameters_def read_algorithm_def read_hcompress_def split: sum.splits option.splits if_splits)
qed

theorem compression_parameters_read_witness:
  "parse_value_or mem_api ''SCALE'' 0 [(''ZNAME1'', StrVal ''SCALE'', []), (''ZVAL1'', RealVal 2, [])] = Some (Inr 2)"
proof -
  let ?f = "[(''ZNAME1'', StrVal ''SCALE'', []), (''ZVAL1'', RealVal 2, [])]"
  have s: "to_string 1 = ''1''" "to_string 2 = ''2''"
    by code_simp+
  have 1: "has_keyword mem_api (''ZNAME'' @ to_string 1) ?f = Inr True" "has_keyword mem_api (''ZNAME'' @ to_string 2) ?f = Inr False"
    by (simp_all add: mem_has_keyword s)
  have 2: "record_string (parse_record_string mem_api (''ZNAME'' @ to_string 1) ?f) = Inr ''SCALE''"
    unfolding s by code_simp
  have 3: "record_real (parse_record mem_api TDouble (''ZVAL'' @ to_string 1) ?f) = Inr 2"
    unfolding s by (simp add: parse_record_def mem_read_def unit_of_comment_def record_real_def separate_comment_def record_init_def)
  have "\<forall>i. 1 \<le> i \<and> i < 2 \<longrightarrow> has_keyword mem_api (''ZNAME'' @ to_string i) ?f = Inr True \<and>
       record_string (parse_record_string mem_api (''ZNAME'' @ to_string i) ?f) = Inr ''SCALE''"
  proof (intro allI impI)
    fix i :: int
    assume "1 \<le> i \<and> i < 2"
    then have "i = 1"
      by simp
    then show "has_keyword mem_api (''ZNAME'' @ to_string i) ?f = Inr True \<and>
       record_string (parse_record_string mem_api (''ZNAME'' @ to_string i) ?f) = Inr ''SCALE''"
      using 1 2 by simp
  qed
  from compression_parameters_read [OF _ this 1(2), of "''SCALE''" 0] show ?thesis
    using 3 by (simp add: upto_rec1)
qed

end
