(* ===== verification/Fits_Programs.thy ===== *)
theory Fits_Programs
  imports Fits_Place Fits_ZHeader
begin

text \<open>
  The programs of EleFits: \<^verbatim>\<open>EleFitsCompress\<close>, which copies the HDUs of a file into a compressed one, and the helpers of
  \<^verbatim>\<open>EleFitsReadStructure\<close>, which describes the HDUs of a file.  The command line is an argument and the log is left out,
  but the methods called to log something are not.
\<close>

section \<open>The compression program\<close>

text \<open>
  The program works on two files.  A method of the compressed one may take a handler of the raw one as its argument.
\<close>

type_synonym ('f, 'a) pio = "('f mef_file \<times> 'f mef_file, 'a) io"

definition on_raw :: "('f, 'a) mio \<Rightarrow> ('f, 'a) pio" where
  "on_raw m = (\<lambda>(raw, compressed). case m raw of (raw', r) \<Rightarrow> ((raw', compressed), r))"

definition on_compressed :: "('f, 'a) mio \<Rightarrow> ('f, 'a) pio" where
  "on_compressed m = (\<lambda>(raw, compressed). case m compressed of (compressed', r) \<Rightarrow> ((raw, compressed'), r))"

definition with_raw_hdu :: "nat \<Rightarrow> (('f \<times> hdu) \<times> 'f mef_file, 'a) io \<Rightarrow> ('f, 'a) pio" where
  "with_raw_hdu i m = (\<lambda>(raw, compressed).
     case (m_fptr raw, if i < length (m_hdus raw) then m_hdus raw ! i else None) of
       (Some f, Some h) \<Rightarrow> (case m ((f, h), compressed) of (((f', h'), compressed'), r) \<Rightarrow>
          ((raw\<lparr>m_fptr := Some f', m_hdus := (m_hdus raw)[i := Some h']\<rparr>, compressed'), r))
     | _ \<Rightarrow> ((raw, compressed), Inl Undefined))"

text \<open>\<^verbatim>\<open>ImageHdu::operator=\<close> where the operands are handlers of two files.\<close>

fun primary_copy_as ::
  "'f cfitsio \<Rightarrow> ('f, 'a) pixel_api \<Rightarrow> 'a \<Rightarrow> nat \<Rightarrow> value_type list \<Rightarrow> (('f \<times> hdu) \<times> 'f mef_file, unit) io" where
  "primary_copy_as api px zero lhs [] = io_return ()"
| "primary_copy_as api px zero lhs (t # ts) =
     io_bind (from_source (raster_read_typeid api)) (\<lambda>t'.
     if t' = t
     then io_bind (from_source (raster_read api px zero t)) (\<lambda>r.
          io_then (to_file (with_hdu lhs (raster_update_type_shape api px t (m_shape r))))
          (if m_data r \<noteq> [] then to_file (with_hdu lhs (raster_write api px t r)) else io_return ()))
     else primary_copy_as api px zero lhs ts)"

definition primary_assign ::
  "'f cfitsio \<Rightarrow> ('f, 'a) pixel_api \<Rightarrow> 'a \<Rightarrow> (string \<Rightarrow> real result) \<Rightarrow> nat \<Rightarrow> (('f \<times> hdu) \<times> 'f mef_file, unit) io" where
  "primary_assign api px zero stod lhs =
     io_bind (from_source (read_name api)) (\<lambda>n.
     io_then (to_file (with_hdu lhs (update_name api n)))
     (io_bind (from_source (parse_all api stod User)) (\<lambda>rs.
      io_then (to_file (with_hdu lhs (header_write_seq api CreateOrUpdate rs)))
      (primary_copy_as api px zero lhs raster_types))))"

definition losslessness :: "char \<Rightarrow> strategy_item result" where
  "losslessness lossless =
     (if lossless = CHR ''y'' then Inr (ItemCompression (CompressAuto Lossless))
      else if lossless = CHR ''i'' then Inr (ItemCompression (CompressAuto LosslessInts))
      else if lossless = CHR ''n'' then Inr (ItemCompression (CompressAuto Lossy))
      else Inl (FitsError ''Unknown compression type''))"

definition compress_hdu ::
  "'f cfitsio \<Rightarrow> ('f, payload) pixel_api \<Rightarrow> ('f \<Rightarrow> 'f \<Rightarrow> 'f \<times> int) \<Rightarrow> 'f compression_api \<Rightarrow> payload \<Rightarrow> (string \<Rightarrow> real result) \<Rightarrow> int \<Rightarrow> ('f, unit) pio" where
  "compress_hdu api px copy cp zero stod i =
     io_bind (on_raw (mef_subscript api i)) (\<lambda>j.
     io_then (on_raw (with_hdu j (read_name api)))
     (io_then (with_raw_hdu j (mef_append api px copy api px cp zero stod ClassHdu)) (io_return ())))"

text \<open>What the program does between opening the files and closing them.\<close>

definition compress_hdus ::
  "'f cfitsio \<Rightarrow> ('f, payload) pixel_api \<Rightarrow> ('f \<Rightarrow> 'f \<Rightarrow> 'f \<times> int) \<Rightarrow> 'f compression_api \<Rightarrow> payload \<Rightarrow> (string \<Rightarrow> real result) \<Rightarrow>
     char \<Rightarrow> bool \<Rightarrow> ('f, unit) pio" where
  "compress_hdus api px copy cp zero stod lossless primary = (\<lambda>(raw, compressed).
     io_then (if primary then io_return ()
              else io_bind (on_raw (mef_primary api)) (\<lambda>rhs.
                   io_bind (on_compressed (mef_primary api)) (\<lambda>lhs. with_raw_hdu rhs (primary_assign api px zero stod lhs))))
     (io_bind (io_lift (losslessness lossless)) (\<lambda>item.
      io_then (on_compressed (\<lambda>s. (strategy_append [item] s, Inr ())))
        (io_foreach (compress_hdu api px copy cp zero stod) [(if primary then 0 else 1)..mef_hdu_count raw - 1])))
     (raw, compressed))"

text \<open>
  The program, with the files as they are when it returns or throws; the destructors of the files come after.
\<close>

definition compress_main ::
  "('w, 'f) storage \<Rightarrow> 'f cfitsio \<Rightarrow> ('f, payload) pixel_api \<Rightarrow> ('f \<Rightarrow> 'f \<Rightarrow> 'f \<times> int) \<Rightarrow> 'f compression_api \<Rightarrow> payload \<Rightarrow>
     (string \<Rightarrow> real result) \<Rightarrow> string \<Rightarrow> string \<Rightarrow> string \<Rightarrow> char \<Rightarrow> bool \<Rightarrow> 'w \<Rightarrow> ('w \<times> 'f mef_file list) \<times> unit result" where
  "compress_main fs api px copy cp zero stod date input output lossless primary w =
     (case mef_init fs api date input Read [] w of
        ((w1, raw), Inl e) \<Rightarrow> ((w1, [raw]), Inl e)
      | ((w1, raw), Inr _) \<Rightarrow>
     (case mef_init fs api date output Create [] w1 of
        ((w2, compressed), Inl e) \<Rightarrow> ((w2, [raw, compressed]), Inl e)
      | ((w2, compressed), Inr _) \<Rightarrow>
     (case compress_hdus api px copy cp zero stod lossless primary (raw, compressed) of
        ((raw', compressed'), Inl e) \<Rightarrow> ((w2, [raw', compressed']), Inl e)
      | ((raw', compressed'), Inr _) \<Rightarrow>
     (case mef_close_impl fs api (w2, raw') of
        ((w3, raw''), Inl e) \<Rightarrow> ((w3, [raw'', compressed']), Inl e)
      | ((w3, raw''), Inr _) \<Rightarrow>
     (case mef_close_impl fs api (w3, compressed') of ((w4, compressed''), r) \<Rightarrow> ((w4, [raw'', compressed'']), r))))))"

section \<open>The description of a file\<close>

fun type_name :: "value_type \<Rightarrow> string" where
  "type_name TChar = ''char''"
| "type_name TShort = ''int16''"
| "type_name TInt = ''int32''"
| "type_name TLong = ''int64''"
| "type_name TFloat = ''float''"
| "type_name TDouble = ''double''"
| "type_name TUChar = ''uchar''"
| "type_name TUShort = ''uint16''"
| "type_name TUInt = ''uint32''"
| "type_name TULong = ''uint64''"
| "type_name t = ''UNKNOWN TYPE''"

definition read_type_name :: "'f cfitsio \<Rightarrow> ('f, string) hio" where
  "read_type_name api = io_bind (raster_read_typeid api) (\<lambda>t. io_return (type_name t))"

definition hdu_is_compressed :: "'f cfitsio \<Rightarrow> ('f, bool) hio" where
  "hdu_is_compressed api = io_then (touch api) (on_file (io_read (is_compressed api)))"

text \<open>\<open>None\<close>: the search of the compression parameters does not end.\<close>

definition read_compression :: "'f cfitsio \<Rightarrow> 'f \<times> hdu \<Rightarrow> (('f \<times> hdu) \<times> compression result) option" where
  "read_compression api s =
     (case touch api s of
        (s', Inl e) \<Rightarrow> Some (s', Inl e)
      | (s', Inr _) \<Rightarrow> map_option (Pair s') (read_parameters api (fst s')))"

definition compression_name :: "compression \<Rightarrow> string" where
  "compression_name algo =
     (let prefix = (if is_lossless algo then ''Lossless '' else ''Lossy '') in
      case c_algo algo of
        Gzip \<Rightarrow> prefix @ ''GZIP''
      | ShuffledGzip \<Rightarrow> prefix @ ''Shuffled GZIP''
      | Rice \<Rightarrow> prefix @ ''Rice''
      | HCompress \<Rightarrow> prefix @ ''H-compress''
      | Plio \<Rightarrow> prefix @ ''PLIO''
      | NoCompression \<Rightarrow> ''Unknown'')"

definition read_compression_name :: "'f cfitsio \<Rightarrow> 'f \<times> hdu \<Rightarrow> (('f \<times> hdu) \<times> string result) option" where
  "read_compression_name api s =
     (case hdu_is_compressed api s of
        (s', Inl e) \<Rightarrow> Some (s', Inl e)
      | (s', Inr False) \<Rightarrow> Some (s', Inr ''None'')
      | (s', Inr True) \<Rightarrow> map_option (\<lambda>(s2, r). (s2, rbind r (\<lambda>algo. Inr (compression_name algo)))) (read_compression api s'))"

text \<open>The letters of the filter on keywords; an unknown letter dereferences the end of the mapping.\<close>

definition category_letters :: "char \<rightharpoonup> keyword_category" where
  "category_letters = map_of [(CHR ''m'', Mandatory), (CHR ''r'', Reserved), (CHR ''c'', Comment), (CHR ''u'', User)]"

definition parse_keyword_categories :: "string \<Rightarrow> keyword_category result" where
  "parse_keyword_categories flt =
     rfold (\<lambda>f categories. case category_letters f of None \<Rightarrow> Inl Undefined | Some c \<Rightarrow> Inr (kc_or categories c)) flt NoCategory"

text \<open>The names of the columns that are listed, for a maximum that is negative for no limit.\<close>

definition listed_columns :: "int \<Rightarrow> int \<Rightarrow> string list \<Rightarrow> string list" where
  "listed_columns max_column_count column_count column_names =
     (if max_column_count = 0 then []
      else if max_column_count > 0 \<and> max_column_count < column_count
      then take (nat max_column_count) column_names @ replicate (nat max_column_count - length column_names) [] @ [''...'']
      else column_names)"

section \<open>Growth of the file\<close>

text \<open>A run that succeeds increases a measure of the state by a given number.\<close>

definition rises :: "('s \<Rightarrow> nat) \<Rightarrow> nat \<Rightarrow> ('s, 'a) io \<Rightarrow> bool" where
  "rises count n m \<longleftrightarrow> (\<forall>s s' x. m s = (s', Inr x) \<longrightarrow> count s' = count s + n)"

lemma risesD: "rises count n m \<Longrightarrow> m s = (s', Inr x) \<Longrightarrow> count s' = count s + n"
  unfolding rises_def by blast

lemma rises_return: "rises count 0 (io_return x)" "rises count 0 (io_lift r)"
  by (simp_all add: rises_def)

lemma rises_bind:
  assumes "rises count a m" and "\<And>x. rises count b (k x)"
  shows "rises count (a + b) (io_bind m k)"
  unfolding rises_def
proof (intro allI impI)
  fix s s' y
  assume run: "io_bind m k s = (s', Inr y)"
  obtain s1 r where 1: "m s = (s1, r)"
    by fastforce
  with run obtain x where x: "r = Inr x" "k x s1 = (s', Inr y)"
    by (cases r) (simp_all add: io_bind_apply)
  show "count s' = count s + (a + b)"
    using risesD [OF assms(1), of s s1 x] risesD [OF assms(2), of x s1 s' y] 1 x by simp
qed

lemma rises_then: "rises count a m \<Longrightarrow> rises count b k \<Longrightarrow> rises count (a + b) (io_then m k)"
  by (simp add: io_then_def rises_bind)

lemma rises_if: "rises count n m \<Longrightarrow> rises count n k \<Longrightarrow> rises count n (if b then m else k)"
  by simp

lemma rises_foreach: "(\<And>x. rises count n (g x)) \<Longrightarrow> rises count (length xs * n) (io_foreach g xs)"
  by (induction xs) (simp_all add: rises_return rises_then)

abbreviation grows :: "nat \<Rightarrow> ('f, 'a) mio \<Rightarrow> bool" where
  "grows \<equiv> rises (\<lambda>s. length (m_hdus s))"

lemma grows_keeps: "keeps_mef m \<Longrightarrow> grows 0 m"
  unfolding rises_def keeps_mef_iff by (metis add_0_right fst_conv)

lemma grows_with_hdu: "grows 0 (with_hdu i m)"
  by (auto simp: rises_def with_hdu_def split: option.splits prod.splits if_splits)

lemma with_hdu_loop_count: "with_hdu_loop k m g = Some (g', r) \<Longrightarrow> length (m_hdus g') = length (m_hdus g)"
  by (auto simp: with_hdu_loop_def split: option.splits prod.splits if_splits)

lemma grows_push: "grows 1 (push_hdu t)"
  by (simp add: rises_def push_hdu_def)

lemma keeps_notified [keeps_file]:
  "keeps_mef (\<lambda>s. with_hdu i (strategy_created (m_actions s)) s)"
  "keeps_mef (\<lambda>s. with_hdu i (strategy_accessed api (m_actions s)) s)"
  "keeps_mef (\<lambda>s. with_fptr (strategy_compress cp t init (m_compression s)) s)"
  unfolding keeps_mef_iff by (intro allI keeps_mefD keeps_file keeps)+

lemma grows_append_image: "grows 1 (append_image api px cp t n records ra)"
proof -
  have "grows (0 + (0 + (1 + (0 + (0 + (0 + 0)))))) (append_image api px cp t n records ra)"
    unfolding append_image_def
    by (intro rises_then rises_bind grows_push grows_keeps keeps_notified keeps_file keeps)
  then show ?thesis
    by simp
qed

section \<open>Copies\<close>

definition copy_grows :: "'f cfitsio \<Rightarrow> nat \<Rightarrow> (('f \<times> hdu) \<times> 'f mef_file, 'a) io \<Rightarrow> bool" where
  "copy_grows api n m \<longleftrightarrow> (\<forall>f h s f' h' s' x. in_place api (f, h) \<longrightarrow> m ((f, h), s) = (((f', h'), s'), Inr x) \<longrightarrow>
     f' = f \<and> in_place api (f', h') \<and> length (m_hdus s') = length (m_hdus s) + n)"

lemma copy_growsD:
  "copy_grows api n m \<Longrightarrow> in_place api (f, h) \<Longrightarrow> m ((f, h), s) = (((f', h'), s'), Inr x) \<Longrightarrow>
   f' = f \<and> in_place api (f', h') \<and> length (m_hdus s') = length (m_hdus s) + n"
  unfolding copy_grows_def by blast

lemma copy_grows_source: "only_reads api m \<Longrightarrow> copy_grows api 0 (from_source m)"
  by (auto simp: copy_grows_def from_source_def split: prod.splits dest: only_readsD)

lemma copy_grows_file: "grows n m \<Longrightarrow> copy_grows api n (to_file m)"
  by (auto simp: copy_grows_def to_file_def split: prod.splits dest: risesD)

lemma copy_grows_return: "copy_grows api 0 (io_return a)"
  by (simp add: copy_grows_def)

lemma copy_grows_bind:
  assumes "copy_grows api a m" and "\<And>x. copy_grows api b (k x)"
  shows "copy_grows api (a + b) (io_bind m k)"
  unfolding copy_grows_def
proof (intro allI impI)
  fix f h s f' h' s' y
  assume here: "in_place api (f, h)" and run: "io_bind m k ((f, h), s) = (((f', h'), s'), Inr y)"
  obtain f1 h1 s1 r where 1: "m ((f, h), s) = (((f1, h1), s1), r)"
    by (metis surj_pair)
  with run obtain x where x: "r = Inr x" "k x ((f1, h1), s1) = (((f', h'), s'), Inr y)"
    by (cases r) (simp_all add: io_bind_apply)
  have 2: "f1 = f" "in_place api (f1, h1)" "length (m_hdus s1) = length (m_hdus s) + a"
    using copy_growsD [OF assms(1) here] 1 x(1) by simp_all
  then show "f' = f \<and> in_place api (f', h') \<and> length (m_hdus s') = length (m_hdus s) + (a + b)"
    using copy_growsD [OF assms(2) 2(2) x(2)] by auto
qed

lemma copy_grows_then: "copy_grows api a m \<Longrightarrow> copy_grows api b k \<Longrightarrow> copy_grows api (a + b) (io_then m k)"
  by (simp add: io_then_def copy_grows_bind)

lemma copy_grows_verbatim: "copy_grows api 0 (copy_verbatim copy)"
proof -
  have "copy_grows api 0 (to_file (with_fptr (checked (copy g) ''Cannot copy HDU'')))" for g
    by (intro copy_grows_file grows_keeps keeps_file)
  then show ?thesis
    unfolding copy_grows_def copy_verbatim_def prod.case by blast
qed

text \<open>An image is appended once for each entry of the list of types that is its own type.\<close>

lemma append_copy_as_grows:
  assumes "in_place api (f, h)" and "append_copy_as api px api px cp zero stod ts ((f, h), s) = (((f', h'), s'), Inr x)"
  shows "f' = f \<and> in_place api (f', h') \<and> length (m_hdus s') = length (m_hdus s) + length (filter (\<lambda>t. read_typeid api f = Inr t) ts)"
  using assms
proof (induction ts arbitrary: h s)
  case Nil
  then show ?case
    by simp
next
  case (Cons t ts)
  let ?n = "length (filter (\<lambda>t. read_typeid api f = Inr t) ts)"
  let ?h = "h\<lparr>m_status := touch_status (m_status h)\<rparr>"
  have "raster_read_typeid api (f, h) = ((f, ?h), read_typeid api f)"
    using Cons.prems(1) by (simp add: raster_read_typeid_def io_then_def io_bind_apply touch_in_place on_file_def)
  then have src: "from_source (raster_read_typeid api) ((f, h), s) = (((f, ?h), s), read_typeid api f)"
    by (simp add: from_source_def)
  then obtain t' where t': "read_typeid api f = Inr t'"
    using Cons.prems(2) by (cases "read_typeid api f") (simp_all add: io_bind_apply)
  have here: "in_place api (f, ?h)"
    using Cons.prems(1) by (simp add: in_place_def)
  let ?m = "if t' = t
              then io_bind (from_source (read_name api)) (\<lambda>n.
                   io_bind (from_source (parse_all api stod User)) (\<lambda>rs.
                   io_bind (from_source (raster_read api px zero t)) (\<lambda>ra.
                   io_then (to_file (append_image api px cp t n rs ra)) (io_return ()))))
              else io_return ()"
  have "copy_grows api (0 + (0 + (0 + (1 + 0)))) ?m" if "t' = t"
    using that by (simp only: if_True refl) (intro copy_grows_bind copy_grows_then copy_grows_source copy_grows_file grows_append_image copy_grows_return reads)
  then have grow: "copy_grows api (if t' = t then 1 else 0) ?m"
    by (simp add: copy_grows_return)
  have run: "io_then ?m (append_copy_as api px api px cp zero stod ts) ((f, ?h), s) = (((f', h'), s'), Inr x)"
    using Cons.prems(2) src t' by (simp only: append_copy_as.simps io_bind_Inr)
  obtain f1 h1 s1 r where 1: "?m ((f, ?h), s) = (((f1, h1), s1), r)"
    by (metis surj_pair)
  with run obtain y where y: "r = Inr y" "append_copy_as api px api px cp zero stod ts ((f1, h1), s1) = (((f', h'), s'), Inr x)"
    by (cases r) (simp_all add: io_then_def io_bind_apply del: if_split)
  have 2: "f1 = f" "in_place api (f1, h1)" "length (m_hdus s1) = length (m_hdus s) + (if t' = t then 1 else 0)"
    using copy_growsD [OF grow here 1 [unfolded y(1)]] by blast+
  then show ?case
    using Cons.IH [of h1 s1] y(2) t' by auto
qed

lemma read_typeid_once: "read_typeid api f = Inr t \<Longrightarrow> length (filter (\<lambda>t. read_typeid api f = Inr t) raster_types) = 1"
proof -
  assume t: "read_typeid api f = Inr t"
  have "first_with_bitpix code ts = Inr t \<Longrightarrow> t \<in> set ts" for code ts
    by (induction code ts rule: first_with_bitpix.induct) (auto split: if_splits)
  then have "t \<in> set raster_types"
    using t by (auto simp: read_typeid_def rbind_eq_Inr split: prod.splits)
  then show ?thesis
    unfolding t by (auto simp: raster_types_def)
qed

text \<open>An image whose pixel type cannot be read is not appended, and the list of types has at least one entry.\<close>

lemma append_copy_grows: "copy_grows api 1 (append_copy_as api px api px cp zero stod raster_types)"
  unfolding copy_grows_def
proof (intro allI impI)
  fix f h s f' h' s' x
  assume here: "in_place api (f, h)" and run: "append_copy_as api px api px cp zero stod raster_types ((f, h), s) = (((f', h'), s'), Inr x)"
  obtain ts where ts: "raster_types = TChar # ts"
    by (simp add: raster_types_def)
  have "\<exists>t. read_typeid api f = Inr t"
    using run here unfolding ts
    by (cases "read_typeid api f")
      (simp_all add: raster_read_typeid_def io_then_def io_bind_apply touch_in_place on_file_def from_source_def)
  then obtain t where "read_typeid api f = Inr t" ..
  from append_copy_as_grows [OF here run] read_typeid_once [OF this]
  show "f' = f \<and> in_place api (f', h') \<and> length (m_hdus s') = length (m_hdus s) + 1"
    by auto
qed

lemma copy_grows_branches:
  "copy_grows api 1 (io_then (copy_verbatim copy) (io_then (to_file (push_hdu t)) (io_return ())))"
  "copy_grows api 1 (io_then (from_source (\<lambda>(f, h). ((f, h), cast_handler cls h))) (append_copy_as api px api px cp zero stod raster_types))"
proof -
  have "copy_grows api (0 + (1 + 0)) (io_then (copy_verbatim copy) (io_then (to_file (push_hdu t)) (io_return ())))"
    by (intro copy_grows_then copy_grows_verbatim copy_grows_file grows_push copy_grows_return)
  then show "copy_grows api 1 (io_then (copy_verbatim copy) (io_then (to_file (push_hdu t)) (io_return ())))"
    by simp
  have "only_reads api (\<lambda>(f, h). ((f, h), cast_handler cls h))"
    by (simp add: only_reads_iff split_beta)
  then have "copy_grows api (0 + 1)
      (io_then (from_source (\<lambda>(f, h). ((f, h), cast_handler cls h))) (append_copy_as api px api px cp zero stod raster_types))"
    by (intro copy_grows_then copy_grows_source append_copy_grows)
  then show "copy_grows api 1 (io_then (from_source (\<lambda>(f, h). ((f, h), cast_handler cls h))) (append_copy_as api px api px cp zero stod raster_types))"
    by simp
qed

lemma copy_grows_if: "copy_grows api n m \<Longrightarrow> copy_grows api n k \<Longrightarrow> copy_grows api n (if b then m else k)"
  by simp

lemma append_grows:
  assumes "moves_documented api" and run: "mef_append api px copy api px cp zero stod cls (src, s) = (((f', h'), s'), Inr x)"
  shows "length (m_hdus s') = length (m_hdus s) + 1"
proof -
  define rest where "rest table = io_then (if table then io_then (copy_verbatim copy) (io_then (to_file (push_hdu Bintable)) (io_return ()))
              else io_bind (from_source (hdu_matches api (filter_of RawImage))) (\<lambda>raw.
                   io_bind (if \<not> raw then io_return False
                            else if m_compression s = [] then io_return True
                            else from_source (hdu_matches api (filter_of Metadata))) (\<lambda>verbatim.
                   if verbatim then io_then (copy_verbatim copy) (io_then (to_file (push_hdu Image)) (io_return ()))
                   else io_then (from_source (\<lambda>(g, h). ((g, h), cast_handler ClassImageHdu h)))
                          (append_copy_as api px api px cp zero stod raster_types))))
     (io_bind (to_file (mef_access api cls (mef_hdu_count s))) (\<lambda>i.
      io_then (to_file (\<lambda>s. with_hdu i (strategy_accessed api (m_actions s)) s)) (io_return i)))" for table
  have last: "copy_grows api (0 + (0 + 0)) (io_bind (to_file (mef_access api cls (mef_hdu_count s))) (\<lambda>i.
      io_then (to_file (\<lambda>s. with_hdu i (strategy_accessed api (m_actions s)) s)) (io_return i)))"
    by (intro copy_grows_bind copy_grows_then copy_grows_file grows_keeps keeps_access keeps_notified copy_grows_return)
  have image: "copy_grows api (0 + (0 + 1)) (io_bind (from_source (hdu_matches api (filter_of RawImage))) (\<lambda>raw.
                   io_bind (if \<not> raw then io_return False
                            else if m_compression s = [] then io_return True
                            else from_source (hdu_matches api (filter_of Metadata))) (\<lambda>verbatim.
                   if verbatim then io_then (copy_verbatim copy) (io_then (to_file (push_hdu Image)) (io_return ()))
                   else io_then (from_source (\<lambda>(g, h). ((g, h), cast_handler ClassImageHdu h)))
                          (append_copy_as api px api px cp zero stod raster_types))))"
    by (intro copy_grows_bind copy_grows_if copy_grows_return copy_grows_source copy_grows_branches reads)
  have "copy_grows api (1 + 0) (rest table)" for table
    unfolding rest_def using last image by (intro copy_grows_then copy_grows_if copy_grows_branches) simp_all
  then have rest: "copy_grows api 1 (rest table)" for table
    by simp
  have run: "io_bind (from_source (hdu_matches api (filter_of Bintable))) rest (src, s) = (((f', h'), s'), Inr x)"
    using run unfolding mef_append_def rest_def prod.case .
  obtain f1 h1 r where 1: "hdu_matches api (filter_of Bintable) src = ((f1, h1), r)"
    by (metis surj_pair)
  with run obtain table where r: "r = Inr table" "rest table ((f1, h1), s) = (((f', h'), s'), Inr x)"
    by (cases r) (simp_all add: io_bind_apply from_source_def)
  have "in_place api (f1, h1)"
    using settles_matches [OF assms(1)] 1 r(1) unfolding settles_def by blast
  then show ?thesis
    using copy_growsD [OF rest _ r(2)] by blast
qed

section \<open>The compressed file\<close>

abbreviation raw_count :: "'f mef_file \<times> 'f mef_file \<Rightarrow> nat" where
  "raw_count \<equiv> \<lambda>(raw, compressed). length (m_hdus raw)"

abbreviation compressed_count :: "'f mef_file \<times> 'f mef_file \<Rightarrow> nat" where
  "compressed_count \<equiv> \<lambda>(raw, compressed). length (m_hdus compressed)"

lemma rises_sides:
  "grows n m \<Longrightarrow> rises raw_count n (on_raw m)" "grows n m \<Longrightarrow> rises compressed_count n (on_compressed m)"
  "rises raw_count 0 (on_compressed m)" "rises compressed_count 0 (on_raw m)" "rises raw_count 0 (with_raw_hdu j mc)"
  by (auto simp: rises_def on_raw_def on_compressed_def with_raw_hdu_def split: prod.splits option.splits if_splits)

lemma rises_with_raw_hdu: "rises (\<lambda>(src, s). length (m_hdus s)) n m \<Longrightarrow> rises compressed_count n (with_raw_hdu j m)"
  by (fastforce simp: rises_def with_raw_hdu_def split: prod.splits option.splits if_splits)

lemma rises_copying:
  "rises (\<lambda>(src, s). length (m_hdus s)) 0 (from_source m)" "grows n m' \<Longrightarrow> rises (\<lambda>(src, s). length (m_hdus s)) n (to_file m')"
  by (auto simp: rises_def from_source_def to_file_def split: prod.splits)

lemma rises_append: "moves_documented api \<Longrightarrow> rises (\<lambda>(src, s). length (m_hdus s)) 1 (mef_append api px copy api px cp zero stod cls)"
  unfolding rises_def using append_grows by fastforce

lemma rises_primary_copy: "rises (\<lambda>(src, s). length (m_hdus s)) 0 (primary_copy_as api px zero lhs ts)"
proof (induction ts)
  case (Cons t ts)
  have "rises (\<lambda>(src, s). length (m_hdus s)) (0 + (0 + (0 + 0))) (primary_copy_as api px zero lhs (t # ts))"
    unfolding primary_copy_as.simps
  proof (intro rises_bind rises_if rises_then rises_copying rises_return grows_keeps keeps_file keeps)
    show "rises (\<lambda>(src, s). length (m_hdus s)) (0 + (0 + 0)) (primary_copy_as api px zero lhs ts)"
      using Cons by simp
  qed
  then show ?case
    by simp
qed (simp only: primary_copy_as.simps rises_return)

lemma rises_primary: "rises (\<lambda>(src, s). length (m_hdus s)) 0 (primary_assign api px zero stod lhs)"
proof -
  have "rises (\<lambda>(src, s). length (m_hdus s)) (0 + (0 + (0 + (0 + 0)))) (primary_assign api px zero stod lhs)"
    unfolding primary_assign_def
    by (intro rises_bind rises_then rises_copying rises_primary_copy grows_keeps keeps_file keeps)
  then show ?thesis
    by simp
qed

lemma rises_compress_hdu:
  assumes "moves_documented api"
  shows "rises compressed_count 1 (compress_hdu api px copy cp zero stod i)" and "rises raw_count 0 (compress_hdu api px copy cp zero stod i)"
proof -
  have "rises compressed_count (0 + (0 + (1 + 0))) (compress_hdu api px copy cp zero stod i)"
    unfolding compress_hdu_def
    by (intro rises_bind rises_then rises_sides rises_with_raw_hdu rises_append assms rises_return)
  then show "rises compressed_count 1 (compress_hdu api px copy cp zero stod i)"
    by simp
  have "rises raw_count (0 + (0 + (0 + 0))) (compress_hdu api px copy cp zero stod i)"
    unfolding compress_hdu_def
    by (intro rises_bind rises_then rises_sides(1,5) rises_return grows_keeps keeps_file keeps)
  then show "rises raw_count 0 (compress_hdu api px copy cp zero stod i)"
    by simp
qed

lemma strategy_append_handlers: "m_hdus (strategy_append items s) = m_hdus s"
  unfolding strategy_append_def
proof (induction items arbitrary: s)
  case (Cons x xs)
  then show ?case
    by (cases x) simp_all
qed simp

lemma rises_compress_hdus:
  assumes "moves_documented api" and run: "compress_hdus api px copy cp zero stod lossless primary (raw, compressed) = ((raw', compressed'), Inr ())"
  shows "length (m_hdus compressed') = length (m_hdus compressed) + nat (mef_hdu_count raw - (if primary then 0 else 1))"
    and "length (m_hdus raw') = length (m_hdus raw)"
proof -
  let ?first = "if primary then io_return ()
              else io_bind (on_raw (mef_primary api)) (\<lambda>rhs.
                   io_bind (on_compressed (mef_primary api)) (\<lambda>lhs. with_raw_hdu rhs (primary_assign api px zero stod lhs)))"
  let ?ks = "[(if primary then 0 else 1)..mef_hdu_count raw - 1]"
  let ?loop = "io_foreach (compress_hdu api px copy cp zero stod) ?ks"
  have strategy: "rises count 0 (on_compressed (\<lambda>s. (strategy_append [item] s, Inr ())))" if "count \<in> {raw_count, compressed_count}" for count item
    using that by (auto simp: rises_def on_compressed_def strategy_append_handlers)
  have primary0: "rises compressed_count (0 + (0 + 0)) ?first" "rises raw_count (0 + (0 + 0)) ?first"
    by (intro rises_if rises_bind rises_sides rises_with_raw_hdu rises_primary grows_keeps keeps_file; simp add: rises_return(1))+
  have len: "length ?ks = nat (mef_hdu_count raw - (if primary then 0 else 1))"
    by simp
  have run: "io_then ?first (io_bind (io_lift (losslessness lossless)) (\<lambda>item.
      io_then (on_compressed (\<lambda>s. (strategy_append [item] s, Inr ()))) ?loop)) (raw, compressed) = ((raw', compressed'), Inr ())"
    using run unfolding compress_hdus_def prod.case .
  have total: "rises count ((0 + (0 + 0)) + (0 + (0 + length ?ks * n))) (io_then ?first (io_bind (io_lift (losslessness lossless)) (\<lambda>item.
      io_then (on_compressed (\<lambda>s. (strategy_append [item] s, Inr ()))) ?loop)))"
    if "count \<in> {raw_count, compressed_count}" "\<And>i. rises count n (compress_hdu api px copy cp zero stod i)" for count n
    using that primary0 by (intro rises_then rises_bind rises_return strategy rises_foreach) auto
  show "length (m_hdus compressed') = length (m_hdus compressed) + nat (mef_hdu_count raw - (if primary then 0 else 1))"
    using risesD [OF total [OF _ rises_compress_hdu(1) [OF assms(1)]] run] len by simp
  show "length (m_hdus raw') = length (m_hdus raw)"
    using risesD [OF total [OF _ rises_compress_hdu(2) [OF assms(1)]] run] by simp
qed

text \<open>
  C6: The compression program appends one HDU for each HDU it copies.  If nothing throws, the compressed file has the HDUs it was created with, and as many
  as the raw file, or one less when the primary HDU is assigned instead of being appended; the raw file has as many HDUs as before.\<close>

theorem compression_copies_every_hdu:
  assumes "moves_documented api" and "m_hdus raw \<noteq> []"
    and "compress_hdus api px copy cp zero stod lossless primary (raw, compressed) = ((raw', compressed'), Inr ())"
  shows "mef_hdu_count compressed' = mef_hdu_count compressed + mef_hdu_count raw - (if primary then 0 else 1) \<and>
    mef_hdu_count raw' = mef_hdu_count raw"
proof -
  have "1 \<le> mef_hdu_count raw"
    using assms(2) by (cases "m_hdus raw") (simp_all add: mef_hdu_count_def)
  then show ?thesis
    using rises_compress_hdus [OF assms(1,3)] by (simp add: mef_hdu_count_def nat_diff_distrib)
qed

text \<open>A file that is the number of its current HDU: an empty primary, then tables without columns.\<close>

definition tape_api :: "int cfitsio" where
  "tape_api =
     \<lparr>api_get_hdu_num = \<lambda>f. f, api_get_num_hdus = \<lambda>f. (2, 0), api_get_hdu_type = \<lambda>f. (if f = 1 then IMAGE_HDU else BINARY_TBL, 0),
      api_get_hduaddr = \<lambda>f. ((0, 2880), 0), api_movabs_hdu = \<lambda>i f. (i, 0), api_movrel_hdu = \<lambda>i f. (f + i, 0),
      api_movnam_hdu = \<lambda>t n v f. (f, 0), api_delete_hdu = \<lambda>f. (f, 0), api_create_img = \<lambda>t s f. (f, 0),
      api_verify_chksum = \<lambda>f. ((1, 1), 0), api_write_chksum = \<lambda>f. (f, 0), api_file_mode = \<lambda>f. (READWRITE, 0),
      api_hdr2str = \<lambda>b f. ([], 0), api_get_hdrspace = \<lambda>f. (0, 0), api_read_keyn = \<lambda>i f. (([], []), 0),
      api_get_key_strlen = \<lambda>k f. (0, KEY_NO_EXIST), api_read_key = \<lambda>t k f. ((IntVal 0, []), KEY_NO_EXIST),
      api_read_key_longstr = \<lambda>k f. (([], []), KEY_NO_EXIST), api_read_key_unit = \<lambda>k f. ([], KEY_NO_EXIST),
      api_read_keyword = \<lambda>k f. ([], KEY_NO_EXIST), api_get_keytype = \<lambda>v. (CHR ''I'', 0),
      api_write_key = \<lambda>t k v c f. (f, 0), api_update_key = \<lambda>t k v c f. (f, 0), api_write_key_longwarn = \<lambda>f. (f, 0),
      api_write_key_longstr = \<lambda>k s c f. (f, 0), api_delete_key = \<lambda>k f. (f, 0), api_write_comment = \<lambda>c f. (f, 0),
      api_write_history = \<lambda>h f. (f, 0), api_get_img_equivtype = \<lambda>f. (8, 0), api_get_img_size = \<lambda>f. ([0], 0),
      api_is_compressed_image = \<lambda>f. (False, 0), api_get_num_cols = \<lambda>f. (0, 0), api_get_num_rows = \<lambda>f. (0, 0)\<rparr>"

definition tape_file :: "hdu option list \<Rightarrow> int mef_file" where
  "tape_file hs = \<lparr>m_fptr = Some 1, m_filename = [], m_permission = Edit, m_hdus = hs, m_compression = [], m_actions = []\<rparr>"

theorem compression_copies_every_hdu_witness:
  "\<forall>px cp stod. mef_hdu_count (snd (fst (compress_hdus tape_api px (\<lambda>g f. (f, 0)) cp (IntVal 0) stod (CHR ''y'') True
     (tape_file [None, None], tape_file [None])))) = 3"
proof (intro allI)
  fix px cp stod
  let ?run = "compress_hdus tape_api px (\<lambda>g f. (f, 0)) cp (IntVal 0) stod (CHR ''y'') True (tape_file [None, None], tape_file [None])"
  have "snd ?run = Inr ()"
    by code_simp
  then have run: "?run = ((fst (fst ?run), snd (fst ?run)), Inr ())"
    by (simp only: prod_eq_iff fst_conv snd_conv)
  have "moves_documented tape_api" "m_hdus (tape_file [None, None]) \<noteq> []"
    by (simp_all add: moves_documented_def tape_api_def tape_file_def)
  from compression_copies_every_hdu [OF this run]
  have "mef_hdu_count (snd (fst ?run)) = mef_hdu_count (tape_file [None]) + mef_hdu_count (tape_file [None, None]) - 0"
    by (simp only: if_True)
  also have "\<dots> = 3"
    by (simp add: mef_hdu_count_def tape_file_def)
  finally show "mef_hdu_count (snd (fst ?run)) = 3" .
qed

section \<open>The filter on keywords\<close>

lemma category_letters_dom: "dom category_letters = set ''mrcu''"
  by (auto simp: category_letters_def split: if_splits)

text \<open>
  The filter of keywords is the union of the categories of its letters; a letter that is not one of \<^verbatim>\<open>mrcu\<close> is undefined behaviour.
\<close>

theorem keyword_letters:
  "parse_keyword_categories flt =
     (if set flt \<subseteq> set ''mrcu'' then Inr (fold (\<lambda>f c. kc_or c (the (category_letters f))) flt NoCategory) else Inl Undefined)"
proof -
  have "rfold (\<lambda>f c. case category_letters f of None \<Rightarrow> Inl Undefined | Some d \<Rightarrow> Inr (kc_or c d)) flt c0 =
     (if set flt \<subseteq> dom category_letters then Inr (fold (\<lambda>f c. kc_or c (the (category_letters f))) flt c0) else Inl Undefined)" for c0
    by (induction flt arbitrary: c0) (auto split: option.splits)
  then show ?thesis
    by (simp only: parse_keyword_categories_def category_letters_dom)
qed

end
