(* ===== verification/Fits_FixedRead.thy ===== *)
theory Fits_FixedRead
  imports Fits_SifLaws
begin

text \<open>
  Reading an image as a raster of a given dimension \<open>N\<close> (\<^verbatim>\<open>ImageWrapper.h\<close>, \<^verbatim>\<open>ImageRaster.h\<close> with a template parameter \<open>N\<close> other
  than \<open>-1\<close>): CFITSIO stores at most \<open>N\<close> lengths of axes, in a position whose coordinates are zero at first.
\<close>

section \<open>The model\<close>

definition read_shape_fixed :: "nat \<Rightarrow> 'f cfitsio \<Rightarrow> 'f \<Rightarrow> position result" where
  "read_shape_fixed N api f =
     (case api_get_img_size api f of (dims, st) \<Rightarrow>
        rbind (cfitsio_may_throw st ''Cannot read raster shape.'') (\<lambda>_. Inr (take N dims @ replicate (N - length dims) 0)))"

definition read_raster_fixed :: "nat \<Rightarrow> 'f cfitsio \<Rightarrow> ('f, 'a) pixel_api \<Rightarrow> 'a \<Rightarrow> value_type \<Rightarrow> 'f \<Rightarrow> 'a raster result" where
  "read_raster_fixed N api px zero t f =
     rbind (read_shape_fixed N api f) (\<lambda>shape.
     rbind (raster_zero zero (int N) shape) (\<lambda>ra. read_raster_to px t ra f))"

definition read_raster_to_subraster :: "nat \<Rightarrow> 'f cfitsio \<Rightarrow> ('f, 'a) pixel_api \<Rightarrow> value_type \<Rightarrow> 'a subraster \<Rightarrow> 'f \<Rightarrow> 'a raster result" where
  "read_raster_to_subraster N api px t destination f =
     rbind (read_shape_fixed N api f) (\<lambda>shape.
     read_region_to_subraster px t (rg_fromShape (pos_zero (int N)) shape) destination f)"

definition raster_read_shape_fixed :: "nat \<Rightarrow> 'f cfitsio \<Rightarrow> ('f, position) hio" where
  "raster_read_shape_fixed N api = io_then (edit api) (on_file (io_read (read_shape_fixed N api)))"

definition raster_read_fixed :: "nat \<Rightarrow> 'f cfitsio \<Rightarrow> ('f, 'a) pixel_api \<Rightarrow> 'a \<Rightarrow> value_type \<Rightarrow> ('f, 'a raster) hio" where
  "raster_read_fixed N api px zero t =
     io_bind (raster_read_shape_fixed N api) (\<lambda>shape.
     io_bind (io_lift (raster_zero zero (int N) shape)) (raster_read_to api px t))"

section \<open>What is read\<close>

text \<open>The pixels of an image, as CFITSIO reads them from the first one on.\<close>

definition pixels_documented :: "('f, 'a) pixel_api \<Rightarrow> value_type \<Rightarrow> 'a list \<Rightarrow> 'f \<Rightarrow> bool" where
  "pixels_documented px t pixels f \<longleftrightarrow> (\<forall>n \<le> length pixels. px_read_img px t 1 (int n) f = (take n pixels, 0))"

lemma prod_list_take_le: "\<forall>d \<in> set ds. 0 < (d :: int) \<Longrightarrow> prod_list (take n ds) \<le> prod_list ds"
proof -
  assume pos: "\<forall>d \<in> set ds. 0 < d"
  have "prod_list ds = prod_list (take n ds) * prod_list (drop n ds)"
    by (metis append_take_drop_id prod_list.append)
  moreover have "0 < prod_list (take n ds)" "0 < prod_list (drop n ds)"
    using pos by (auto intro!: prod_list_pos dest: in_set_takeD in_set_dropD)
  ultimately show ?thesis
    by (simp add: mult_le_cancel_left1)
qed

lemma read_fixed_data:
  assumes "api_get_img_size api f = (dims, 0)" and "\<forall>d \<in> set dims. 0 < d" and "int (length pixels) = prod_list dims"
    and "pixels_documented px t pixels f" and "0 < N"
  shows "read_raster_fixed N api px zero t f =
    Inr \<lparr>Dim = int N, m_shape = take N dims @ replicate (N - length dims) 0,
         m_data = (if N \<le> length dims then take (nat (prod_list (take N dims))) pixels else [])\<rparr>"
proof -
  let ?shape = "take N dims @ replicate (N - length dims) 0"
  define n where "n = nat (shapeSize ?shape)"
  have size: "shapeSize ?shape = (if N \<le> length dims then prod_list (take N dims) else 0)"
  proof (cases "N \<le> length dims")
    case False
    then obtain k where "N - length dims = Suc k"
      by (metis Suc_diff_Suc not_le)
    then show ?thesis
      using False by (simp add: shapeSize_prod)
  next
    case True
    then have "take N dims \<noteq> []"
      using assms(5) by auto
    then show ?thesis
      using True by (simp add: shapeSize_prod)
  qed
  have "0 \<le> prod_list (take N dims)"
    using assms(2) by (intro prod_list_nonneg) (auto dest: in_set_takeD intro: less_imp_le)
  then have nonneg: "0 \<le> shapeSize ?shape"
    using size by simp
  then have n: "n \<le> length pixels"
    using size prod_list_take_le [OF assms(2), of N] assms(3) by (auto simp: n_def split: if_splits)
  have "raster_zero zero (int N) ?shape = Inr \<lparr>Dim = int N, m_shape = ?shape, m_data = replicate n zero\<rparr>"
    using nonneg by (simp add: raster_zero_def holder_vector_def n_def)
  moreover have "px_read_img px t 1 (int n) f = (take n pixels, 0)"
    using assms(4) n by (simp add: pixels_documented_def)
  ultimately have "read_raster_fixed N api px zero t f = Inr \<lparr>Dim = int N, m_shape = ?shape, m_data = take n pixels\<rparr>"
    using assms(1) n by (simp add: read_raster_fixed_def read_shape_fixed_def read_raster_to_def write_block_def)
  moreover have "take n pixels = (if N \<le> length dims then take (nat (prod_list (take N dims))) pixels else [])"
    by (simp add: n_def size)
  ultimately show ?thesis
    by simp
qed



end
