(* ===== verification/Fits_Validation.thy ===== *)
theory Fits_Validation
  imports Fits_TestData "HOL-Library.Word"
begin

text \<open>
  The tools of the validation programs: the chronometer (\<^verbatim>\<open>Chronometer.h\<close>), the writer of tables in text (\<^verbatim>\<open>CsvAppender.h\<close>), the
  registry of benchmarks (\<^verbatim>\<open>BenchmarkFactory\<close> of \<^verbatim>\<open>Benchmark.h\<close>) and the comparison of ways to loop over rasters
  (\<^verbatim>\<open>LoopingBenchmark.h\<close>).
\<close>

section \<open>Chronometer\<close>

text \<open>Times are in nanoseconds, durations in units of \<open>u\<close> nanoseconds; readings of the clock are arguments.\<close>

record chrono =
  c_tic :: int
  c_toc :: int
  c_running :: bool
  c_incs :: "real list"
  c_elapsed :: int

definition chrono_reset :: "int \<Rightarrow> chrono \<Rightarrow> chrono" where
  "chrono_reset offset c = c\<lparr>c_toc := c_tic c, c_running := False, c_incs := [], c_elapsed := offset\<rparr>"

definition chrono_init :: "int \<Rightarrow> chrono" where
  "chrono_init offset = chrono_reset offset \<lparr>c_tic = 0, c_toc = 0, c_running = False, c_incs = [], c_elapsed = offset\<rparr>"

definition chrono_start :: "int \<Rightarrow> chrono \<Rightarrow> chrono" where
  "chrono_start now c = c\<lparr>c_tic := now, c_running := True\<rparr>"

definition chrono_stop :: "int \<Rightarrow> int \<Rightarrow> chrono \<Rightarrow> chrono \<times> int" where
  "chrono_stop u now c =
     (let inc = trunc_div (now - c_tic c) u in
      (c\<lparr>c_toc := now, c_running := False, c_elapsed := c_elapsed c + inc, c_incs := c_incs c @ [real_of_int inc]\<rparr>, inc))"

definition chrono_last :: "chrono \<Rightarrow> int result" where
  "chrono_last c = rbind (rd (c_incs c) (int (length (c_incs c)) - 1)) (\<lambda>x. Inr (trunc_real x))"

definition chrono_count :: "chrono \<Rightarrow> nat" where
  "chrono_count c = length (c_incs c)"

text \<open>Statistics; \<open>None\<close> is not a number: the quotient of zero by zero, or the square root of a negative number.\<close>

definition chrono_mean :: "chrono \<Rightarrow> real option" where
  "chrono_mean c = (if chrono_count c = 0 then None else Some (foldl (+) 0 (c_incs c) / real (chrono_count c)))"

definition chrono_stdev :: "chrono \<Rightarrow> real option" where
  "chrono_stdev c = Option.bind (chrono_mean c) (\<lambda>m.
     let s2 = foldl (+) 0 (map2 (*) (c_incs c) (c_incs c)); v = s2 / real (chrono_count c) - m * m in
     if v < 0 then None else Some (sqrt v))"

definition chrono_min :: "chrono \<Rightarrow> real result" where
  "chrono_min c = (case c_incs c of [] \<Rightarrow> Inl Undefined | x # xs \<Rightarrow> Inr (foldl min x xs))"

definition chrono_max :: "chrono \<Rightarrow> real result" where
  "chrono_max c = (case c_incs c of [] \<Rightarrow> Inl Undefined | x # xs \<Rightarrow> Inr (foldl max x xs))"

text \<open>The states of a chronometer whose clock never goes back, with the offset of its last reset and the last reading of the clock.\<close>

inductive chrono_reachable :: "int \<Rightarrow> int \<Rightarrow> int \<Rightarrow> chrono \<Rightarrow> bool" for u :: int where
  created: "0 \<le> t \<Longrightarrow> chrono_reachable u off t (chrono_init off)"
| reset: "chrono_reachable u off t c \<Longrightarrow> chrono_reachable u off' t (chrono_reset off' c)"
| started: "chrono_reachable u off t c \<Longrightarrow> t \<le> now \<Longrightarrow> chrono_reachable u off now (chrono_start now c)"
| stopped: "chrono_reachable u off t c \<Longrightarrow> t \<le> now \<Longrightarrow> chrono_reachable u off now (fst (chrono_stop u now c))"

lemma trunc_div_nonneg: "0 \<le> a \<Longrightarrow> 0 < b \<Longrightarrow> 0 \<le> trunc_div a b"
  by (cases "a = 0") (simp_all add: trunc_div_def pos_imp_zdiv_nonneg_iff)

text \<open>
  In any sequence of starts, stops and resets of a chronometer, the elapsed time is the offset of the last reset plus the sum of the increments since
  then, no increment is negative, and the last start is not after the last reading of the clock.\<close>

theorem chrono_elapsed_sum:
  assumes "chrono_reachable u off t c" and "0 < u"
  shows "real_of_int (c_elapsed c) = real_of_int off + sum_list (c_incs c) \<and> (\<forall>x \<in> set (c_incs c). 0 \<le> x) \<and> c_tic c \<le> t"
  using assms(1)
proof (induction rule: chrono_reachable.induct)
  case (stopped off t c now)
  then have "0 \<le> trunc_div (now - c_tic c) u"
    using assms(2) by (intro trunc_div_nonneg) auto
  then show ?case
    using stopped by (simp add: chrono_stop_def Let_def)
qed (auto simp: chrono_init_def chrono_reset_def chrono_start_def)

theorem chrono_elapsed_sum_witness:
  "real_of_int (c_elapsed (fst (chrono_stop 10 50 (chrono_start 20 (chrono_init 7))))) =
   real_of_int 7 + sum_list (c_incs (fst (chrono_stop 10 50 (chrono_start 20 (chrono_init 7)))))"
proof -
  have "chrono_reachable 10 7 50 (fst (chrono_stop 10 50 (chrono_start 20 (chrono_init 7))))"
    by (rule chrono_reachable.stopped [of _ _ 20], rule chrono_reachable.started [of _ _ 0], rule chrono_reachable.created) simp_all
  then show ?thesis
    using chrono_elapsed_sum [of 10 7 50] by simp
qed

lemma foldl_plus: "foldl (+) (a :: real) xs = a + sum_list xs"
  by (induction xs arbitrary: a) simp_all

lemma foldl_min: "foldl min (a :: real) xs = Min (insert a (set xs))"
proof (induction xs arbitrary: a)
  case (Cons x xs)
  then show ?case
    by (cases "xs = []") (simp_all add: min.assoc insert_commute Min_insert)
qed simp

lemma foldl_max: "foldl max (a :: real) xs = Max (insert a (set xs))"
proof (induction xs arbitrary: a)
  case (Cons x xs)
  then show ?case
    by (cases "xs = []") (simp_all add: max.assoc insert_commute Max_insert)
qed simp

lemma sum_list_between:
  "\<forall>x \<in> set xs. a \<le> x \<and> x \<le> (b :: real) \<Longrightarrow> real (length xs) * a \<le> sum_list xs \<and> sum_list xs \<le> real (length xs) * b"
  by (induction xs) (auto simp: algebra_simps)

lemma sum_of_deviations:
  "(\<Sum>x \<leftarrow> xs. (x - m)\<^sup>2) = (\<Sum>x \<leftarrow> xs. x * x) - 2 * m * sum_list xs + real (length xs) * (m * m)" for m :: real
  by (induction xs) (simp_all add: algebra_simps power2_eq_square)

text \<open>
  As soon as there is an increment, the mean lies between the minimum and the maximum, and the standard deviation, computed in one pass from the sum of
  squares, is defined and is the root of the mean square deviation.\<close>

theorem chrono_statistics:
  assumes "c_incs c \<noteq> []"
  shows "\<exists>m lo hi. chrono_mean c = Some m \<and> chrono_min c = Inr lo \<and> chrono_max c = Inr hi \<and> lo \<le> m \<and> m \<le> hi \<and>
           chrono_stdev c = Some (sqrt ((\<Sum>x \<leftarrow> c_incs c. (x - m)\<^sup>2) / real (length (c_incs c))))"
proof -
  let ?xs = "c_incs c"
  define n where "n = real (length ?xs)"
  define m where "m = sum_list ?xs / n"
  have n: "0 < n"
    using assms by (simp add: n_def)
  have lo: "chrono_min c = Inr (Min (set ?xs))" and hi: "chrono_max c = Inr (Max (set ?xs))"
    using assms by (cases "c_incs c"; simp add: chrono_min_def chrono_max_def foldl_min foldl_max)+
  have mean: "chrono_mean c = Some m"
    using assms by (simp add: chrono_mean_def chrono_count_def foldl_plus m_def n_def)
  have "n * Min (set ?xs) \<le> sum_list ?xs \<and> sum_list ?xs \<le> n * Max (set ?xs)"
    unfolding n_def by (rule sum_list_between) simp
  then have bounds: "Min (set ?xs) \<le> m" "m \<le> Max (set ?xs)"
    using n by (simp_all add: m_def pos_le_divide_eq pos_divide_le_eq mult.commute)
  have total: "sum_list ?xs = n * m"
    using n by (simp add: m_def)
  have "(\<Sum>x \<leftarrow> ?xs. (x - m)\<^sup>2) = (\<Sum>x \<leftarrow> ?xs. x * x) - n * (m * m)"
    unfolding sum_of_deviations total n_def [symmetric] by (simp add: algebra_simps)
  then have var: "(\<Sum>x \<leftarrow> ?xs. x * x) / n - m * m = (\<Sum>x \<leftarrow> ?xs. (x - m)\<^sup>2) / n"
    using n by (simp add: field_simps)
  have "0 \<le> (\<Sum>x \<leftarrow> ?xs. (x - m)\<^sup>2) / n"
    using n by (intro divide_nonneg_pos sum_list_nonneg) auto
  moreover have "map2 (*) ?xs ?xs = map (\<lambda>x. x * x) ?xs"
    by (rule nth_equalityI) simp_all
  ultimately have "chrono_stdev c = Some (sqrt ((\<Sum>x \<leftarrow> ?xs. (x - m)\<^sup>2) / n))"
    using var mean by (simp add: chrono_stdev_def chrono_count_def foldl_plus Let_def n_def)
  then show ?thesis
    using mean lo hi bounds by (auto simp: n_def)
qed

theorem chrono_statistics_witness:
  "\<exists>m. chrono_mean \<lparr>c_tic = 0, c_toc = 0, c_running = False, c_incs = [1, 3], c_elapsed = 4\<rparr> = Some m \<and> 1 \<le> m \<and> m \<le> 3"
  using chrono_statistics [of "\<lparr>c_tic = 0, c_toc = 0, c_running = False, c_incs = [1, 3], c_elapsed = 4\<rparr>"]
  by (auto simp: chrono_min_def chrono_max_def)

section \<open>Tables in text\<close>

record csv =
  csv_text :: string
  csv_sep :: string

definition csv_put :: "string \<Rightarrow> csv \<Rightarrow> csv" where
  "csv_put v c = c\<lparr>csv_text := csv_text c @ v @ csv_sep c\<rparr>"

definition csv_endl :: "csv \<Rightarrow> csv" where
  "csv_endl c = c\<lparr>csv_text := csv_text c @ [newline]\<rparr>"

text \<open>The constructor, on the text of the file, which is empty when the file has just been created.\<close>

definition csv_init :: "string \<Rightarrow> string list \<Rightarrow> string \<Rightarrow> csv" where
  "csv_init txt header sep =
     (let c = \<lparr>csv_text = txt, csv_sep = sep\<rparr> in
      if header = [] then c
      else let append = txt \<noteq> [] in if append then c else csv_endl (fold csv_put header c))"

definition csv_write_row :: "string list \<Rightarrow> csv \<Rightarrow> csv" where
  "csv_write_row vs c = csv_endl (fold csv_put vs c)"

text \<open>Reading back: the pieces of a text between separators.\<close>

fun split_on :: "char \<Rightarrow> string \<Rightarrow> string list" where
  "split_on d [] = [[]]"
| "split_on d (c # cs) = (if c = d then [] # split_on d cs else (c # hd (split_on d cs)) # tl (split_on d cs))"

lemma split_on_nonempty [simp]: "split_on d s \<noteq> []"
  by (cases s) simp_all

lemma split_on_piece: "d \<notin> set v \<Longrightarrow> split_on d (v @ d # rest) = v # split_on d rest"
  by (induction v) auto

lemma split_on_pieces: "\<forall>v \<in> set vs. d \<notin> set v \<Longrightarrow> split_on d (concat (map (\<lambda>v. v @ [d]) vs)) = vs @ [[]]"
  by (induction vs) (simp_all add: split_on_piece)

lemma csv_puts: "csv_text (fold csv_put vs c) = csv_text c @ concat (map (\<lambda>v. v @ csv_sep c) vs) \<and> csv_sep (fold csv_put vs c) = csv_sep c"
  by (induction vs arbitrary: c) (simp_all add: csv_put_def)

lemma csv_rows:
  "csv_text (fold csv_write_row rows c) = csv_text c @ concat (map (\<lambda>r. concat (map (\<lambda>v. v @ csv_sep c) r) @ [newline]) rows)"
  by (induction rows arbitrary: c) (simp_all add: csv_write_row_def csv_endl_def csv_puts)

text \<open>
  The rows written to a new file, cut at line ends and separators, are the header and the rows, each with an empty field at its end, provided that no
  value holds a separator or a line end; a file that already has text keeps it and gets no second header.\<close>

theorem csv_roundtrip:
  assumes "header \<noteq> []" and "d \<noteq> newline" and "\<forall>r \<in> set (header # rows). \<forall>v \<in> set r. d \<notin> set v \<and> newline \<notin> set v"
  shows "map (split_on d) (butlast (split_on newline (csv_text (fold csv_write_row rows (csv_init [] header [d]))))) = map (\<lambda>r. r @ [[]]) (header # rows) \<and>
         (txt \<noteq> [] \<longrightarrow> csv_init txt header [d] = \<lparr>csv_text = txt, csv_sep = [d]\<rparr>)"
proof -
  let ?line = "\<lambda>r. concat (map (\<lambda>v. v @ [d]) r)"
  have "csv_init [] header [d] = csv_write_row header \<lparr>csv_text = [], csv_sep = [d]\<rparr>"
    using assms(1) by (simp add: csv_init_def csv_write_row_def Let_def)
  then have "fold csv_write_row rows (csv_init [] header [d]) = fold csv_write_row (header # rows) \<lparr>csv_text = [], csv_sep = [d]\<rparr>"
    by simp
  then have "csv_text (fold csv_write_row rows (csv_init [] header [d])) = concat (map (\<lambda>l. l @ [newline]) (map ?line (header # rows)))"
    using csv_rows [of "header # rows" "\<lparr>csv_text = [], csv_sep = [d]\<rparr>"] by (simp add: comp_def)
  moreover have "\<forall>l \<in> set (map ?line (header # rows)). newline \<notin> set l"
    using assms(2,3) by auto
  ultimately have "butlast (split_on newline (csv_text (fold csv_write_row rows (csv_init [] header [d])))) = map ?line (header # rows)"
    by (simp only: split_on_pieces butlast_snoc)
  moreover have "split_on d (?line r) = r @ [[]]" if "r \<in> set (header # rows)" for r
    using assms(3) that by (intro split_on_pieces) blast
  ultimately show ?thesis
    using assms(1) by (simp add: csv_init_def Let_def)
qed

theorem csv_roundtrip_witness:
  "map (split_on (CHR '','')) (butlast (split_on newline (csv_text (fold csv_write_row [[''1'', ''2'']] (csv_init [] [''a'', ''b''] '','')))))
   = [[''a'', ''b'', []], [''1'', ''2'', []]]"
proof -
  have "newline \<noteq> CHR '',''" "newline \<notin> {CHR ''a'', CHR ''b'', CHR ''1'', CHR ''2''}"
    by code_simp+
  then show ?thesis
    using csv_roundtrip [of "[''a'', ''b'']" "CHR '',''" "[[''1'', ''2'']]" "''x''"] by simp
qed

section \<open>Registry\<close>

text \<open>The makers of benchmarks by key; the order of the keys of an unordered map is that of registration here.\<close>

definition register_benchmark_maker :: "string \<times> 'm \<Rightarrow> (string \<times> 'm) list \<Rightarrow> (string \<times> 'm) list result" where
  "register_benchmark_maker = (\<lambda>(key, maker) reg.
     if map_of reg key \<noteq> None then Inl (StdException (''Benchmark already registered: '' @ key)) else Inr (reg @ [(key, maker)]))"

definition create_benchmark :: "(string \<times> (string \<Rightarrow> 'b)) list \<Rightarrow> string \<Rightarrow> string \<Rightarrow> 'b result" where
  "create_benchmark reg key filename =
     (case map_of reg key of None \<Rightarrow> Inl (StdException (''Test case not implemented: '' @ key)) | Some maker \<Rightarrow> Inr (maker filename))"

definition benchmark_keys :: "(string \<times> 'm) list \<Rightarrow> string list" where
  "benchmark_keys reg = map fst reg"

datatype bench_setup = CfitsioSetup int | EleFitsColwiseSetup | EleFitsSetup

definition init_factory :: "(string \<times> (string \<Rightarrow> bench_setup \<times> string)) list result" where
  "init_factory = rfold register_benchmark_maker
     [(''CFITSIO row-wise'', Pair (CfitsioSetup 1)), (''CFITSIO column-wise'', Pair (CfitsioSetup (- 1))), (''CFITSIO optimal'', Pair (CfitsioSetup 0)),
      (''EleFits column-wise'', Pair EleFitsColwiseSetup), (''EleFits optimal'', Pair EleFitsSetup)] []"

lemma register_pair:
  "register_benchmark_maker m reg =
     (if map_of reg (fst m) \<noteq> None then Inl (StdException (''Benchmark already registered: '' @ fst m)) else Inr (reg @ [m]))"
  by (cases m) (simp add: register_benchmark_maker_def)

lemma registered_once:
  assumes "rfold register_benchmark_maker ms reg = Inr reg'" and "distinct (map fst reg)"
  shows "reg' = reg @ ms \<and> distinct (map fst reg')"
  using assms
proof (induction ms arbitrary: reg)
  case (Cons m ms)
  have "map_of reg (fst m) = None" "rfold register_benchmark_maker ms (reg @ [m]) = Inr reg'"
    using Cons.prems(1) register_pair [of m reg] by (auto split: if_splits)
  moreover have "distinct (map fst (reg @ [m]))"
    using Cons.prems(2) \<open>map_of reg (fst m) = None\<close> by (simp add: map_of_eq_None_iff)
  ultimately have "reg' = (reg @ [m]) @ ms \<and> distinct (map fst reg')"
    by (intro Cons.IH)
  then show ?case
    by (metis append.assoc append_Cons append_Nil)
qed simp

lemma created_as_registered:
  assumes "rfold register_benchmark_maker ms [] = Inr reg" and "(key, maker) \<in> set ms"
  shows "create_benchmark reg key filename = Inr (maker filename)"
proof -
  have "map_of ms key = Some maker" "reg = ms"
    using registered_once [OF assms(1)] assms(2) by (auto intro: map_of_is_SomeI)
  then show ?thesis
    by (simp add: create_benchmark_def)
qed

lemma init_factory_keys:
  "rbind init_factory (\<lambda>reg. Inr (benchmark_keys reg)) =
   Inr [''CFITSIO row-wise'', ''CFITSIO column-wise'', ''CFITSIO optimal'', ''EleFits column-wise'', ''EleFits optimal'']"
  by code_simp

section \<open>Loops over rasters\<close>

text \<open>Values are of type \<^verbatim>\<open>char\<close>, whose sums wrap around.\<close>

record looping =
  lb_width :: int
  lb_height :: int
  lb_depth :: int
  lb_a :: "8 word raster"
  lb_b :: "8 word raster"
  lb_c :: "8 word raster"

definition sum_at :: "position \<Rightarrow> looping \<Rightarrow> looping result" where
  "sum_at p s =
     rbind (raster_subscript (lb_a s) p) (\<lambda>a. rbind (raster_subscript (lb_b s) p) (\<lambda>b.
     rbind (raster_assign (lb_c s) p (a + b)) (\<lambda>c. Inr (s\<lparr>lb_c := c\<rparr>))))"

definition xyz_order :: "position \<Rightarrow> position list" where
  "xyz_order shape = concat (map (\<lambda>x. concat (map (\<lambda>y. map (\<lambda>z. [x, y, z]) [0..shape ! 2 - 1]) [0..shape ! 1 - 1])) [0..shape ! 0 - 1])"

definition zyx_order :: "position \<Rightarrow> position list" where
  "zyx_order shape = concat (map (\<lambda>z. concat (map (\<lambda>y. map (\<lambda>x. [x, y, z]) [0..shape ! 0 - 1]) [0..shape ! 1 - 1])) [0..shape ! 2 - 1])"

definition loop_over_xyz :: "looping \<Rightarrow> looping result" where
  "loop_over_xyz s = rfold sum_at (xyz_order [lb_width s, lb_height s, lb_depth s]) s"

definition loop_over_zyx :: "looping \<Rightarrow> looping result" where
  "loop_over_zyx s = rfold sum_at (zyx_order [lb_width s, lb_height s, lb_depth s]) s"

definition loop_over_positions :: "looping \<Rightarrow> looping result option" where
  "loop_over_positions s =
     (let dom = raster_domain (lb_c s) in
      map_option (\<lambda>r. rbind r (\<lambda>ps. rfold sum_at ps s)) (screen_region (Suc (nat (rg_size dom))) dom))"

definition sum_index :: "nat \<Rightarrow> looping \<Rightarrow> looping result" where
  "sum_index i s =
     rbind (rd (m_data (lb_a s)) (int i)) (\<lambda>a. rbind (rd (m_data (lb_b s)) (int i)) (\<lambda>b.
     rbind (wr (m_data (lb_c s)) (int i) (a + b)) (\<lambda>d. Inr (s\<lparr>lb_c := (lb_c s)\<lparr>m_data := d\<rparr>\<rparr>))))"

definition loop_over_indices :: "looping \<Rightarrow> looping result" where
  "loop_over_indices s = rfold sum_index [0..<length (m_data (lb_c s))] s"

text \<open>The loop on iterators: the elements from those of the iterators on.\<close>

fun sum_values :: "8 word list \<Rightarrow> 8 word list \<Rightarrow> 8 word list \<Rightarrow> 8 word list result" where
  "sum_values [] as bs = Inr []"
| "sum_values (c # cs) (a # as) (b # bs) = rbind (sum_values cs as bs) (\<lambda>ds. Inr ((a + b) # ds))"
| "sum_values (c # cs) _ _ = Inl Undefined"

definition loop_over_values :: "looping \<Rightarrow> looping result" where
  "loop_over_values s =
     rbind (sum_values (m_data (lb_c s)) (m_data (lb_a s)) (m_data (lb_b s))) (\<lambda>d. Inr (s\<lparr>lb_c := (lb_c s)\<lparr>m_data := d\<rparr>\<rparr>))"

text \<open>The switch of the program; the loop on positions is the only one that may not end.\<close>

definition run_loop :: "char \<Rightarrow> looping \<Rightarrow> looping result option" where
  "run_loop option_value s =
     (if option_value = CHR ''x'' then Some (loop_over_xyz s)
      else if option_value = CHR ''z'' then Some (loop_over_zyx s)
      else if option_value = CHR ''p'' then loop_over_positions s
      else if option_value = CHR ''i'' then Some (loop_over_indices s)
      else if option_value = CHR ''v'' then Some (loop_over_values s)
      else Some (Inl (StdException ''Invalid setup'')))"

definition looping_init :: "uniform \<Rightarrow> (nat \<Rightarrow> nat \<Rightarrow> int) \<Rightarrow> int \<Rightarrow> looping result" where
  "looping_init uniform clock side =
     (let word = (\<lambda>v. case v of IntVal i \<Rightarrow> word_of_int i | _ \<Rightarrow> 0);
          random = (\<lambda>k. rbind (random_raster (\<lambda>_ x. x) uniform (clock k) TChar 3 [side, side, side] (IntVal (- (2 ^ 7))) (IntVal (2 ^ 7 - 1)))
            (\<lambda>ra. Inr \<lparr>Dim = 3, m_shape = m_shape ra, m_data = map word (m_data ra)\<rparr>))
      in rbind (random 0) (\<lambda>a. rbind (random 1) (\<lambda>b. rbind (raster_zero 0 3 [side, side, side]) (\<lambda>c.
         Inr \<lparr>lb_width = side, lb_height = side, lb_depth = side, lb_a = a, lb_b = b, lb_c = c\<rparr>))))"

text \<open>Benchmarks as they are built: three rasters of the same shape.\<close>

definition looping_wf :: "looping \<Rightarrow> bool" where
  "looping_wf s \<longleftrightarrow> (\<forall>ra \<in> {lb_a s, lb_b s, lb_c s}. raster_wf ra \<and> Dim ra = 3 \<and> m_shape ra = [lb_width s, lb_height s, lb_depth s])"

definition summed :: "looping \<Rightarrow> looping" where
  "summed s = s\<lparr>lb_c := (lb_c s)\<lparr>m_data := map2 (+) (m_data (lb_a s)) (m_data (lb_b s))\<rparr>\<rparr>"

lemma looping_wf_length:
  assumes "looping_wf s"
  shows "length (m_data (lb_a s)) = length (m_data (lb_c s))" "length (m_data (lb_b s)) = length (m_data (lb_c s))"
  using assms raster_wf_size [of "lb_a s"] raster_wf_size [of "lb_b s"] raster_wf_size [of "lb_c s"] by (auto simp: looping_wf_def)

definition with_data :: "looping \<Rightarrow> 8 word list \<Rightarrow> looping" where
  "with_data s d = s\<lparr>lb_c := (lb_c s)\<lparr>m_data := d\<rparr>\<rparr>"

lemma with_data_wf:
  "looping_wf s \<Longrightarrow> length d = length (m_data (lb_c s)) \<Longrightarrow> looping_wf (with_data s d)"
  by (auto simp: looping_wf_def with_data_def raster_wf_def)

text \<open>What is known of the data after some elements have been summed: the others are those before.\<close>

definition partial_sum :: "looping \<Rightarrow> nat set \<Rightarrow> 8 word list" where
  "partial_sum s K = map (\<lambda>k. if k \<in> K then m_data (lb_a s) ! k + m_data (lb_b s) ! k else m_data (lb_c s) ! k) [0..<length (m_data (lb_c s))]"

lemma partial_sum_all: "looping_wf s \<Longrightarrow> {0..<length (m_data (lb_c s))} \<subseteq> K \<Longrightarrow> with_data s (partial_sum s K) = summed s"
proof -
  assume "looping_wf s" "{0..<length (m_data (lb_c s))} \<subseteq> K"
  then have "partial_sum s K = map2 (+) (m_data (lb_a s)) (m_data (lb_b s))"
    using looping_wf_length [of s] by (intro nth_equalityI) (auto simp: partial_sum_def)
  then show ?thesis
    by (simp add: with_data_def summed_def)
qed

lemma partial_sum_empty: "with_data s (partial_sum s {}) = s"
  by (simp add: with_data_def partial_sum_def map_nth)

lemma partial_sum_insert:
  "k < length (m_data (lb_c s)) \<Longrightarrow> (partial_sum s K)[k := m_data (lb_a s) ! k + m_data (lb_b s) ! k] = partial_sum s (insert k K)"
  by (rule nth_equalityI) (auto simp: partial_sum_def nth_list_update)

text \<open>The contract of an order in which the positions of a raster of three axes are visited, and what a loop in such an order does.\<close>

locale visiting_order =
  fixes order :: "position \<Rightarrow> position list"
  assumes visits: "length shape = 3 \<Longrightarrow> \<forall>n \<in> set shape. 0 < n \<Longrightarrow> set (order shape) = set (shape_positions shape)"
begin

lemma sum_partial:
  assumes "looping_wf s" and "\<forall>p \<in> set ps. p \<in> set (shape_positions (m_shape (lb_c s)))"
  shows "rfold sum_at ps (with_data s (partial_sum s K)) =
    Inr (with_data s (partial_sum s (K \<union> (\<lambda>p. nat (lin_index (m_shape (lb_c s)) p)) ` set ps)))"
  using assms(2)
proof (induction ps arbitrary: K)
  case (Cons p ps)
  let ?shape = "m_shape (lb_c s)" and ?s = "with_data s (partial_sum s K)"
  let ?k = "nat (lin_index ?shape p)"
  have wf: "raster_wf (lb_a s)" "raster_wf (lb_b s)" "raster_wf (lb_c s)" "m_shape (lb_a s) = ?shape" "m_shape (lb_b s) = ?shape"
    using assms(1) by (simp_all add: looping_wf_def)
  have box: "in_box (zeros (length ?shape)) (op_minus_scalar ?shape 1) p"
    using Cons.prems by (simp add: set_positions)
  have "\<forall>n \<in> set ?shape. 0 < n"
    using wf(3) by (simp add: raster_wf_def)
  from lin_index_bounds [OF this box] have k: "?k < length (m_data (lb_c s))" "0 \<le> lin_index ?shape p"
    using raster_wf_size [OF wf(3)] by auto
  have wfc: "raster_wf (lb_c ?s)" "m_shape (lb_c ?s) = ?shape"
    using wf(3) by (auto simp: with_data_def raster_wf_def partial_sum_def)
  have len: "length p = length ?shape"
    using in_box_length [OF box] by simp
  have "raster_assign (lb_c ?s) p v = Inr ((lb_c ?s)\<lparr>m_data := (partial_sum s K)[?k := v]\<rparr>)" for v
    using raster_index_lin [OF wfc(1), of p] len wfc(2) k by (simp add: raster_assign_def with_data_def wr_def partial_sum_def)
  moreover have "raster_subscript (lb_a ?s) p = Inr (m_data (lb_a s) ! ?k)" "raster_subscript (lb_b ?s) p = Inr (m_data (lb_b s) ! ?k)"
    using raster_subscript_in [of "lb_a s" p] raster_subscript_in [of "lb_b s" p] wf box by (simp_all add: with_data_def)
  ultimately have "sum_at p ?s = Inr (with_data s (partial_sum s (insert ?k K)))"
    using partial_sum_insert [OF k(1)] by (simp add: sum_at_def with_data_def)
  then show ?case
    using Cons by simp
qed simp

lemma sum_complete:
  assumes "looping_wf s"
  shows "rfold sum_at (order [lb_width s, lb_height s, lb_depth s]) s = Inr (summed s)"
proof -
  let ?shape = "[lb_width s, lb_height s, lb_depth s]"
  have c: "m_shape (lb_c s) = ?shape" "raster_wf (lb_c s)" "\<forall>n \<in> set ?shape. 0 < n"
    using assms by (auto simp: looping_wf_def raster_wf_def)
  then have ps: "set (order ?shape) = set (shape_positions ?shape)"
    by (intro visits) simp_all
  have image: "lin_index ?shape ` set (order ?shape) = {0..<int (length (m_data (lb_c s)))}"
  proof -
    have "int (length (m_data (lb_c s))) = prod_list ?shape"
      using raster_wf_size [OF c(2)] unfolding c(1) .
    moreover have "lin_index ?shape ` set (shape_positions ?shape) = set [0..prod_list ?shape - 1]"
      unfolding map_lin_index [OF c(3), symmetric] by (rule set_map [symmetric])
    ultimately show ?thesis
      unfolding ps by (simp only: set_upto atLeastLessThanPlusOne_atLeastAtMost_int [symmetric] diff_add_cancel)
  qed
  have "{0..<length (m_data (lb_c s))} \<subseteq> (\<lambda>p. nat (lin_index ?shape p)) ` set (order ?shape)"
  proof (intro subsetI)
    fix k
    assume "k \<in> {0..<length (m_data (lb_c s))}"
    then have "int k \<in> lin_index ?shape ` set (order ?shape)"
      unfolding image by simp
    then obtain p where "int k = lin_index ?shape p" "p \<in> set (order ?shape)"
      by (rule imageE)
    then show "k \<in> (\<lambda>p. nat (lin_index ?shape p)) ` set (order ?shape)"
      by (intro image_eqI [of _ _ p]) (drule sym, simp only: nat_int)+
  qed
  then have "with_data s (partial_sum s ({} \<union> (\<lambda>p. nat (lin_index ?shape p)) ` set (order ?shape))) = summed s"
    by (intro partial_sum_all [OF assms]) (simp only: Un_empty_left)
  moreover have "rfold sum_at (order ?shape) (with_data s (partial_sum s {})) =
      Inr (with_data s (partial_sum s ({} \<union> (\<lambda>p. nat (lin_index (m_shape (lb_c s)) p)) ` set (order ?shape))))"
    by (rule sum_partial [OF assms]) (unfold c(1) ps, blast)
  ultimately show ?thesis
    by (simp only: partial_sum_empty c(1))
qed

end

lemma shape_positions_3:
  "length shape = 3 \<Longrightarrow> set (positions (zeros 3) (op_minus_scalar shape 1)) =
     {[x, y, z] | x y z. 0 \<le> x \<and> x < shape ! 0 \<and> 0 \<le> y \<and> y < shape ! 1 \<and> 0 \<le> z \<and> z < shape ! 2}"
  by (subst set_positions) (auto simp: in_box_Cons length_Suc_conv numeral_3_eq_3 eval_nat_numeral)

interpretation xyz: visiting_order xyz_order
  by unfold_locales (auto simp: shape_positions_3 xyz_order_def image_iff)

interpretation zyx: visiting_order zyx_order
  by unfold_locales (auto simp: shape_positions_3 zyx_order_def image_iff)

interpretation domain: visiting_order "\<lambda>shape. shape_positions shape"
  by unfold_locales simp

lemma loop_over_positions_screens:
  assumes "looping_wf s"
  shows "loop_over_positions s = Some (rfold sum_at (shape_positions [lb_width s, lb_height s, lb_depth s]) s)"
proof -
  let ?shape = "[lb_width s, lb_height s, lb_depth s]" and ?r = "raster_domain (lb_c s)"
  have c: "m_shape (lb_c s) = ?shape" "Dim (lb_c s) = int (length ?shape)" "\<forall>n \<in> set ?shape. 0 < n"
    using assms by (auto simp: looping_wf_def raster_wf_def)
  then have r: "rg_front ?r = zeros (length ?shape)" "rg_back ?r = op_minus_scalar ?shape 1"
    using domain_fixed [of "lb_c s"] by simp_all
  then have proper: "rg_proper ?r"
    using c(3) by (simp add: rg_proper_def)
  have "screen_region (Suc (nat (rg_size ?r))) ?r = Some (Inr (positions (rg_front ?r) (rg_back ?r)))"
    by (rule screen_region_positions [OF proper]) (simp add: rg_size_positions [OF proper])
  then show ?thesis
    unfolding r by (simp only: loop_over_positions_def Let_def option.map rbind_simps)
qed

lemma sum_indices:
  "looping_wf s \<Longrightarrow> n \<le> length (m_data (lb_c s)) \<Longrightarrow> rfold sum_index [0..<n] s = Inr (with_data s (partial_sum s {0..<n}))"
proof (induction n)
  case 0
  then show ?case
    by (simp add: partial_sum_empty)
next
  case (Suc n)
  have "sum_index n (with_data s (partial_sum s {0..<n})) = Inr (with_data s (partial_sum s (insert n {0..<n})))"
    using Suc.prems looping_wf_length [OF Suc.prems(1)] partial_sum_insert [of n s "{0..<n}"]
    by (simp add: sum_index_def with_data_def wr_def) (simp add: partial_sum_def)
  then show ?case
    using Suc by (simp add: rfold_append atLeast0_lessThan_Suc)
qed

lemma sum_values_map2: "length as = length cs \<Longrightarrow> length bs = length cs \<Longrightarrow> sum_values cs as bs = Inr (map2 (+) as bs)"
  by (induction cs as bs rule: sum_values.induct) auto

text \<open>
  C29: The five ways to loop over rasters, by coordinates in two orders, by positions, by indices and by iterators, all end without error and compute the
  same raster, the sum of both operands.\<close>

theorem loops_agree:
  assumes "looping_wf s" and "k \<in> {CHR ''x'', CHR ''z'', CHR ''p'', CHR ''i'', CHR ''v''}"
  shows "run_loop k s = Some (Inr (summed s))"
proof -
  have "loop_over_xyz s = Inr (summed s)" "loop_over_zyx s = Inr (summed s)"
    unfolding loop_over_xyz_def loop_over_zyx_def by (rule xyz.sum_complete [OF assms(1)] zyx.sum_complete [OF assms(1)])+
  moreover have "loop_over_positions s = Some (Inr (summed s))"
    unfolding loop_over_positions_screens [OF assms(1)] by (simp only: domain.sum_complete [OF assms(1)])
  moreover have "loop_over_indices s = Inr (summed s)"
    using sum_indices [OF assms(1) order_refl] partial_sum_all [OF assms(1)] by (simp add: loop_over_indices_def)
  moreover have "loop_over_values s = Inr (summed s)"
    using looping_wf_length [OF assms(1)] by (simp add: loop_over_values_def sum_values_map2 summed_def)
  ultimately show ?thesis
    using assms(2) by (auto simp: run_loop_def)
qed

theorem loops_agree_witness:
  "run_loop (CHR ''z'') \<lparr>lb_width = 1, lb_height = 1, lb_depth = 2, lb_a = \<lparr>Dim = 3, m_shape = [1, 1, 2], m_data = [1, 255]\<rparr>,
     lb_b = \<lparr>Dim = 3, m_shape = [1, 1, 2], m_data = [2, 3]\<rparr>, lb_c = \<lparr>Dim = 3, m_shape = [1, 1, 2], m_data = [0, 0]\<rparr>\<rparr> =
   Some (Inr (summed \<lparr>lb_width = 1, lb_height = 1, lb_depth = 2, lb_a = \<lparr>Dim = 3, m_shape = [1, 1, 2], m_data = [1, 255]\<rparr>,
     lb_b = \<lparr>Dim = 3, m_shape = [1, 1, 2], m_data = [2, 3]\<rparr>, lb_c = \<lparr>Dim = 3, m_shape = [1, 1, 2], m_data = [0, 0]\<rparr>\<rparr>))"
  by (rule loops_agree) (simp_all add: looping_wf_def raster_wf_def shapeSize_def)

end
