(* ===== verification/Fits_Loop.thy ===== *)
theory Fits_Loop
  imports Fits_Cfitsio
begin

text \<open>
  Stateful code with exceptions in which a loop may not end: a run gives the state and the value or the exception, or \<open>None\<close> when it does not end.
\<close>

type_synonym ('s, 'a) lio = "'s \<Rightarrow> ('s \<times> 'a result) option"

definition lio_bind :: "('s, 'a) lio \<Rightarrow> ('a \<Rightarrow> ('s, 'b) lio) \<Rightarrow> ('s, 'b) lio" where
  "lio_bind m k s = Option.bind (m s) (\<lambda>(s', r). case r of Inl e \<Rightarrow> Some (s', Inl e) | Inr x \<Rightarrow> k x s')"

definition lio_then :: "('s, 'a) lio \<Rightarrow> ('s, 'b) lio \<Rightarrow> ('s, 'b) lio" where
  "lio_then m n = lio_bind m (\<lambda>_. n)"

definition lio_lift :: "'a result \<Rightarrow> ('s, 'a) lio" where
  "lio_lift r s = Some (s, r)"

fun lio_foreach :: "('x \<Rightarrow> ('s, unit) lio) \<Rightarrow> 'x list \<Rightarrow> ('s, unit) lio" where
  "lio_foreach g [] s = Some (s, Inr ())"
| "lio_foreach g (x # xs) s = lio_then (g x) (lio_foreach g xs) s"

lemma lio_foreach_runs: "lio_foreach g [] = lio_lift (Inr ())" "lio_foreach g (x # xs) = lio_then (g x) (lio_foreach g xs)"
  by (auto simp: lio_lift_def)

lemma lio_bind_success: "lio_bind m k s = Some (s', Inr y) \<longleftrightarrow> (\<exists>s1 x. m s = Some (s1, Inr x) \<and> k x s1 = Some (s', Inr y))"
proof (cases "m s")
  case (Some p)
  then show ?thesis
    by (cases p; cases "snd p") (auto simp: lio_bind_def)
qed (simp add: lio_bind_def)

text \<open>What a run that ends does to the state, whether it throws or not, composes along sequences when it is reflexive and transitive.\<close>

definition ends_in :: "('s \<Rightarrow> 's \<Rightarrow> bool) \<Rightarrow> ('s, 'a) lio \<Rightarrow> bool" where
  "ends_in R m \<longleftrightarrow> (\<forall>s s' r. m s = Some (s', r) \<longrightarrow> R s s')"

locale composed_runs =
  fixes R :: "'s \<Rightarrow> 's \<Rightarrow> bool"
  assumes same: "R s s" and trans: "R s s1 \<Longrightarrow> R s1 s2 \<Longrightarrow> R s s2"
begin

lemma ends_lift: "ends_in R (lio_lift r)"
  by (simp add: ends_in_def lio_lift_def same)

lemma ends_bind:
  assumes "ends_in R m" and "\<And>x. ends_in R (k x)"
  shows "ends_in R (lio_bind m k)"
  unfolding ends_in_def
proof (intro allI impI)
  fix s s' r
  assume run: "lio_bind m k s = Some (s', r)"
  then obtain s1 r1 where 1: "m s = Some (s1, r1)"
    by (cases "m s") (auto simp: lio_bind_def)
  then have "R s s1"
    using assms(1) unfolding ends_in_def by blast
  moreover have "R s1 s'"
  proof (cases r1)
    case (Inr x)
    then have "k x s1 = Some (s', r)"
      using run 1 by (simp add: lio_bind_def)
    then show ?thesis
      using assms(2) unfolding ends_in_def by blast
  qed (use run 1 same in \<open>simp add: lio_bind_def\<close>)
  ultimately show "R s s'"
    by (rule trans)
qed

lemma ends_then: "ends_in R m \<Longrightarrow> ends_in R n \<Longrightarrow> ends_in R (lio_then m n)"
  unfolding lio_then_def by (rule ends_bind)

lemma ends_foreach: "(\<And>x. ends_in R (g x)) \<Longrightarrow> ends_in R (lio_foreach g xs)"
  by (induction xs) (simp_all only: lio_foreach_runs ends_lift ends_then)

lemma ends_if: "ends_in R m \<Longrightarrow> ends_in R n \<Longrightarrow> ends_in R (if b then m else n)"
  by simp

lemmas ends = ends_lift ends_bind ends_then ends_foreach ends_if

end

text \<open>What runs that succeed add to the state: the amounts \<open>add\<close> up along sequences.\<close>

definition succeeds_in :: "('s \<Rightarrow> 's \<Rightarrow> bool) \<Rightarrow> ('s, 'a) lio \<Rightarrow> bool" where
  "succeeds_in R m \<longleftrightarrow> (\<forall>s s' x. m s = Some (s', Inr x) \<longrightarrow> R s s')"

lemma succeeds_inD: "succeeds_in R m \<Longrightarrow> m s = Some (s', Inr x) \<Longrightarrow> R s s'"
  unfolding succeeds_in_def by blast

locale counted_runs =
  fixes step :: "'n \<Rightarrow> 's \<Rightarrow> 's \<Rightarrow> bool" and none :: 'n and add :: "'n \<Rightarrow> 'n \<Rightarrow> 'n"
  assumes stay: "step none s s" and sum: "step a s s1 \<Longrightarrow> step b s1 s2 \<Longrightarrow> step (add a b) s s2"
begin

lemma counted_lift: "succeeds_in (step none) (lio_lift r)"
  by (simp add: succeeds_in_def lio_lift_def stay)

lemma counted_bind:
  assumes "succeeds_in (step a) m" and "\<And>x. succeeds_in (step b) (k x)"
  shows "succeeds_in (step (add a b)) (lio_bind m k)"
  using assms sum unfolding succeeds_in_def lio_bind_success by blast

lemma counted_then: "succeeds_in (step a) m \<Longrightarrow> succeeds_in (step b) n \<Longrightarrow> succeeds_in (step (add a b)) (lio_then m n)"
  unfolding lio_then_def by (rule counted_bind)

lemma counted_if: "succeeds_in (step a) m \<Longrightarrow> succeeds_in (step a) n \<Longrightarrow> succeeds_in (step a) (if b then m else n)"
  by simp

lemma counted_foreach:
  assumes "\<And>x. succeeds_in (step a) (g x)"
  shows "succeeds_in (step ((add a ^^ length xs) none)) (lio_foreach g xs)"
  by (induction xs) (simp_all add: lio_foreach_runs counted_lift counted_then assms del: lio_foreach.simps)

lemmas counted = counted_bind counted_then counted_if counted_lift

end

end
