(* ===== verification/Fits_Benchmark.thy ===== *)
theory Fits_Benchmark
  imports Fits_FixedRead Fits_Validation Fits_Life Fits_Loop
begin

text \<open>
  The benchmarks of the validation programs (\<^verbatim>\<open>Benchmark.h\<close>, \<^verbatim>\<open>EleFitsBenchmark.h\<close>): loops that write or read a number of HDUs through virtual
  methods, each of which times itself with the chronometer of the benchmark, and their implementation by means of EleFits.
\<close>

section \<open>Benchmarks\<close>

text \<open>The readings of the clock are numbered.\<close>

record 's bench =
  b_world :: 's
  b_chrono :: chrono
  b_reads :: nat

type_synonym ('s, 'a) bio = "('s bench, 'a) lio"

definition on_world :: "('s \<Rightarrow> ('s \<times> 'a result) option) \<Rightarrow> ('s, 'a) bio" where
  "on_world m s = map_option (\<lambda>(w, r). (s\<lparr>b_world := w\<rparr>, r)) (m (b_world s))"

definition start_chrono :: "(nat \<Rightarrow> int) \<Rightarrow> ('s, unit) bio" where
  "start_chrono clock s = Some (s\<lparr>b_chrono := chrono_start (clock (b_reads s)) (b_chrono s), b_reads := Suc (b_reads s)\<rparr>, Inr ())"

definition stop_chrono :: "(nat \<Rightarrow> int) \<Rightarrow> ('s, int) bio" where
  "stop_chrono clock s =
     (case chrono_stop 1000000 (clock (b_reads s)) (b_chrono s) of
        (c, inc) \<Rightarrow> Some (s\<lparr>b_chrono := c, b_reads := Suc (b_reads s)\<rparr>, Inr inc))"

definition reset_chrono :: "('s, unit) bio" where
  "reset_chrono s = Some (s\<lparr>b_chrono := chrono_reset 0 (b_chrono s)\<rparr>, Inr ())"

text \<open>The virtual methods; those that a class does not override throw.\<close>

record 's bench_ops =
  op_open :: "('s, unit) bio"
  op_close :: "('s, unit) bio"
  op_write_image :: "payload raster \<Rightarrow> ('s, int) bio"
  op_write_bintable :: "typed_column list \<Rightarrow> ('s, int) bio"
  op_read_image :: "int \<Rightarrow> ('s, payload raster) bio"
  op_read_bintable :: "int \<Rightarrow> ('s, typed_column list) bio"

definition not_implemented :: "string \<Rightarrow> ('s, 'a) bio" where
  "not_implemented name = lio_lift (Inl (StdException (''Test case not implemented: '' @ name)))"

text \<open>What is logged is computed, and may throw, whether it is shown or not.\<close>

definition log_raster :: "payload raster \<Rightarrow> ('s, unit) bio" where
  "log_raster ra = lio_then (lio_lift (raster_at ra [0])) (lio_then (lio_lift (raster_at ra [- 1])) (lio_lift (Inr ())))"

definition log_columns :: "typed_column list \<Rightarrow> ('s, unit) bio" where
  "log_columns tcs =
     (if tcs = [] then lio_lift (Inl Undefined)
      else lio_then (lio_lift (column_at (snd (hd tcs)) 0 0)) (lio_then (lio_lift (column_at (snd (last tcs)) (- 1) (- 1))) (lio_lift (Inr ()))))"

definition timed_run :: "'s bench_ops \<Rightarrow> ('s, unit) bio \<Rightarrow> (int \<Rightarrow> ('s, unit) bio) \<Rightarrow> int \<Rightarrow> ('s, chrono) bio" where
  "timed_run ops logs step count =
     lio_then (op_open ops) (lio_then reset_chrono (lio_then logs (lio_then (lio_foreach step [0..count - 1])
       (lio_then (op_close ops) (\<lambda>s. Some (s, Inr (b_chrono s)))))))"

definition write_images :: "'s bench_ops \<Rightarrow> int \<Rightarrow> payload raster \<Rightarrow> ('s, chrono) bio" where
  "write_images ops count raster =
     timed_run ops (log_raster raster) (\<lambda>i. lio_then (op_write_image ops raster) (lio_lift (Inr ()))) count"

definition write_bintables :: "'s bench_ops \<Rightarrow> int \<Rightarrow> typed_column list \<Rightarrow> ('s, chrono) bio" where
  "write_bintables ops count columns =
     timed_run ops (log_columns columns) (\<lambda>i. lio_then (op_write_bintable ops columns) (lio_lift (Inr ()))) count"

definition log_last :: "('s, unit) bio" where
  "log_last s = Some (s, rbind (chrono_last (b_chrono s)) (\<lambda>_. Inr ()))"

definition read_images :: "'s bench_ops \<Rightarrow> int \<Rightarrow> int \<Rightarrow> ('s, chrono) bio" where
  "read_images ops first count =
     timed_run ops (lio_lift (Inr ())) (\<lambda>i. lio_bind (op_read_image ops (first + i)) (\<lambda>ra. lio_then log_last (log_raster ra))) count"

definition read_bintables :: "'s bench_ops \<Rightarrow> int \<Rightarrow> int \<Rightarrow> ('s, chrono) bio" where
  "read_bintables ops first count =
     timed_run ops (lio_lift (Inr ())) (\<lambda>i. lio_bind (op_read_bintable ops (i + first)) (\<lambda>tcs. lio_then log_last (log_columns tcs))) count"

section \<open>EleFits\<close>

text \<open>Reopening calls the virtual method that opens a file of several extensions.\<close>

definition mef_reopen :: "('w, 'f) storage \<Rightarrow> 'f cfitsio \<Rightarrow> ('w \<times> 'f mef_file, unit) io" where
  "mef_reopen fs api = (\<lambda>(w, s).
     if is_open s then ((w, s), Inr ())
     else case m_permission s of
            Create \<Rightarrow> mef_open_impl fs api (m_filename s) Edit (w, s)
          | Overwrite \<Rightarrow> mef_open_impl fs api (m_filename s) Edit (w, s)
          | Temporary \<Rightarrow> ((w, s), Inl (FitsError ''Cannot reopen closed temporary file.''))
          | _ \<Rightarrow> mef_open_impl fs api (m_filename s) (m_permission s) (w, s))"

definition on_bench :: "('w \<times> 'f mef_file, 'a) io \<Rightarrow> ('w \<times> 'f mef_file, 'a) bio" where
  "on_bench m = on_world (\<lambda>ws. Some (m ws))"

definition on_bench_loop :: "('f mef_file \<Rightarrow> ('f mef_file \<times> 'a result) option) \<Rightarrow> ('w \<times> 'f mef_file, 'a) bio" where
  "on_bench_loop m = on_world (\<lambda>(w, s). map_option (\<lambda>(s', r). ((w, s'), r)) (m s))"

text \<open>An operation between the start and the stop of the chronometer.\<close>

definition timed :: "(nat \<Rightarrow> int) \<Rightarrow> ('s, 'a) bio \<Rightarrow> ('s, 'a \<times> int) bio" where
  "timed clock m = lio_then (start_chrono clock) (lio_bind m (\<lambda>x. lio_bind (stop_chrono clock) (\<lambda>inc. lio_lift (Inr (x, inc)))))"

definition timed_value :: "(nat \<Rightarrow> int) \<Rightarrow> ('s, 'a) bio \<Rightarrow> ('s, 'a) bio" where
  "timed_value clock m = lio_bind (timed clock m) (\<lambda>(x, inc). lio_lift (Inr x))"

definition timed_length :: "(nat \<Rightarrow> int) \<Rightarrow> ('s, 'a) bio \<Rightarrow> ('s, int) bio" where
  "timed_length clock m = lio_bind (timed clock m) (\<lambda>(x, inc). lio_lift (Inr inc))"

definition bcolumn_types :: "value_type list" where
  "bcolumn_types = [TUChar, TInt, TLong, TFloat, TDouble, TComplexFloat, TComplexDouble, TChar, TUInt, TULong]"

text \<open>\<^verbatim>\<open>col_indexed<i>()\<close> for each column.\<close>

definition col_indexed :: "(value_type \<times> column_key) list" where
  "col_indexed = map (\<lambda>(i, t). (t, key_of_index (int i))) (enumerate 0 bcolumn_types)"

definition colwise_write_bintable :: "'f cfitsio \<Rightarrow> 'f bintable_api \<Rightarrow> typed_column list \<Rightarrow> ('f, unit) mio" where
  "colwise_write_bintable api bt columns =
     io_bind (append_bintable_header api bt [] [] (map (\<lambda>(t, c). (t, m_info c)) columns)) (\<lambda>i.
     io_foreach (\<lambda>tc. with_hdu i (columns_write api bt tc)) columns)"

definition colwise_read_bintable :: "'f cfitsio \<Rightarrow> 'f bintable_api \<Rightarrow> payload \<Rightarrow> int \<Rightarrow> ('f, typed_column list) mio" where
  "colwise_read_bintable api bt zero index =
     io_bind (mef_access api ClassBintableHdu index) (\<lambda>i.
     io_map (\<lambda>(t, key). with_hdu i (columns_read api bt zero t 1 key)) col_indexed)"

definition colwise_ops :: "('w, 'f) storage \<Rightarrow> 'f cfitsio \<Rightarrow> 'f bintable_api \<Rightarrow> payload \<Rightarrow> (nat \<Rightarrow> int) \<Rightarrow> ('w \<times> 'f mef_file) bench_ops" where
  "colwise_ops fs api bt zero clock =
     \<lparr>op_open = on_bench (mef_reopen fs api), op_close = on_bench (mef_close_impl fs api),
      op_write_image = \<lambda>_. not_implemented ''Write image'',
      op_write_bintable = \<lambda>columns. timed_length clock (on_bench (on_mef (colwise_write_bintable api bt columns))),
      op_read_image = \<lambda>_. not_implemented ''Read image'',
      op_read_bintable = \<lambda>index. timed_value clock (on_bench (on_mef (colwise_read_bintable api bt zero index)))\<rparr>"

definition optimal_read_image :: "'f cfitsio \<Rightarrow> ('f, payload) pixel_api \<Rightarrow> payload \<Rightarrow> int \<Rightarrow> ('f, payload raster) mio" where
  "optimal_read_image api px zero index =
     io_bind (mef_access api ClassImageHdu index) (\<lambda>i. with_hdu i (raster_read_fixed 1 api px zero TLong))"

definition optimal_read_bintable :: "'f cfitsio \<Rightarrow> 'f bintable_api \<Rightarrow> payload \<Rightarrow> int \<Rightarrow> 'f mef_file \<Rightarrow> ('f mef_file \<times> typed_column list result) option" where
  "optimal_read_bintable api bt zero index s =
     (case mef_access api ClassBintableColumns index s of
        (s', Inl e) \<Rightarrow> Some (s', Inl e)
      | (s', Inr i) \<Rightarrow> with_hdu_loop i (read_seq_typed api bt zero col_indexed) s')"

definition elefits_ops ::
  "('w, 'f) storage \<Rightarrow> 'f cfitsio \<Rightarrow> ('f, payload) pixel_api \<Rightarrow> 'f compression_api \<Rightarrow> 'f bintable_api \<Rightarrow> payload \<Rightarrow> (nat \<Rightarrow> int) \<Rightarrow>
     ('w \<times> 'f mef_file) bench_ops" where
  "elefits_ops fs api px cp bt zero clock =
     (colwise_ops fs api bt zero clock)
       \<lparr>op_write_image := \<lambda>raster. timed_length clock (on_bench (on_mef (append_image api px cp TLong [] [] raster))),
        op_write_bintable := \<lambda>columns. timed_length clock (on_bench_loop (append_bintable_tuple api bt [] [] columns)),
        op_read_image := \<lambda>index. timed_value clock (on_bench (on_mef (optimal_read_image api px zero index))),
        op_read_bintable := \<lambda>index. timed_value clock (on_bench_loop (optimal_read_bintable api bt zero index))\<rparr>"

section \<open>What is timed\<close>

text \<open>Runs that leave the chronometer as it is, and runs that add one increment to it.\<close>

definition keeps_chrono :: "('s, 'a) bio \<Rightarrow> bool" where
  "keeps_chrono m \<longleftrightarrow> (\<forall>s s' x. m s = Some (s', Inr x) \<longrightarrow> b_chrono s' = b_chrono s)"

definition incremented :: "nat \<Rightarrow> 's bench \<Rightarrow> 's bench \<Rightarrow> bool" where
  "incremented n s s' \<longleftrightarrow> (\<exists>incs. length incs = n \<and> c_incs (b_chrono s') = c_incs (b_chrono s) @ map real_of_int incs \<and>
     c_elapsed (b_chrono s') = c_elapsed (b_chrono s) + sum_list incs)"

abbreviation adds_increments :: "nat \<Rightarrow> ('s, 'a) bio \<Rightarrow> bool" where
  "adds_increments n \<equiv> succeeds_in (incremented n)"

lemma incremented_sum:
  assumes "incremented a s s1" and "incremented b s1 s2"
  shows "incremented (a + b) s s2"
proof -
  obtain xs where "length xs = a" "c_incs (b_chrono s1) = c_incs (b_chrono s) @ map real_of_int xs"
      "c_elapsed (b_chrono s1) = c_elapsed (b_chrono s) + sum_list xs"
    using assms(1) unfolding incremented_def by blast
  moreover obtain ys where "length ys = b" "c_incs (b_chrono s2) = c_incs (b_chrono s1) @ map real_of_int ys"
      "c_elapsed (b_chrono s2) = c_elapsed (b_chrono s1) + sum_list ys"
    using assms(2) unfolding incremented_def by blast
  ultimately show ?thesis
    unfolding incremented_def by (intro exI [of _ "xs @ ys"]) simp
qed

lemma plus_funpow: "((+) (Suc 0) ^^ n) 0 = n"
  by (induction n) simp_all

interpretation timing: counted_runs incremented 0 "(+)"
  by unfold_locales (simp add: incremented_def, rule incremented_sum)

lemmas adds_bind = timing.counted_bind
lemmas adds_then = timing.counted_then

lemma adds_foreach: "(\<And>x. adds_increments 1 (g x)) \<Longrightarrow> adds_increments (length xs) (lio_foreach g xs)"
  using timing.counted_foreach [of 1 g xs] by (simp add: plus_funpow)

lemma keeps_adds: "keeps_chrono m \<Longrightarrow> adds_increments 0 m"
  by (auto simp: keeps_chrono_def succeeds_in_def incremented_def)

lemma keeps_lift: "keeps_chrono (lio_lift r)"
  by (simp add: keeps_chrono_def lio_lift_def)

lemma keeps_world: "keeps_chrono (on_world w)"
  by (auto simp: keeps_chrono_def on_world_def)

lemma keeps_bind: "keeps_chrono m \<Longrightarrow> (\<And>x. keeps_chrono (k x)) \<Longrightarrow> keeps_chrono (lio_bind m k)"
  unfolding keeps_chrono_def lio_bind_success by metis

lemma keeps_then: "keeps_chrono m \<Longrightarrow> keeps_chrono n \<Longrightarrow> keeps_chrono (lio_then m n)"
  unfolding lio_then_def by (rule keeps_bind)

lemma keeps_log_last: "keeps_chrono log_last"
  by (simp add: keeps_chrono_def log_last_def)

lemmas keeps_rules = keeps_lift keeps_world keeps_bind keeps_then keeps_log_last

lemma keeps_log_raster: "keeps_chrono (log_raster ra)"
  unfolding log_raster_def by (intro keeps_rules)

lemma keeps_log_columns: "keeps_chrono (log_columns tcs)"
  unfolding log_columns_def by (cases "tcs = []") (simp_all add: keeps_lift keeps_then)

lemma adds_start: "adds_increments 0 (start_chrono clock)"
  by (auto simp: succeeds_in_def incremented_def start_chrono_def chrono_start_def)

lemma adds_stop: "adds_increments 1 (stop_chrono clock)"
  unfolding succeeds_in_def incremented_def
proof (intro allI impI)
  fix s s' x
  assume "stop_chrono clock s = Some (s', Inr x)"
  then have "c_incs (b_chrono s') = c_incs (b_chrono s) @ map real_of_int [x]" "c_elapsed (b_chrono s') = c_elapsed (b_chrono s) + sum_list [x]"
    by (auto simp: stop_chrono_def chrono_stop_def Let_def)
  then show "\<exists>incs. length incs = 1 \<and> c_incs (b_chrono s') = c_incs (b_chrono s) @ map real_of_int incs \<and>
      c_elapsed (b_chrono s') = c_elapsed (b_chrono s) + sum_list incs"
    by (intro exI [of _ "[x]"]) simp
qed

lemma adds_timed:
  assumes "keeps_chrono m"
  shows "adds_increments 1 (timed clock m)" "adds_increments 1 (timed_value clock m)" "adds_increments 1 (timed_length clock m)"
proof -
  have "adds_increments (0 + (0 + (1 + 0))) (timed clock m)"
    unfolding timed_def by (intro adds_then adds_bind adds_start adds_stop keeps_adds keeps_rules assms)
  then show one: "adds_increments 1 (timed clock m)"
    by simp
  have "adds_increments (1 + 0) (timed_value clock m)" "adds_increments (1 + 0) (timed_length clock m)"
    unfolding timed_value_def timed_length_def split_beta by (intro adds_bind one keeps_adds keeps_rules)+
  then show "adds_increments 1 (timed_value clock m)" "adds_increments 1 (timed_length clock m)"
    by simp_all
qed

text \<open>The contract of the methods that a class of benchmarks provides, and what the loops over them measure.\<close>

locale timed_operations =
  fixes ops :: "'s bench_ops"
  assumes close_keeps: "keeps_chrono (op_close ops)"
    and write_image_adds: "adds_increments 1 (op_write_image ops raster)"
    and write_bintable_adds: "adds_increments 1 (op_write_bintable ops columns)"
    and read_image_adds: "adds_increments 1 (op_read_image ops index)"
    and read_bintable_adds: "adds_increments 1 (op_read_bintable ops index)"
begin

lemma timed_run_increments:
  assumes "keeps_chrono logs" and "\<And>i. adds_increments 1 (step i)" and "timed_run ops logs step count s = Some (s', Inr c)"
  shows "chrono_count c = nat count \<and> real_of_int (c_elapsed c) = sum_list (c_incs c)"
proof -
  have "adds_increments (0 + (length [0..count - 1] + (0 + 0)))
      (lio_then logs (lio_then (lio_foreach step [0..count - 1]) (lio_then (op_close ops) (\<lambda>s. Some (s, Inr (b_chrono s))))))"
    by (intro adds_then adds_foreach assms(1,2) keeps_adds close_keeps) (simp add: keeps_chrono_def)
  then have adds: "adds_increments (nat count)
      (lio_then logs (lio_then (lio_foreach step [0..count - 1]) (lio_then (op_close ops) (\<lambda>s. Some (s, Inr (b_chrono s))))))"
    by simp
  obtain s1 s2 where "reset_chrono s1 = Some (s2, Inr ())" and run: "lio_then logs (lio_then (lio_foreach step [0..count - 1])
      (lio_then (op_close ops) (\<lambda>s. Some (s, Inr (b_chrono s))))) s2 = Some (s', Inr c)"
    using assms(3) by (auto simp: timed_run_def lio_then_def lio_bind_success)
  then have "c_incs (b_chrono s2) = []" "c_elapsed (b_chrono s2) = 0"
    by (auto simp: reset_chrono_def chrono_reset_def)
  moreover have "c = b_chrono s'"
    using run by (auto simp: lio_then_def lio_bind_success)
  moreover obtain incs where "length incs = nat count" "c_incs (b_chrono s') = c_incs (b_chrono s2) @ map real_of_int incs"
      "c_elapsed (b_chrono s') = c_elapsed (b_chrono s2) + sum_list incs"
    using adds run unfolding succeeds_in_def incremented_def by meson
  moreover have "sum_list (map real_of_int incs) = real_of_int (sum_list incs)"
    by (induction incs) simp_all
  ultimately show ?thesis
    by (simp add: chrono_count_def)
qed

lemma write_images_increments:
  assumes "write_images ops count raster s = Some (s', Inr c)"
  shows "chrono_count c = nat count \<and> real_of_int (c_elapsed c) = sum_list (c_incs c)"
  using assms adds_then [OF write_image_adds keeps_adds [OF keeps_lift]]
  unfolding write_images_def by (intro timed_run_increments [OF keeps_log_raster]) simp_all

lemma write_bintables_increments:
  assumes "write_bintables ops count columns s = Some (s', Inr c)"
  shows "chrono_count c = nat count \<and> real_of_int (c_elapsed c) = sum_list (c_incs c)"
  using assms adds_then [OF write_bintable_adds keeps_adds [OF keeps_lift]]
  unfolding write_bintables_def by (intro timed_run_increments [OF keeps_log_columns]) simp_all

lemma read_images_increments:
  assumes "read_images ops first count s = Some (s', Inr c)"
  shows "chrono_count c = nat count \<and> real_of_int (c_elapsed c) = sum_list (c_incs c)"
  using assms adds_bind [OF read_image_adds keeps_adds [OF keeps_then [OF keeps_log_last keeps_log_raster]]]
  unfolding read_images_def by (intro timed_run_increments [OF keeps_lift]) simp_all

lemma read_bintables_increments:
  assumes "read_bintables ops first count s = Some (s', Inr c)"
  shows "chrono_count c = nat count \<and> real_of_int (c_elapsed c) = sum_list (c_incs c)"
  using assms adds_bind [OF read_bintable_adds keeps_adds [OF keeps_then [OF keeps_log_last keeps_log_columns]]]
  unfolding read_bintables_def by (intro timed_run_increments [OF keeps_lift]) simp_all

lemmas increments = write_images_increments write_bintables_increments read_images_increments read_bintables_increments

end

lemma not_implemented_adds: "adds_increments n (not_implemented name)"
  by (simp add: succeeds_in_def incremented_def not_implemented_def lio_lift_def)

interpretation colwise: timed_operations "colwise_ops fs api bt zero clock" for fs api bt zero clock
  by unfold_locales (auto simp: colwise_ops_def on_bench_def intro!: not_implemented_adds adds_timed [unfolded One_nat_def] keeps_world)

interpretation elefits: timed_operations "elefits_ops fs api px cp bt zero clock" for fs api px cp bt zero clock
  by unfold_locales (auto simp: elefits_ops_def colwise_ops_def on_bench_def on_bench_loop_def intro!: adds_timed [unfolded One_nat_def] keeps_world)

text \<open>
  When a benchmark that writes or reads HDUs with EleFits succeeds, its chronometer has one increment for each HDU, and the elapsed time is the sum of
  them.\<close>

theorem benchmark_increments:
  assumes "run = write_images (elefits_ops fs api px cp bt zero clock) count raster \<or>
           run = write_bintables (elefits_ops fs api px cp bt zero clock) count columns \<or>
           run = read_images (elefits_ops fs api px cp bt zero clock) first count \<or>
           run = read_bintables (elefits_ops fs api px cp bt zero clock) first count"
    and "run s = Some (s', Inr c)"
  shows "chrono_count c = nat count \<and> real_of_int (c_elapsed c) = sum_list (c_incs c)"
  using assms(1)
proof (elim disjE)
  assume "run = write_images (elefits_ops fs api px cp bt zero clock) count raster"
  then show ?thesis using assms(2) elefits.write_images_increments by simp
next
  assume "run = write_bintables (elefits_ops fs api px cp bt zero clock) count columns"
  then show ?thesis using assms(2) elefits.write_bintables_increments by simp
next
  assume "run = read_images (elefits_ops fs api px cp bt zero clock) first count"
  then show ?thesis using assms(2) elefits.read_images_increments by simp
next
  assume "run = read_bintables (elefits_ops fs api px cp bt zero clock) first count"
  then show ?thesis using assms(2) elefits.read_bintables_increments by simp
qed

text \<open>A benchmark that writes two images to a file that stays open for writing; only the functions that are called matter.\<close>

definition disk_pixels :: "(bool, payload) pixel_api" where
  "disk_pixels =
     \<lparr>px_read_img = \<lambda>t first n f. ([], 0), px_read_subset = \<lambda>t lo hi step f. ([], 0), px_write_img = \<lambda>t first data f. (f, 0),
      px_write_subset = \<lambda>t lo hi data f. (f, 0), px_write_pix = \<lambda>t pos data f. (f, 0), px_get_img_type = \<lambda>f. (8, 0),
      px_resize_img = \<lambda>b shape f. (f, 0)\<rparr>"

definition disk_bench :: "(string list \<times> bool mef_file) bench" where
  "disk_bench =
     \<lparr>b_world = ([''a.fits''], \<lparr>m_fptr = Some True, m_filename = ''a.fits'', m_permission = Overwrite, m_hdus = [], m_compression = [], m_actions = []\<rparr>),
      b_chrono = chrono_init 0, b_reads = 0\<rparr>"

theorem benchmark_increments_witness:
  "\<forall>cp bt. \<exists>s' c. write_images (elefits_ops disk disk_api disk_pixels cp bt (IntVal 0) (\<lambda>k. 3000000 * int k)) 2
     (makeRaster [IntVal 1, IntVal 2, IntVal 3] [3]) disk_bench = Some (s', Inr c) \<and> chrono_count c = 2"
proof (intro allI)
  fix cp bt
  let ?run = "write_images (elefits_ops disk disk_api disk_pixels cp bt (IntVal 0) (\<lambda>k. 3000000 * int k)) 2 (makeRaster [IntVal 1, IntVal 2, IntVal 3] [3])"
  have "map_option (\<lambda>(s', r). r = Inl Undefined \<or> isl r) (?run disk_bench) = Some False"
    by code_simp
  then obtain s' c where run: "?run disk_bench = Some (s', Inr c)"
    by (auto simp: isl_def) (metis sum.exhaust)
  from benchmark_increments [OF disjI1 [OF refl] this] have "chrono_count c = 2"
    by simp
  then show "\<exists>s' c. ?run disk_bench = Some (s', Inr c) \<and> chrono_count c = 2"
    using run by blast
qed

end
