(* ===== verification/Fits_CfitsioBenchmark.thy ===== *)
theory Fits_CfitsioBenchmark
  imports Fits_Benchmark
begin

text \<open>
  The benchmark that calls CFITSIO directly (\<^verbatim>\<open>CfitsioBenchmark.h\<close>).  Its status is a member that no method resets, and its pointer to the file is kept after
  the file has been closed.
\<close>

section \<open>State\<close>

text \<open>A pointer to a file: null, to an open file, or to a file that has been closed.\<close>

datatype 'f fptr = NullFile | OpenFile 'f | ClosedFile

record ('w, 'f) cfile =
  cf_disk :: 'w
  cf_filename :: string
  cf_fptr :: "'f fptr"
  cf_status :: int
  cf_chunk :: int

text \<open>
  A function of CFITSIO returns at once when the status it is given is an error; it is undefined on a pointer to a file that is not open.  A function that
  only reads then leaves its outputs as they are, here \<open>d\<close>.
\<close>

definition cf_call :: "('f \<Rightarrow> 'f \<times> int) \<Rightarrow> (('w, 'f) cfile, unit) io" where
  "cf_call g s =
     (if cf_status s > 0 then (s, Inr ())
      else case cf_fptr s of
             OpenFile f \<Rightarrow> (case g f of (f', st) \<Rightarrow> (s\<lparr>cf_fptr := OpenFile f', cf_status := st\<rparr>, Inr ()))
           | _ \<Rightarrow> (s, Inl Undefined))"

definition cf_query :: "('f \<Rightarrow> 'a \<times> int) \<Rightarrow> 'a \<Rightarrow> (('w, 'f) cfile, 'a) io" where
  "cf_query g d s =
     (if cf_status s > 0 then (s, Inr d)
      else case cf_fptr s of
             OpenFile f \<Rightarrow> (case g f of (x, st) \<Rightarrow> (s\<lparr>cf_status := st\<rparr>, Inr x))
           | _ \<Rightarrow> (s, Inl Undefined))"

text \<open>The exception describes the file, which is read through the pointer.\<close>

definition cf_may_throw :: "string \<Rightarrow> (('w, 'f) cfile, unit) io" where
  "cf_may_throw context s =
     (s, if cf_status s = 0 then Inr ()
         else case cf_fptr s of ClosedFile \<Rightarrow> Inl Undefined | _ \<Rightarrow> Inl (CfitsioError (cf_status s) context))"

section \<open>Files\<close>

text \<open>Opening sets the pointer to null first; a failure leaves it so.\<close>

definition cf_created :: "('w \<times> 'f) \<times> int \<Rightarrow> ('w, 'f) cfile \<Rightarrow> ('w, 'f) cfile" where
  "cf_created p s = (case p of ((w, f), st) \<Rightarrow>
     s\<lparr>cf_disk := w, cf_fptr := (if st > 0 then NullFile else OpenFile f), cf_status := st\<rparr>)"

definition cfitsio_init :: "('w, 'f) storage \<Rightarrow> 'f cfitsio \<Rightarrow> string \<Rightarrow> int \<Rightarrow> 'w \<Rightarrow> ('w, 'f) cfile \<times> unit result" where
  "cfitsio_init fs api filename chunk w =
     io_then (cf_call (api_create_img api TUChar [])) (cf_may_throw ''Cannot create file'')
       (cf_created (fs_create_file fs (CHR ''!'' # filename) w)
          \<lparr>cf_disk = w, cf_filename = filename, cf_fptr = NullFile, cf_status = 0, cf_chunk = chunk\<rparr>)"

definition cf_open :: "('w, 'f) storage \<Rightarrow> (('w, 'f) cfile, unit) io" where
  "cf_open fs s =
     (if cf_status s > 0 then (s, Inr ())
      else (cf_created (fs_open_file fs (cf_filename s) READWRITE (cf_disk s)) s, Inr ()))"

definition NULL_INPUT_PTR :: int where "NULL_INPUT_PTR = 115"

text \<open>Closing goes on in spite of a former error, whose status is kept.\<close>

definition cf_close :: "('w, 'f) storage \<Rightarrow> (('w, 'f) cfile, unit) io" where
  "cf_close fs s =
     (case cf_fptr s of
        NullFile \<Rightarrow> (s\<lparr>cf_status := NULL_INPUT_PTR\<rparr>, Inr ())
      | OpenFile f \<Rightarrow> (case fs_close_file fs f (cf_disk s) of (w, st) \<Rightarrow>
          (s\<lparr>cf_disk := w, cf_fptr := ClosedFile, cf_status := (if cf_status s > 0 then cf_status s else st)\<rparr>, Inr ()))
      | ClosedFile \<Rightarrow> (s, Inl Undefined))"

section \<open>Images\<close>

definition cf_write_image :: "'f cfitsio \<Rightarrow> ('f, payload) pixel_api \<Rightarrow> payload raster \<Rightarrow> (('w, 'f) cfile, unit) io" where
  "cf_write_image api px raster =
     io_then (cf_call (api_create_img api TLong (m_shape raster))) (io_then (cf_may_throw ''Cannot create image HDU'')
     (io_then (cf_call (px_write_img px TLong 1 (m_data raster))) (cf_may_throw ''Cannot write image'')))"

definition cf_read_image :: "'f cfitsio \<Rightarrow> ('f, payload) pixel_api \<Rightarrow> payload \<Rightarrow> int \<Rightarrow> (('w, 'f) cfile, payload raster) io" where
  "cf_read_image api px zero index =
     io_then (cf_call (api_movabs_hdu api (index + 1)))
     (io_bind (cf_query (\<lambda>f. case api_get_img_size api f of (dims, st) \<Rightarrow> (take 1 dims @ replicate (1 - length dims) 0, st)) [0]) (\<lambda>shape.
      io_bind (io_lift (raster_zero zero 1 shape)) (\<lambda>raster.
      io_bind (cf_query (px_read_img px TLong 1 (int (length (m_data raster)))) []) (\<lambda>vs.
      io_bind (io_lift (write_block (m_data raster) 0 vs)) (\<lambda>d.
      io_then (cf_may_throw ''Cannot read image'') (io_return (raster\<lparr>m_data := d\<rparr>)))))))"

section \<open>Tables\<close>

text \<open>The names, formats and units are stored in vectors that are given one element per row.\<close>

definition setup_column_info :: "nat \<times> typed_column \<Rightarrow> string list \<times> string list \<times> string list \<Rightarrow> (string list \<times> string list \<times> string list) result" where
  "setup_column_info = (\<lambda>(i, t, c) (names, formats, units).
     rbind (wr names (int i) (ci_name (m_info c))) (\<lambda>names'.
     rbind (case tform t (repeat_count (m_info c)) of None \<Rightarrow> Inl Undefined | Some form \<Rightarrow> wr formats (int i) form) (\<lambda>formats'.
     rbind (wr units (int i) (ci_unit (m_info c))) (\<lambda>units'. Inr (names', formats', units')))))"

definition setup_columns :: "typed_column list \<Rightarrow> int \<Rightarrow> (string \<times> string \<times> string) list result" where
  "setup_columns columns rows =
     (let v = replicate (nat rows) [] in
      rbind (rfold setup_column_info (enumerate 0 columns) (v, v, v)) (\<lambda>(names, formats, units).
      Inr (take (length columns) (zip names (zip formats units)))))"

definition cf_write_column :: "'f bintable_api \<Rightarrow> int \<Rightarrow> int \<Rightarrow> nat \<times> typed_column \<Rightarrow> (('w, 'f) cfile, unit) io" where
  "cf_write_column bt first_row rows = (\<lambda>(i, t, c).
     io_bind (io_lift (read_block (c_data c) first_row rows)) (\<lambda>vs.
     io_then (cf_call (bt_write_col bt t (int i + 1) (first_row + 1) vs)) (cf_may_throw ''Cannot write column'')))"

definition cf_init_column :: "'f bintable_api \<Rightarrow> payload \<Rightarrow> int \<Rightarrow> nat \<times> value_type \<Rightarrow> (('w, 'f) cfile, typed_column) io" where
  "cf_init_column bt zero rows = (\<lambda>(i, t).
     io_bind (cf_query (bt_get_bcolparms bt (int i + 1)) ([], [], 0)) (\<lambda>(name, unit, rep).
     io_bind (io_lift (rbind (column_info_init (t = TString) 1 name unit rep) (\<lambda>info. column_zero zero info rows))) (\<lambda>c.
     io_then (cf_may_throw ''Cannot initialize column'') (io_return (t, c)))))"

definition cf_read_column :: "'f bintable_api \<Rightarrow> int \<Rightarrow> int \<Rightarrow> nat \<times> typed_column \<Rightarrow> (('w, 'f) cfile, typed_column) io" where
  "cf_read_column bt first_row rows = (\<lambda>(i, t, c).
     io_bind (cf_query (bt_read_col bt t (int i + 1) (first_row + 1) rows) []) (\<lambda>vs.
     io_bind (io_lift (write_block (c_data c) first_row vs)) (\<lambda>d.
     io_then (cf_may_throw ''Cannot read column'') (io_return (t, c\<lparr>c_data := d\<rparr>)))))"

definition compute_chunk_row_count :: "'f bintable_api \<Rightarrow> int \<Rightarrow> (('w, 'f) cfile, int) io" where
  "compute_chunk_row_count bt rows s =
     (if cf_chunk s = - 1 then (s, Inr rows)
      else if cf_chunk s = 0
      then io_bind (cf_query (bt_get_rowsize bt) 0) (\<lambda>size. io_then (cf_may_throw ''Cannot compute buffer size'') (io_return size)) s
      else (s, Inr (cf_chunk s)))"

text \<open>The loop over chunks of rows; it does not end when a chunk has no row.\<close>

partial_function (option) cf_chunks ::
  "(int \<Rightarrow> int \<Rightarrow> 'x \<Rightarrow> 's \<Rightarrow> 's \<times> 'x result) \<Rightarrow> int \<Rightarrow> int \<Rightarrow> int \<Rightarrow> 'x \<Rightarrow> 's \<Rightarrow> ('s \<times> 'x result) option" where
  "cf_chunks body chunk rows first_row x s =
     (if first_row < rows
      then case body first_row (min (first_row + chunk) rows - first_row) x s of
             (s', Inl e) \<Rightarrow> Some (s', Inl e)
           | (s', Inr y) \<Rightarrow> cf_chunks body chunk rows (min (first_row + chunk) rows) y s'
      else Some (s, Inr x))"

definition write_body :: "'f bintable_api \<Rightarrow> typed_column list \<Rightarrow> int \<Rightarrow> int \<Rightarrow> unit \<Rightarrow> (('w, 'f) cfile, unit) io" where
  "write_body bt columns first_row rows u = io_foreach (cf_write_column bt first_row rows) (enumerate 0 columns)"

definition read_body :: "'f bintable_api \<Rightarrow> int \<Rightarrow> int \<Rightarrow> typed_column list \<Rightarrow> (('w, 'f) cfile, typed_column list) io" where
  "read_body bt first_row rows columns = io_map (cf_read_column bt first_row rows) (enumerate 0 columns)"

definition cf_write_table :: "'f bintable_api \<Rightarrow> (string \<times> string \<times> string) list \<Rightarrow> typed_column list \<Rightarrow> int \<Rightarrow> ('w, 'f) cfile \<Rightarrow> (('w, 'f) cfile \<times> unit result) option" where
  "cf_write_table bt forms columns rows s =
     (case io_then (cf_call (bt_create_tbl bt forms [])) (io_then (cf_may_throw ''Cannot create binary table HDU'') (compute_chunk_row_count bt rows)) s of
        (s', Inl e) \<Rightarrow> Some (s', Inl e)
      | (s', Inr chunk) \<Rightarrow> cf_chunks (write_body bt columns) chunk rows 0 () s')"

definition cf_read_table :: "'f cfitsio \<Rightarrow> 'f bintable_api \<Rightarrow> payload \<Rightarrow> ('w, 'f) cfile \<Rightarrow> (('w, 'f) cfile \<times> typed_column list result) option" where
  "cf_read_table api bt zero s =
     (case io_bind (cf_query (api_get_num_rows api) 0) (\<lambda>rows.
           io_then (cf_may_throw ''Cannot read number of rows'')
           (io_bind (io_map (cf_init_column bt zero rows) (enumerate 0 bcolumn_types)) (\<lambda>columns.
            io_bind (compute_chunk_row_count bt rows) (\<lambda>chunk. io_return (rows, columns, chunk))))) s of
        (s', Inl e) \<Rightarrow> Some (s', Inl e)
      | (s', Inr (rows, columns, chunk)) \<Rightarrow> cf_chunks (read_body bt) chunk rows 0 columns s')"

definition on_cfitsio :: "(('w, 'f) cfile, 'a) io \<Rightarrow> (('w, 'f) cfile, 'a) bio" where
  "on_cfitsio m = on_world (\<lambda>s. Some (m s))"

definition cf_write_bintable :: "'f bintable_api \<Rightarrow> (nat \<Rightarrow> int) \<Rightarrow> typed_column list \<Rightarrow> (('w, 'f) cfile, int) bio" where
  "cf_write_bintable bt clock columns =
     (case columns of
        [] \<Rightarrow> lio_lift (Inl Undefined)
      | (t, c) # _ \<Rightarrow> lio_bind (lio_lift (row_count c)) (\<lambda>rows. lio_bind (lio_lift (setup_columns columns rows)) (\<lambda>forms.
          timed_length clock (on_world (cf_write_table bt forms columns rows)))))"

definition cf_read_bintable :: "'f cfitsio \<Rightarrow> 'f bintable_api \<Rightarrow> payload \<Rightarrow> (nat \<Rightarrow> int) \<Rightarrow> int \<Rightarrow> (('w, 'f) cfile, typed_column list) bio" where
  "cf_read_bintable api bt zero clock index =
     lio_then (on_cfitsio (io_then (cf_call (api_movabs_hdu api (index + 1))) (cf_may_throw ''Cannot access HDU'')))
       (timed_value clock (on_world (cf_read_table api bt zero)))"

definition cfitsio_ops ::
  "('w, 'f) storage \<Rightarrow> 'f cfitsio \<Rightarrow> ('f, payload) pixel_api \<Rightarrow> 'f bintable_api \<Rightarrow> payload \<Rightarrow> (nat \<Rightarrow> int) \<Rightarrow> ('w, 'f) cfile bench_ops" where
  "cfitsio_ops fs api px bt zero clock =
     \<lparr>op_open = on_cfitsio (cf_open fs), op_close = on_cfitsio (cf_close fs),
      op_write_image = \<lambda>raster. timed_length clock (on_cfitsio (cf_write_image api px raster)),
      op_write_bintable = cf_write_bintable bt clock,
      op_read_image = \<lambda>index. timed_value clock (on_cfitsio (cf_read_image api px zero index)),
      op_read_bintable = cf_read_bintable api bt zero clock\<rparr>"

lemma cfitsio_write_adds: "adds_increments 1 (cf_write_bintable bt clock columns)"
proof (cases columns)
  case Nil
  then show ?thesis
    by (simp add: cf_write_bintable_def succeeds_in_def incremented_def lio_lift_def)
next
  case (Cons tc cs)
  have "adds_increments (0 + (0 + 1)) (cf_write_bintable bt clock columns)"
    unfolding cf_write_bintable_def Cons list.case split_beta
    by (intro adds_bind keeps_adds keeps_rules adds_timed)
  then show ?thesis
    by simp
qed

lemma cfitsio_read_adds: "adds_increments 1 (cf_read_bintable api bt zero clock index)"
proof -
  have "adds_increments (0 + 1) (cf_read_bintable api bt zero clock index)"
    unfolding cf_read_bintable_def on_cfitsio_def by (intro adds_then keeps_adds keeps_rules adds_timed)
  then show ?thesis
    by simp
qed

interpretation cfitsio: timed_operations "cfitsio_ops fs api px bt zero clock" for fs api px bt zero clock
  by unfold_locales (auto simp: cfitsio_ops_def on_cfitsio_def
      intro!: cfitsio_write_adds [unfolded One_nat_def] cfitsio_read_adds [unfolded One_nat_def] adds_timed [unfolded One_nat_def] keeps_world)

section \<open>Reading by chunks\<close>

text \<open>What CFITSIO documents of \<^verbatim>\<open>fits_read_col\<close> for a column of one element per row.\<close>

definition scalars_documented :: "'f bintable_api \<Rightarrow> 'f \<Rightarrow> nat \<Rightarrow> value_type \<Rightarrow> nat \<Rightarrow> payload list \<Rightarrow> bool" where
  "scalars_documented bt f rows t i es \<longleftrightarrow> length es = rows \<and>
     (\<forall>a n. a + n \<le> rows \<longrightarrow> bt_read_col bt t (int i + 1) (int a + 1) (int n) f = (take n (drop a es), 0))"

text \<open>Columns whose first \<open>k\<close> rows have been read.\<close>

definition read_upto :: "nat \<Rightarrow> typed_column list \<Rightarrow> payload list list \<Rightarrow> typed_column list" where
  "read_upto k columns ess = map2 (\<lambda>(t, c) es. (t, c\<lparr>c_data := take k es @ drop k (c_data c)\<rparr>)) columns ess"

definition readable :: "'f bintable_api \<Rightarrow> 'f \<Rightarrow> nat \<Rightarrow> nat \<Rightarrow> typed_column list \<Rightarrow> payload list list \<Rightarrow> bool" where
  "readable bt f rows j columns ess \<longleftrightarrow> length ess = length columns \<and>
     (\<forall>i < length columns. scalars_documented bt f rows (fst (columns ! i)) (j + i) (ess ! i) \<and> length (c_data (snd (columns ! i))) = rows)"

lemma readable_Cons: "readable bt f rows j ((t, c) # columns) (es # ess) \<longleftrightarrow>
    scalars_documented bt f rows t j es \<and> length (c_data c) = rows \<and> readable bt f rows (Suc j) columns ess"
  by (auto simp: readable_def less_Suc_eq_0_disj)

lemma read_upto_Cons: "read_upto k ((t, c) # columns) (es # ess) = (t, c\<lparr>c_data := take k es @ drop k (c_data c)\<rparr>) # read_upto k columns ess"
  by (simp add: read_upto_def)

lemma status_same: "cf_status s = st \<Longrightarrow> s\<lparr>cf_status := st\<rparr> = s"
  by (cases s) simp

lemma cf_query_open: "cf_status s = 0 \<Longrightarrow> cf_fptr s = OpenFile f \<Longrightarrow> g f = (x, 0) \<Longrightarrow> cf_query g d s = (s, Inr x)"
  by (simp add: cf_query_def status_same)

lemma cf_may_throw_ok: "cf_status s = 0 \<Longrightarrow> cf_may_throw context s = (s, Inr ())"
  by (simp add: cf_may_throw_def)

lemma read_column_next:
  assumes "cf_status s = 0" "cf_fptr s = OpenFile f" "scalars_documented bt f rows t j es" "length (c_data c) = rows" "k + n \<le> rows"
  shows "cf_read_column bt (int k) (int n) (j, t, c\<lparr>c_data := take k es @ drop k (c_data c)\<rparr>) s =
    (s, Inr (t, c\<lparr>c_data := take (k + n) es @ drop (k + n) (c_data c)\<rparr>))"
proof -
  have "bt_read_col bt t (int j + 1) (int k + 1) (int n) f = (take n (drop k es), 0)" and len: "length es = rows"
    using assms(3,5) by (simp_all add: scalars_documented_def)
  then have q: "cf_query (bt_read_col bt t (int j + 1) (int k + 1) (int n)) [] s = (s, Inr (take n (drop k es)))"
    using assms(1,2) by (intro cf_query_open)
  have "write_block (take k es @ drop k (c_data c)) (int k) (take n (drop k es)) = Inr (take (k + n) es @ drop (k + n) (c_data c))"
    using assms(4,5) len by (simp add: write_block_def min_def take_add add.commute)
  then show ?thesis
    using q assms(1) by (simp add: cf_read_column_def io_bind_def io_then_def io_lift_def io_return_def cf_may_throw_ok)
qed

lemma read_body_next:
  assumes "cf_status s = 0" "cf_fptr s = OpenFile f" "readable bt f rows j columns ess" "k + n \<le> rows"
  shows "io_map (cf_read_column bt (int k) (int n)) (enumerate j (read_upto k columns ess)) s = (s, Inr (read_upto (k + n) columns ess))"
proof -
  have "length columns = length ess"
    using assms(3) by (simp add: readable_def)
  then show ?thesis
    using assms(3)
  proof (induction columns ess arbitrary: j rule: list_induct2)
    case (Cons tc columns es ess)
    obtain t c where tc: "tc = (t, c)"
      by (cases tc)
    have "cf_read_column bt (int k) (int n) (j, t, c\<lparr>c_data := take k es @ drop k (c_data c)\<rparr>) s =
        (s, Inr (t, c\<lparr>c_data := take (k + n) es @ drop (k + n) (c_data c)\<rparr>))"
      using Cons.prems assms(1,2,4) by (intro read_column_next) (auto simp: tc readable_Cons)
    moreover have "io_map (cf_read_column bt (int k) (int n)) (enumerate (Suc j) (read_upto k columns ess)) s = (s, Inr (read_upto (k + n) columns ess))"
      using Cons by (simp add: tc readable_Cons)
    ultimately show ?case
      by (simp add: tc read_upto_Cons io_bind_def io_return_def)
  qed (simp add: read_upto_def io_return_def)
qed

lemma read_chunks_all:
  assumes "cf_status s = 0" "cf_fptr s = OpenFile f" "readable bt f rows 0 columns ess" "0 < chunk" "k \<le> rows"
  shows "cf_chunks (read_body bt) chunk (int rows) (int k) (read_upto k columns ess) s = Some (s, Inr (read_upto rows columns ess))"
  using assms(5)
proof (induction "rows - k" arbitrary: k rule: less_induct)
  case less
  show ?case
  proof (cases "k < rows")
    case True
    let ?n = "min (nat chunk) (rows - k)"
    have past: "min (int k + chunk) (int rows) = int (k + ?n)"
      using assms(4) True by (auto simp: min_def)
    have "read_body bt (int k) (int ?n) (read_upto k columns ess) s = (s, Inr (read_upto (k + ?n) columns ess))"
      unfolding read_body_def using True by (intro read_body_next [OF assms(1-3)]) auto
    moreover have "cf_chunks (read_body bt) chunk (int rows) (int (k + ?n)) (read_upto (k + ?n) columns ess) s = Some (s, Inr (read_upto rows columns ess))"
      using True assms(4) by (intro less) auto
    ultimately show ?thesis
      using True by (subst cf_chunks.simps) (simp add: past)
  next
    case False
    then show ?thesis
      using less.prems by (subst cf_chunks.simps) simp
  qed
qed

text \<open>The columns of a table of the file, with the names and units it has there.\<close>

definition stored_columns :: "(nat \<Rightarrow> string \<times> string) \<Rightarrow> payload list list \<Rightarrow> typed_column list" where
  "stored_columns names ess =
     map2 (\<lambda>(i, t) es. (t, \<lparr>m_info = \<lparr>ci_is_string = (t = TString), ci_Dim = 1, ci_name = fst (names i), ci_unit = snd (names i), ci_shape = [1]\<rparr>,
                            c_data = es\<rparr>)) (enumerate 0 bcolumn_types) ess"

lemma init_column_scalar:
  assumes "cf_status s = 0" "cf_fptr s = OpenFile f" "bt_get_bcolparms bt (int i + 1) f = ((name, unit, 1), 0)"
  shows "cf_init_column bt zero (int rows) (i, t) s =
    (s, Inr (t, \<lparr>m_info = \<lparr>ci_is_string = (t = TString), ci_Dim = 1, ci_name = name, ci_unit = unit, ci_shape = [1]\<rparr>, c_data = replicate rows zero\<rparr>))"
proof -
  have "cf_query (bt_get_bcolparms bt (int i + 1)) ([], [], 0) s = (s, Inr (name, unit, 1))"
    using assms by (intro cf_query_open)
  then show ?thesis
    using assms(1)
    by (simp add: cf_init_column_def io_bind_def io_then_def io_lift_def io_return_def cf_may_throw_ok column_info_init_def pos_one_def
        column_zero_def element_count_def repeat_count_def shapeSize_def holder_vector_def)
qed

lemma io_map_same: "(\<And>x. x \<in> set xs \<Longrightarrow> g x s = (s, Inr (h x))) \<Longrightarrow> io_map g xs s = (s, Inr (map h xs))"
  by (induction xs) (simp_all add: io_bind_def io_return_def)

lemma chunk_row_count_positive:
  assumes "cf_status s = 0" "cf_fptr s = OpenFile f" "- 1 \<le> cf_chunk s" "bt_get_rowsize bt f = (int advised, 0)" "0 < advised"
  obtains chunk where "compute_chunk_row_count bt (int rows) s = (s, Inr chunk)" "0 < chunk \<or> rows = 0"
proof -
  have "cf_query (bt_get_rowsize bt) 0 s = (s, Inr (int advised))"
    using assms by (intro cf_query_open)
  then have "compute_chunk_row_count bt (int rows) s = (s, Inr (if cf_chunk s = - 1 then int rows else if cf_chunk s = 0 then int advised else cf_chunk s))"
    using assms(1) by (simp add: compute_chunk_row_count_def io_bind_def io_then_def io_return_def cf_may_throw_ok)
  then show thesis
    using assms(3,5) by (intro that) (assumption, auto)
qed

lemma enumerate_nth: "x \<in> set (enumerate 0 xs) \<Longrightarrow> fst x < length xs \<and> snd x = xs ! fst x"
  by (auto simp: in_set_enumerate_eq)

lemma read_table_columns:
  assumes open_file: "cf_status s = 0" "cf_fptr s = OpenFile f" and "- 1 \<le> cf_chunk s"
    and rows: "api_get_num_rows api f = (int rows, 0)" and size: "bt_get_rowsize bt f = (int advised, 0)" "0 < advised"
    and names: "\<forall>i < 10. bt_get_bcolparms bt (int i + 1) f = ((fst (names i), snd (names i), 1), 0)"
    and ess: "length ess = 10" "\<forall>i < 10. scalars_documented bt f rows (bcolumn_types ! i) i (ess ! i)"
  shows "cf_read_table api bt zero s = Some (s, Inr (stored_columns names ess))"
proof -
  let ?new = "\<lambda>(i, t). (t, \<lparr>m_info = \<lparr>ci_is_string = (t = TString), ci_Dim = 1, ci_name = fst (names i), ci_unit = snd (names i), ci_shape = [1]\<rparr>,
                            c_data = replicate rows zero\<rparr>)"
  let ?columns = "map ?new (enumerate 0 bcolumn_types)"
  have ten: "length bcolumn_types = 10"
    by (simp add: bcolumn_types_def)
  have "io_map (cf_init_column bt zero (int rows)) (enumerate 0 bcolumn_types) s = (s, Inr ?columns)"
  proof (rule io_map_same)
    fix x assume "x \<in> set (enumerate 0 bcolumn_types)"
    then have "fst x < 10"
      using enumerate_nth ten by metis
    then show "cf_init_column bt zero (int rows) x s = (s, Inr (?new x))"
      using init_column_scalar [OF open_file, of bt "fst x" "fst (names (fst x))" "snd (names (fst x))" zero rows "snd x"] names
      by (simp add: split_beta)
  qed
  moreover obtain chunk where "compute_chunk_row_count bt (int rows) s = (s, Inr chunk)" and chunk: "0 < chunk \<or> rows = 0"
    using chunk_row_count_positive [OF open_file assms(3) size] by blast
  moreover have "cf_query (api_get_num_rows api) 0 s = (s, Inr (int rows))"
    using open_file rows by (intro cf_query_open)
  ultimately have "cf_read_table api bt zero s = cf_chunks (read_body bt) chunk (int rows) 0 ?columns s"
    using open_file by (simp add: cf_read_table_def io_bind_def io_then_def io_return_def cf_may_throw_ok)
  moreover have start: "read_upto 0 ?columns ess = ?columns" and finish: "read_upto rows ?columns ess = stored_columns names ess"
    using ess ten by (auto intro!: nth_equalityI simp: read_upto_def stored_columns_def nth_enumerate_eq scalars_documented_def)
  moreover have "readable bt f rows 0 ?columns ess"
    using ess ten by (simp add: readable_def nth_enumerate_eq)
  then have "0 < chunk \<Longrightarrow> cf_chunks (read_body bt) chunk (int rows) (int 0) (read_upto 0 ?columns ess) s = Some (s, Inr (read_upto rows ?columns ess))"
    by (intro read_chunks_all [OF open_file]) simp_all
  moreover have "rows = 0 \<Longrightarrow> cf_chunks (read_body bt) chunk (int rows) 0 ?columns s = Some (s, Inr (read_upto rows ?columns ess))"
    using start by (subst cf_chunks.simps) simp
  ultimately show ?thesis
    using chunk by auto
qed

text \<open>
  C28: The three setups of the benchmark of CFITSIO (by rows, by columns and by chunks of the advised size) read the same columns, those of the file: whatever
  the number of rows it reads at once, the loop over the chunks ends, and the columns have the names, units and elements of the table.\<close>

theorem cfitsio_reads_agree:
  assumes "cf_status (b_world b) = 0" "cf_fptr (b_world b) = OpenFile f\<^sub>0" "- 1 \<le> cf_chunk (b_world b)"
    and "api_movabs_hdu api (index + 1) f\<^sub>0 = (f, 0)"
    and "api_get_num_rows api f = (int rows, 0)" and "bt_get_rowsize bt f = (int advised, 0)" "0 < advised"
    and "\<forall>i < 10. bt_get_bcolparms bt (int i + 1) f = ((fst (names i), snd (names i), 1), 0)"
    and "length ess = 10" "\<forall>i < 10. scalars_documented bt f rows (bcolumn_types ! i) i (ess ! i)"
  shows "\<exists>b'. op_read_bintable (cfitsio_ops fs api px bt zero clock) index b = Some (b', Inr (stored_columns names ess))"
proof -
  let ?w = "(b_world b)\<lparr>cf_fptr := OpenFile f, cf_status := 0\<rparr>"
  have "cf_read_table api bt zero ?w = Some (?w, Inr (stored_columns names ess))"
    using assms(3,5-) by (intro read_table_columns) simp_all
  moreover have "io_then (cf_call (api_movabs_hdu api (index + 1))) (cf_may_throw ''Cannot access HDU'') (b_world b) = (?w, Inr ())"
    using assms(1,2,4) by (simp add: io_then_def io_bind_def cf_call_def cf_may_throw_def)
  ultimately show ?thesis
    by (simp add: cfitsio_ops_def cf_read_bintable_def on_cfitsio_def lio_then_def lio_bind_def on_world_def timed_value_def timed_def start_chrono_def
        stop_chrono_def lio_lift_def split_beta)
qed

text \<open>A table of five rows whose columns all have the elements of \<open>mem_table\<close>, read by chunks of two rows.\<close>

definition cfitsio_bench :: "int \<Rightarrow> (unit, mem_header) cfile bench" where
  "cfitsio_bench chunk =
     \<lparr>b_world = \<lparr>cf_disk = (), cf_filename = [], cf_fptr = OpenFile [], cf_status = 0, cf_chunk = chunk\<rparr>, b_chrono = chrono_init 0, b_reads = 0\<rparr>"

theorem cfitsio_reads_agree_witness:
  "\<forall>fs px. \<exists>b'. op_read_bintable (cfitsio_ops fs (table_api\<lparr>api_movabs_hdu := \<lambda>i f. (f, 0)\<rparr>) px mem_table (IntVal 0) int) 1 (cfitsio_bench 0) =
     Some (b', Inr (stored_columns (\<lambda>i. (''A'', [])) (replicate 10 (map IntVal [10, 20, 30, 40, 50]))))"
proof (intro allI)
  fix fs px
  let ?ess = "replicate 10 (map IntVal [10, 20, 30, 40, 50])"
  have doc: "\<forall>i < 10. scalars_documented mem_table [] 5 (bcolumn_types ! i) i (?ess ! i)"
    by (simp add: scalars_documented_def mem_table_def)
  show "\<exists>b'. op_read_bintable (cfitsio_ops fs (table_api\<lparr>api_movabs_hdu := \<lambda>i f. (f, 0)\<rparr>) px mem_table (IntVal 0) int) 1 (cfitsio_bench 0) =
     Some (b', Inr (stored_columns (\<lambda>i. (''A'', [])) ?ess))"
    by (rule cfitsio_reads_agree [where f = "[]" and rows = 5 and advised = 2, OF _ _ _ _ _ _ _ _ _ doc])
      (simp_all add: cfitsio_bench_def mem_table_def table_api_def)
qed

section \<open>Writing\<close>

lemma setup_overflows:
  assumes "length names = r" "length formats = r" "length units = r" "j \<le> r" "r < j + length columns"
  shows "rfold setup_column_info (enumerate j columns) (names, formats, units) = Inl Undefined"
  using assms
proof (induction columns arbitrary: j names formats units)
  case (Cons tc columns)
  obtain t c where tc: "tc = (t, c)"
    by (cases tc)
  show ?case
  proof (cases "j < r \<and> tform t (repeat_count (m_info c)) \<noteq> None")
    case True
    then obtain form where "tform t (repeat_count (m_info c)) = Some form"
      by auto
    then have "setup_column_info (j, tc) (names, formats, units) =
        Inr (names[j := ci_name (m_info c)], formats[j := form], units[j := ci_unit (m_info c)])"
      using True Cons.prems by (simp add: setup_column_info_def tc)
    then show ?thesis
      using Cons True by simp
  next
    case False
    then show ?thesis
      using Cons.prems by (auto simp: setup_column_info_def tc wr_def)
  qed
qed simp

text \<open>
  The benchmark of CFITSIO writes out of the bounds of its arrays when a table has fewer rows than columns, as it has by default: the arrays of names,
  formats and units have one element per row instead of one per column.\<close>

theorem cfitsio_few_rows_undefined:
  assumes "columns = (t, c) # cs" and "row_count c = Inr rows" and "rows < int (length columns)"
  shows "op_write_bintable (cfitsio_ops fs api px bt zero clock) columns b = Some (b, Inl Undefined)"
proof -
  have "setup_columns columns rows = Inl Undefined"
    using setup_overflows [of "replicate (nat rows) []" "nat rows" "replicate (nat rows) []" "replicate (nat rows) []" 0 columns] assms(1,3)
    by (simp add: setup_columns_def)
  then show ?thesis
    using assms(1,2) by (simp add: cfitsio_ops_def cf_write_bintable_def lio_bind_def lio_lift_def)
qed

theorem cfitsio_few_rows_undefined_witness:
  "\<forall>fs api px bt clock b. op_write_bintable (cfitsio_ops fs api px bt (IntVal 0) clock)
     (map (\<lambda>t. (t, make_column \<lparr>ci_is_string = False, ci_Dim = 1, ci_name = ''A'', ci_unit = [], ci_shape = [1]\<rparr> [IntVal 0])) bcolumn_types) b =
   Some (b, Inl Undefined)"
proof (intro allI)
  fix fs api px bt clock b
  let ?c = "make_column \<lparr>ci_is_string = False, ci_Dim = 1, ci_name = ''A'', ci_unit = [], ci_shape = [1]\<rparr> [IntVal 0]"
  have "row_count ?c = Inr 1"
    by (simp add: row_count_def element_count_def repeat_count_def shapeSize_def make_column_def)
  then show "op_write_bintable (cfitsio_ops fs api px bt (IntVal 0) clock) (map (\<lambda>t. (t, ?c)) bcolumn_types) b = Some (b, Inl Undefined)"
    by (intro cfitsio_few_rows_undefined [of _ TUChar ?c "map (\<lambda>t. (t, ?c)) (tl bcolumn_types)" 1]) (simp_all add: bcolumn_types_def)
qed

section \<open>Errors and closing\<close>

text \<open>The destructor closes the file.\<close>

definition cfitsio_destroy :: "('w, 'f) storage \<Rightarrow> (('w, 'f) cfile, unit) io" where
  "cfitsio_destroy fs = cf_close fs"

text \<open>The file has already been closed by the method that wrote or read it.\<close>

lemma destroy_after_close:
  assumes "cf_close fs s = (s', Inr ())" and "cf_fptr s \<noteq> NullFile"
  shows "cfitsio_destroy fs s' = (s', Inl Undefined)"
  using assms by (auto simp: cfitsio_destroy_def cf_close_def split: fptr.splits prod.splits)

text \<open>After an error, every other method fails with the same one, even once the file has been opened again.\<close>

lemma error_is_kept:
  assumes "0 < cf_status s"
  shows "cf_write_image api px raster s = (s, if cf_fptr s = ClosedFile then Inl Undefined else Inl (CfitsioError (cf_status s) ''Cannot create image HDU''))"
    and "cf_open fs s = (s, Inr ())"
  using assms by (auto simp: cf_write_image_def io_then_def io_bind_def cf_call_def cf_may_throw_def cf_open_def split: fptr.splits)

end
