(* ===== verification/Fits_RunBenchmark.thy ===== *)
theory Fits_RunBenchmark
  imports Fits_CfitsioBenchmark
begin

text \<open>
  The program \<^verbatim>\<open>EleFitsRunBenchmark\<close>: it creates the benchmark of a setup, writes and reads images or tables with it and appends the measures to
  a table in text.
\<close>

section \<open>The model\<close>

text \<open>
  What the program runs on: CFITSIO and the file system, the clocks, the random numbers, and the conversions of numbers to text, by the insertion operator
  and by \<^verbatim>\<open>std::to_string\<close>.  The first gets \<open>None\<close> for a number that is not one.
\<close>

record ('w, 'f) runtime =
  rt_storage :: "('w, 'f) storage"
  rt_cfitsio :: "'f cfitsio"
  rt_pixels :: "('f, payload) pixel_api"
  rt_compression :: "'f compression_api"
  rt_bintable :: "'f bintable_api"
  rt_zero :: payload
  rt_clock :: "nat \<Rightarrow> int"
  rt_rounding :: rounding
  rt_uniform :: uniform
  rt_seeds :: "nat \<Rightarrow> nat \<Rightarrow> int"
  rt_date :: string
  rt_file_size :: "string \<Rightarrow> 'w \<Rightarrow> int result"
  rt_insert :: "real option \<Rightarrow> string"
  rt_to_string :: "real \<Rightarrow> string"

record benchmark_args =
  arg_setup :: string
  arg_images :: int
  arg_pixels :: int
  arg_tables :: int
  arg_rows :: int
  arg_output :: string

definition result_header :: "string list" where
  "result_header =
     [''Date'', ''Test setup'', ''Mode'', ''HDU type'', ''HDU count'', ''Value count / HDU'', ''Total value count'', ''File size (bytes)'',
      ''Elapsed (ms)'', ''Min (ms)'', ''Max (ms)'', ''Mean (ms)'', ''Standard deviation (ms)'', ''Samples (ms)'']"

text \<open>The first value starts the accumulation, so that there must be one.\<close>

definition join :: "(real \<Rightarrow> string) \<Rightarrow> real list \<Rightarrow> string \<Rightarrow> string result" where
  "join show values sep = (case values of [] \<Rightarrow> Inl Undefined | v # vs \<Rightarrow> Inr (foldl (\<lambda>a b. a @ sep @ show b) (show v) vs))"

text \<open>A product of two \<^verbatim>\<open>int\<close>, and one of an \<^verbatim>\<open>int\<close> by a \<^verbatim>\<open>std::size_t\<close>.\<close>

definition int_times :: "int \<Rightarrow> int \<Rightarrow> int result" where
  "int_times a b = (if - (2 ^ 31) \<le> a * b \<and> a * b < 2 ^ 31 then Inr (a * b) else Inl Undefined)"

definition size_times :: "int \<Rightarrow> nat \<Rightarrow> int" where
  "size_times a n = a * int n mod 2 ^ 64"

definition result_row :: "('w, 'f) runtime \<Rightarrow> string \<Rightarrow> string \<Rightarrow> string \<Rightarrow> int \<Rightarrow> int \<Rightarrow> int \<Rightarrow> int \<Rightarrow> chrono \<Rightarrow> string list result" where
  "result_row rt setup_name mode hdu_type hdus per_hdu total_count bytes c =
     rbind (chrono_min c) (\<lambda>mn. rbind (chrono_max c) (\<lambda>mx. rbind (join (rt_to_string rt) (c_incs c) '','') (\<lambda>samples.
     Inr [''TODO'', setup_name, mode, hdu_type, to_string hdus, to_string per_hdu, to_string total_count, to_string bytes, to_string (c_elapsed c),
          rt_insert rt (Some mn), rt_insert rt (Some mx), rt_insert rt (chrono_mean c), rt_insert rt (chrono_stdev c), samples])))"

text \<open>A measure and its row; exceptions are caught, undefined behaviour is not.\<close>

definition measure_row :: "('s, chrono) bio \<Rightarrow> (chrono \<Rightarrow> 's \<Rightarrow> string list result) \<Rightarrow> csv \<times> 's bench \<Rightarrow> (csv \<times> 's bench) result option" where
  "measure_row run row = (\<lambda>(out, b).
     Option.bind (run b) (\<lambda>(b', r).
       case rbind r (\<lambda>c. row c (b_world b')) of
         Inl Undefined \<Rightarrow> Some (Inl Undefined)
       | Inl e \<Rightarrow> Some (Inr (out, b'))
       | Inr vs \<Rightarrow> Some (Inr (csv_write_row vs out, b'))))"

definition then_measure :: "(csv \<times> 's bench) result option \<Rightarrow> (csv \<times> 's bench \<Rightarrow> (csv \<times> 's bench) result option) \<Rightarrow> (csv \<times> 's bench) result option" where
  "then_measure m k = Option.bind m (\<lambda>r. case r of Inl e \<Rightarrow> Some (Inl e) | Inr s \<Rightarrow> k s)"

definition image_row :: "('w, 'f) runtime \<Rightarrow> benchmark_args \<Rightarrow> ('s \<Rightarrow> 'w) \<Rightarrow> string \<Rightarrow> chrono \<Rightarrow> 's \<Rightarrow> string list result" where
  "image_row rt args world_of mode c s =
     rbind (int_times (arg_images args) (arg_pixels args)) (\<lambda>total_count.
     rbind (rt_file_size rt (arg_output args) (world_of s)) (\<lambda>bytes.
     result_row rt (arg_setup args) mode ''Image'' (arg_images args) (arg_pixels args) total_count bytes c))"

definition table_row :: "('w, 'f) runtime \<Rightarrow> benchmark_args \<Rightarrow> ('s \<Rightarrow> 'w) \<Rightarrow> string \<Rightarrow> chrono \<Rightarrow> 's \<Rightarrow> string list result" where
  "table_row rt args world_of mode c s =
     (let ColumnCount = length bcolumn_types in
      rbind (int_times (arg_tables args) (arg_rows args)) (\<lambda>fields.
      rbind (rt_file_size rt (arg_output args) (world_of s)) (\<lambda>bytes.
      result_row rt (arg_setup args) mode ''Binary table'' (arg_tables args) (size_times (arg_rows args) ColumnCount) (size_times fields ColumnCount) bytes c)))"

definition random_image :: "('w, 'f) runtime \<Rightarrow> int \<Rightarrow> payload raster result" where
  "random_image rt pixels =
     rbind (half_min (rt_rounding rt) TLong) (\<lambda>mn. rbind (half_max (rt_rounding rt) TLong) (\<lambda>mx.
     random_raster (rt_rounding rt) (rt_uniform rt) (rt_seeds rt 0) TLong 1 [pixels] mn mx))"

text \<open>The columns of a random table that have the types of the benchmark.\<close>

definition random_columns :: "('w, 'f) runtime \<Rightarrow> int \<Rightarrow> typed_column list result" where
  "random_columns rt rows =
     rbind (random_table (rt_rounding rt) (rt_uniform rt) (rt_seeds rt) 1 rows) (\<lambda>table.
     Inr (map (\<lambda>t. (t, the (map_of (zip (map fst column_types) table) t))) bcolumn_types))"

definition run_images :: "('w, 'f) runtime \<Rightarrow> 's bench_ops \<Rightarrow> ('s \<Rightarrow> 'w) \<Rightarrow> benchmark_args \<Rightarrow> csv \<times> 's bench \<Rightarrow> (csv \<times> 's bench) result option" where
  "run_images rt ops world_of args s =
     (case random_image rt (arg_pixels args) of
        Inl e \<Rightarrow> Some (Inl e)
      | Inr raster \<Rightarrow>
          then_measure (measure_row (write_images ops (arg_images args) raster) (image_row rt args world_of ''Write'') s)
            (measure_row (read_images ops 1 (arg_images args)) (image_row rt args world_of ''Read'')))"

definition run_tables :: "('w, 'f) runtime \<Rightarrow> 's bench_ops \<Rightarrow> ('s \<Rightarrow> 'w) \<Rightarrow> benchmark_args \<Rightarrow> csv \<times> 's bench \<Rightarrow> (csv \<times> 's bench) result option" where
  "run_tables rt ops world_of args s =
     (case random_columns rt (arg_rows args) of
        Inl e \<Rightarrow> Some (Inl e)
      | Inr columns \<Rightarrow>
          then_measure (measure_row (write_bintables ops (arg_tables args) columns) (table_row rt args world_of ''Write'') s)
            (measure_row (read_bintables ops (1 + arg_images args) (arg_tables args)) (table_row rt args world_of ''Read'')))"

definition no_hdu :: string where
  "no_hdu = ''Test case not implemented: There should be either a positive number of image HDUs or a positive number of binary table HDUs''"

text \<open>The measures, and the destruction of the benchmark; an error leaves the text as it was before the measures.\<close>

definition run_setup ::
  "('w, 'f) runtime \<Rightarrow> 's bench_ops \<Rightarrow> ('s \<Rightarrow> 'w) \<Rightarrow> ('s \<Rightarrow> 's \<times> unit result) \<Rightarrow> benchmark_args \<Rightarrow> string \<Rightarrow> 's \<Rightarrow> (string \<times> unit result) option" where
  "run_setup rt ops world_of destroy args txt s =
     (let out = csv_init txt result_header [CHR 0x09]; b = \<lparr>b_world = s, b_chrono = chrono_init 0, b_reads = 0\<rparr> in
      Option.bind (if arg_images args \<noteq> 0 then run_images rt ops world_of args (out, b)
                   else if arg_tables args \<noteq> 0 then run_tables rt ops world_of args (out, b)
                   else Some (Inl (StdException no_hdu))) (\<lambda>r.
      Some (case r of
              Inl e \<Rightarrow> (csv_text out, Inl e)
            | Inr (out', b') \<Rightarrow> (csv_text out', snd (destroy (b_world b'))))))"

definition run_benchmark :: "('w, 'f) runtime \<Rightarrow> benchmark_args \<Rightarrow> string \<Rightarrow> 'w \<Rightarrow> (string \<times> unit result) option" where
  "run_benchmark rt args txt w =
     (let fs = rt_storage rt; api = rt_cfitsio rt; px = rt_pixels rt; cp = rt_compression rt; bt = rt_bintable rt; zero = rt_zero rt; clock = rt_clock rt in
      case rbind init_factory (\<lambda>reg. create_benchmark reg (arg_setup args) (arg_output args)) of
        Inl e \<Rightarrow> Some (txt, Inl e)
      | Inr (CfitsioSetup chunk, filename) \<Rightarrow>
          (case cfitsio_init fs api filename chunk w of
             (s, Inl e) \<Rightarrow> Some (txt, Inl e)
           | (s, Inr _) \<Rightarrow> run_setup rt (cfitsio_ops fs api px bt zero clock) cf_disk (cfitsio_destroy fs) args txt s)
      | Inr (EleFitsColwiseSetup, filename) \<Rightarrow>
          (case mef_init fs api (rt_date rt) filename Overwrite [] w of
             (s, Inl e) \<Rightarrow> Some (txt, Inl e)
           | (s, Inr _) \<Rightarrow> run_setup rt (colwise_ops fs api bt zero clock) fst (mef_close_impl fs api) args txt s)
      | Inr (EleFitsSetup, filename) \<Rightarrow>
          (case mef_init fs api (rt_date rt) filename Overwrite [] w of
             (s, Inl e) \<Rightarrow> Some (txt, Inl e)
           | (s, Inr _) \<Rightarrow> run_setup rt (elefits_ops fs api px cp bt zero clock) fst (mef_close_impl fs api) args txt s))"

section \<open>The results\<close>

text \<open>The text after rows of the right width have been appended to it.\<close>

definition appended :: "nat \<Rightarrow> csv \<Rightarrow> csv \<Rightarrow> bool" where
  "appended n out out' \<longleftrightarrow> (\<exists>rows. length rows \<le> n \<and> (\<forall>r \<in> set rows. length r = length result_header) \<and> out' = fold csv_write_row rows out)"

lemma appended_trans: "appended m a b \<Longrightarrow> appended n b c \<Longrightarrow> appended (m + n) a c"
proof -
  assume "appended m a b" "appended n b c"
  then obtain r1 r2 where "length r1 \<le> m" "length r2 \<le> n" "\<forall>r \<in> set (r1 @ r2). length r = length result_header" "c = fold csv_write_row (r1 @ r2) a"
    unfolding appended_def by fastforce
  then show ?thesis
    unfolding appended_def by (intro exI [of _ "r1 @ r2"]) simp
qed

lemma result_row_length: "result_row rt nm mode ty h p t b c = Inr vs \<Longrightarrow> length vs = length result_header"
  by (auto simp: result_row_def result_header_def rbind_def split: sum.splits)

lemma image_row_length: "image_row rt args world_of mode c s = Inr vs \<Longrightarrow> length vs = length result_header"
  by (auto simp: image_row_def rbind_def result_row_length split: sum.splits)

lemma table_row_length: "table_row rt args world_of mode c s = Inr vs \<Longrightarrow> length vs = length result_header"
  by (auto simp: table_row_def Let_def rbind_def result_row_length split: sum.splits)

lemma measure_row_appends:
  assumes "\<And>c s vs. row c s = Inr vs \<Longrightarrow> length vs = length result_header" and "measure_row run row (out, b) = Some (Inr (out', b'))"
  shows "appended 1 out out'"
proof -
  obtain b1 r where "run b = Some (b1, r)" and r: "(case rbind r (\<lambda>c. row c (b_world b1)) of Inl Undefined \<Rightarrow> Some (Inl Undefined)
       | Inl e \<Rightarrow> Some (Inr (out, b1)) | Inr vs \<Rightarrow> Some (Inr (csv_write_row vs out, b1))) = Some (Inr (out', b'))"
    using assms(2) by (auto simp: measure_row_def bind_eq_Some_conv)
  show ?thesis
  proof (cases "rbind r (\<lambda>c. row c (b_world b1))")
    case (Inl e)
    then have "out' = out"
      using r by (cases e) auto
    then show ?thesis
      unfolding appended_def by (intro exI [of _ "[]"]) simp
  next
    case (Inr vs)
    then have "length vs = length result_header" "out' = csv_write_row vs out"
      using r assms(1) by (auto simp: rbind_def split: sum.splits)
    then show ?thesis
      unfolding appended_def by (intro exI [of _ "[vs]"]) simp
  qed
qed

lemma then_measure_appends:
  assumes "\<And>out' b'. m = Some (Inr (out', b')) \<Longrightarrow> appended 1 out out'"
    and "\<And>o1 b1 out' b'. k (o1, b1) = Some (Inr (out', b')) \<Longrightarrow> appended 1 o1 out'"
    and "then_measure m k = Some (Inr (out', b'))"
  shows "appended 2 out out'"
proof -
  obtain o1 b1 where "m = Some (Inr (o1, b1))" "k (o1, b1) = Some (Inr (out', b'))"
    using assms(3) by (cases m rule: option.exhaust, simp add: then_measure_def, cases "the m") (auto simp: then_measure_def)
  then show ?thesis
    using assms(1,2) appended_trans [of 1 out o1 1 out'] by (simp add: numeral_2_eq_2)
qed

lemma run_images_appends: "run_images rt ops world_of args (out, b) = Some (Inr (out', b')) \<Longrightarrow> appended 2 out out'"
  unfolding run_images_def
  by (auto split: sum.splits intro: then_measure_appends measure_row_appends [OF image_row_length])

lemma run_tables_appends: "run_tables rt ops world_of args (out, b) = Some (Inr (out', b')) \<Longrightarrow> appended 2 out out'"
  unfolding run_tables_def
  by (auto split: sum.splits intro: then_measure_appends measure_row_appends [OF table_row_length])

lemma run_setup_appends:
  assumes "run_setup rt ops world_of destroy args txt s = Some (txt', Inr ())"
  shows "\<exists>out'. txt' = csv_text out' \<and> appended 2 (csv_init txt result_header [CHR 0x09]) out'"
proof -
  let ?out = "csv_init txt result_header [CHR 0x09]" and ?b = "\<lparr>b_world = s, b_chrono = chrono_init 0, b_reads = 0\<rparr>"
  let ?run = "if arg_images args \<noteq> 0 then run_images rt ops world_of args (?out, ?b)
              else if arg_tables args \<noteq> 0 then run_tables rt ops world_of args (?out, ?b) else Some (Inl (StdException no_hdu))"
  obtain r where run: "?run = Some r" and r: "(txt', Inr ()) = (case r of Inl e \<Rightarrow> (csv_text ?out, Inl e) | Inr (out', b') \<Rightarrow> (csv_text out', snd (destroy (b_world b'))))"
    using assms unfolding run_setup_def Let_def bind_eq_Some_conv by auto
  then obtain out' b' where "r = Inr (out', b')" "txt' = csv_text out'"
    by (cases r) auto
  then show ?thesis
    using run run_images_appends run_tables_appends by (metis Inr_not_Inl option.inject)
qed

lemma factory_setups: "rbind init_factory (\<lambda>reg. create_benchmark reg key filename) = Inr p \<Longrightarrow>
    key \<in> {''CFITSIO row-wise'', ''CFITSIO column-wise'', ''CFITSIO optimal'', ''EleFits column-wise'', ''EleFits optimal''}"
  by (auto simp: init_factory_def register_benchmark_maker_def create_benchmark_def split: if_splits)

lemma run_setup_measures: "run_setup rt ops world_of destroy args txt s = Some (txt', Inr ()) \<Longrightarrow>
    (\<exists>out'. txt' = csv_text out' \<and> appended 2 (csv_init txt result_header [CHR 0x09]) out') \<and> (arg_images args \<noteq> 0 \<or> arg_tables args \<noteq> 0)"
  using run_setup_appends by (auto simp: run_setup_def Let_def)

text \<open>
  The program ends without an error only for one of its five setups and a number of images or of tables, and it has then appended to the text of the results, with
  their header if there was no text, at most one row for the writing and one for the reading, each with a value for each title of the header.\<close>

theorem benchmark_results:
  assumes "run_benchmark rt args txt w = Some (txt', Inr ())"
  shows "(\<exists>rows. length rows \<le> 2 \<and> (\<forall>r \<in> set rows. length r = length result_header) \<and>
            txt' = csv_text (fold csv_write_row rows (csv_init txt result_header [CHR 0x09]))) \<and>
         (arg_images args \<noteq> 0 \<or> arg_tables args \<noteq> 0) \<and>
         arg_setup args \<in> {''CFITSIO row-wise'', ''CFITSIO column-wise'', ''CFITSIO optimal'', ''EleFits column-wise'', ''EleFits optimal''}"
proof -
  obtain kind filename where p: "rbind init_factory (\<lambda>reg. create_benchmark reg (arg_setup args) (arg_output args)) = Inr (kind, filename)"
    using assms by (cases "rbind init_factory (\<lambda>reg. create_benchmark reg (arg_setup args) (arg_output args))") (auto simp: run_benchmark_def Let_def)
  have "(\<exists>out'. txt' = csv_text out' \<and> appended 2 (csv_init txt result_header [CHR 0x09]) out') \<and> (arg_images args \<noteq> 0 \<or> arg_tables args \<noteq> 0)"
    using assms by (cases kind) (auto simp: run_benchmark_def Let_def p split: prod.splits sum.splits dest!: run_setup_measures)
  then show ?thesis
    using factory_setups [OF p] unfolding appended_def by blast
qed

text \<open>A benchmark of one image of three pixels, on files that keep nothing but their names.\<close>

definition bench_runtime :: "bool compression_api \<Rightarrow> bool bintable_api \<Rightarrow> (string list, bool) runtime" where
  "bench_runtime cp bt =
     \<lparr>rt_storage = disk\<lparr>fs_open_file := \<lambda>n m w. ((w, True), 0)\<rparr>, rt_cfitsio = disk_api\<lparr>api_get_img_size := \<lambda>f. ([3], 0)\<rparr>,
      rt_pixels = disk_pixels\<lparr>px_read_img := \<lambda>t first n f. (replicate (nat n) (IntVal 7), 0)\<rparr>, rt_compression = cp, rt_bintable = bt, rt_zero = IntVal 0,
      rt_clock = (\<lambda>k. 3000000 * int k), rt_rounding = (\<lambda>t x. x), rt_uniform = (\<lambda>seed a b k. 1), rt_seeds = (\<lambda>i j. 0), rt_date = ''today'',
      rt_file_size = (\<lambda>n w. Inr 5760), rt_insert = (\<lambda>x. ''t''), rt_to_string = (\<lambda>x. ''t'')\<rparr>"

definition bench_args :: benchmark_args where
  "bench_args = \<lparr>arg_setup = ''EleFits optimal'', arg_images = 1, arg_pixels = 3, arg_tables = 0, arg_rows = 1, arg_output = ''a''\<rparr>"


definition bench_start :: "(string list \<times> bool mef_file) bench" where
  "bench_start =
     \<lparr>b_world = ([''!a''], \<lparr>m_fptr = Some True, m_filename = ''a'', m_permission = Overwrite, m_hdus = [None], m_compression = [], m_actions = [CiteEleFits ''today'']\<rparr>),
      b_chrono = chrono_init 0, b_reads = 0\<rparr>"

definition both_ways :: "bool compression_api \<Rightarrow> bool bintable_api \<Rightarrow> (string list \<times> bool mef_file, real list \<times> real list \<times> unit result) bio" where
  "both_ways cp bt =
     (let rt = bench_runtime cp bt; ops = elefits_ops (rt_storage rt) (rt_cfitsio rt) (rt_pixels rt) cp bt (rt_zero rt) (rt_clock rt) in
      lio_bind (write_images ops 1 (makeRaster (replicate 3 (IntVal 1)) [3])) (\<lambda>c1. lio_bind (read_images ops 1 1) (\<lambda>c2 s.
        Some (s, Inr (c_incs c1, c_incs c2, snd (mef_close_impl (rt_storage rt) (rt_cfitsio rt) (b_world s)))))))"

lemma bench_image: "random_image (bench_runtime cp bt) 3 = Inr (makeRaster (replicate 3 (IntVal 1)) [3])"
  by (simp add: random_image_def bench_runtime_def half_min_def half_max_def any_bound_def scalar_bound_def random_raster_def generate_random_vector_def
      generate_random_scalars_def to_real_def is_complex_type_def shapeSize_def makeRaster_def cast_real_def upt_rec trunc_real_def numeral_eq_Suc)

lemma bench_created: "mef_init (rt_storage (bench_runtime cp bt)) (rt_cfitsio (bench_runtime cp bt)) ''today'' ''a'' Overwrite [] [] = (b_world bench_start, Inr ())"
  by code_simp

lemma bench_both_ways: "map_option snd (both_ways cp bt bench_start) = Some (Inr ([3], [3], Inr ()))"
  by code_simp

lemma bench_row: "c_incs c = [3] \<Longrightarrow> \<exists>vs. image_row (bench_runtime cp bt) bench_args fst mode c s = Inr vs"
  by (simp add: image_row_def bench_runtime_def bench_args_def int_times_def result_row_def chrono_min_def chrono_max_def join_def)

lemma bench_runs: "\<exists>txt'. run_benchmark (bench_runtime cp bt) bench_args [] [] = Some (txt', Inr ())"
proof -
  let ?rt = "bench_runtime cp bt" and ?raster = "makeRaster (replicate 3 (IntVal 1)) [3]"
  let ?ops = "elefits_ops (rt_storage ?rt) (rt_cfitsio ?rt) (rt_pixels ?rt) cp bt (rt_zero ?rt) (rt_clock ?rt)"
  obtain s where "both_ways cp bt bench_start = Some (s, Inr ([3], [3], Inr ()))"
    using bench_both_ways [of cp bt] by auto
  then obtain b1 c1 b2 c2 where 1: "write_images ?ops 1 ?raster bench_start = Some (b1, Inr c1)" "c_incs c1 = [3]"
      and 2: "read_images ?ops 1 1 b1 = Some (b2, Inr c2)" "c_incs c2 = [3]" and close: "snd (mef_close_impl (rt_storage ?rt) (rt_cfitsio ?rt) (b_world b2)) = Inr ()"
    by (auto simp: both_ways_def Let_def lio_bind_success)
  obtain vs1 vs2 where row: "image_row ?rt bench_args fst ''Write'' c1 (b_world b1) = Inr vs1" "image_row ?rt bench_args fst ''Read'' c2 (b_world b2) = Inr vs2"
    using bench_row 1(2) 2(2) by blast
  have "measure_row (write_images ?ops 1 ?raster) (image_row ?rt bench_args fst ''Write'') (out, bench_start) = Some (Inr (csv_write_row vs1 out, b1))"
      "measure_row (read_images ?ops 1 1) (image_row ?rt bench_args fst ''Read'') (out, b1) = Some (Inr (csv_write_row vs2 out, b2))" for out
    using 1(1) 2(1) row by (simp_all add: measure_row_def)
  moreover have "arg_images bench_args = 1" "arg_pixels bench_args = 3"
    by (simp_all add: bench_args_def)
  ultimately have "run_images ?rt ?ops fst bench_args (out, bench_start) = Some (Inr (csv_write_row vs2 (csv_write_row vs1 out), b2))" for out
    by (simp add: run_images_def bench_image then_measure_def)
  moreover have "rbind init_factory (\<lambda>reg. create_benchmark reg ''EleFits optimal'' ''a'') = Inr (EleFitsSetup, ''a'')"
    by (simp add: init_factory_def register_benchmark_maker_def create_benchmark_def)
  moreover have "bench_start = \<lparr>b_world = b_world bench_start, b_chrono = chrono_init 0, b_reads = 0\<rparr>"
    by (simp add: bench_start_def)
  moreover have "rt_compression ?rt = cp" "rt_bintable ?rt = bt" "rt_date ?rt = ''today''"
    by (simp_all add: bench_runtime_def)
  moreover have "arg_setup bench_args = ''EleFits optimal''" "arg_output bench_args = ''a''" "arg_images bench_args \<noteq> 0"
    by (simp_all add: bench_args_def)
  ultimately show ?thesis
    using bench_created [of cp bt] close by (simp add: run_benchmark_def run_setup_def Let_def)
qed

theorem benchmark_results_witness:
  "\<forall>cp bt. \<exists>txt' rows. run_benchmark (bench_runtime cp bt) bench_args [] [] = Some (txt', Inr ()) \<and> length rows \<le> 2 \<and>
     txt' = csv_text (fold csv_write_row rows (csv_init [] result_header [CHR 0x09]))"
proof (intro allI)
  fix cp bt
  obtain txt' where run: "run_benchmark (bench_runtime cp bt) bench_args [] [] = Some (txt', Inr ())"
    using bench_runs by blast
  then show "\<exists>txt' rows. run_benchmark (bench_runtime cp bt) bench_args [] [] = Some (txt', Inr ()) \<and> length rows \<le> 2 \<and>
     txt' = csv_text (fold csv_write_row rows (csv_init [] result_header [CHR 0x09]))"
    using benchmark_results [OF run, THEN conjunct1] by auto
qed

end
