(* ===== verification/Fits_CompressionBenchmark.thy ===== *)
theory Fits_CompressionBenchmark
  imports Fits_Programs Fits_RunBenchmark
begin

text \<open>
  The program \<^verbatim>\<open>EleFitsRunCompressionBenchmark\<close>: it copies a file with a compression strategy, and writes sizes and times for each image and for the file to
  tables in text.
\<close>

section \<open>The strategy\<close>

text \<open>The algorithms are constructed in any case.\<close>

definition strategy_items :: "string \<Rightarrow> bool \<Rightarrow> strategy_item list result" where
  "strategy_items test_case lossy =
     rbind (if lossy then scaling_divide tile_rms 16 else scaling_init 0 Absolute) (\<lambda>level.
     rbind (quantization_of level) (\<lambda>q.
     rbind (if lossy then scaling_times tile_rms (5 / 2) else scaling_init 0 Absolute) (\<lambda>s.
     rbind (compression_init Plio (tile_rowwise 1) q) (\<lambda>plio.
     rbind (hcompress_init (tile_rowwise 16) q s) (\<lambda>hc.
     rbind (compression_init Rice (tile_rowwise 1) q) (\<lambda>rice.
     rbind (compression_init ShuffledGzip (tile_rowwise 1) q) (\<lambda>sgzip.
     rbind (compression_init Gzip (tile_rowwise 1) q) (\<lambda>gzip.
     if test_case = ''AUTO'' then Inr [ItemCompression (CompressAuto (if lossy then Lossy else Lossless))]
     else if test_case = ''FULL'' then Inr (map ItemAlgorithm [plio, hc, rice, sgzip])
     else if test_case = ''GZIP'' then Inr (map ItemAlgorithm [gzip])
     else if test_case = ''SHUFFLEDGZIP'' then Inr (map ItemAlgorithm [sgzip])
     else if test_case = ''RICE'' then Inr (map ItemAlgorithm [rice, sgzip])
     else if test_case = ''HCOMPRESS'' then Inr (map ItemAlgorithm [hc, sgzip])
     else if test_case = ''PLIO'' then Inr (map ItemAlgorithm [plio, sgzip])
     else if test_case \<noteq> ''NONE'' then Inl (FitsError (''Unknown test case: '' @ test_case))
     else Inr []))))))))"

definition set_strategy :: "string \<Rightarrow> bool \<Rightarrow> ('f, unit) mio" where
  "set_strategy test_case lossy = io_bind (io_lift (strategy_items test_case lossy)) (\<lambda>items s. (strategy_append items s, Inr ()))"

section \<open>What is measured\<close>

fun bitpix_among :: "'f cfitsio \<Rightarrow> value_type list \<Rightarrow> ('f, int) hio" where
  "bitpix_among api [] = io_return 0"
| "bitpix_among api (t # ts) = io_bind (raster_read_typeid api) (\<lambda>t'. if t' = t then io_return (the (bitpix t)) else bitpix_among api ts)"

definition algo_name :: "compression \<Rightarrow> string" where
  "algo_name algo =
     (let prefix = (if is_lossless algo then ''Lossless '' else ''Lossy '') in
      case c_algo algo of
        Gzip \<Rightarrow> prefix @ ''GZIP''
      | ShuffledGzip \<Rightarrow> prefix @ ''SHUFFLEDGZIP''
      | Rice \<Rightarrow> prefix @ ''RICE''
      | HCompress \<Rightarrow> prefix @ ''HCOMPRESS''
      | Plio \<Rightarrow> prefix @ ''PLIO''
      | NoCompression \<Rightarrow> ''Unknown'')"

definition read_algo_name :: "'f cfitsio \<Rightarrow> 'f \<times> hdu \<Rightarrow> (('f \<times> hdu) \<times> string result) option" where
  "read_algo_name api s =
     (case hdu_is_compressed api s of
        (s', Inl e) \<Rightarrow> Some (s', Inl e)
      | (s', Inr False) \<Rightarrow> Some (s', Inr ''NONE'')
      | (s', Inr True) \<Rightarrow> map_option (\<lambda>(s2, r). (s2, rbind r (\<lambda>algo. Inr (algo_name algo)))) (read_compression api s'))"

definition join_string :: "string list \<Rightarrow> string \<Rightarrow> string result" where
  "join_string values sep = (case values of [] \<Rightarrow> Inl Undefined | v # vs \<Rightarrow> Inr (foldl (\<lambda>a b. a @ sep @ b) v vs))"

text \<open>A quotient of numbers, \<open>None\<close> where it is infinite or not a number.\<close>

definition quotient :: "real \<Rightarrow> real \<Rightarrow> real option" where
  "quotient a b = (if b = 0 then None else Some (a / b))"

section \<open>The copy\<close>

text \<open>The local variables of the program: both files, the chronometer and the number of readings of the clock, the table of images, and the vectors.\<close>

record 'f cbench =
  cb_files :: "'f mef_file \<times> 'f mef_file"
  cb_chrono :: chrono
  cb_reads :: nat
  cb_rows :: csv
  cb_algos :: "string list"
  cb_bitpixs :: "int list"
  cb_sizes :: "int list"
  cb_zsizes :: "int list"
  cb_ratios :: "real option list"
  cb_counter :: int

definition on_files :: "('f, 'a) pio \<Rightarrow> ('f cbench, 'a) lio" where
  "on_files m s = (case m (cb_files s) of (fs, r) \<Rightarrow> Some (s\<lparr>cb_files := fs\<rparr>, r))"

definition on_output_loop :: "nat \<Rightarrow> ('f \<times> hdu \<Rightarrow> (('f \<times> hdu) \<times> 'a result) option) \<Rightarrow> ('f cbench, 'a) lio" where
  "on_output_loop k m s =
     (case cb_files s of (f, g) \<Rightarrow> map_option (\<lambda>(g', r). (s\<lparr>cb_files := (f, g')\<rparr>, r)) (with_hdu_loop k m g))"

definition start_timer :: "(nat \<Rightarrow> int) \<Rightarrow> ('f cbench, unit) lio" where
  "start_timer clock s = Some (s\<lparr>cb_chrono := chrono_start (clock (cb_reads s)) (cb_chrono s), cb_reads := Suc (cb_reads s)\<rparr>, Inr ())"

definition stop_timer :: "(nat \<Rightarrow> int) \<Rightarrow> ('f cbench, unit) lio" where
  "stop_timer clock s = Some (s\<lparr>cb_chrono := fst (chrono_stop 1000000 (clock (cb_reads s)) (cb_chrono s)), cb_reads := Suc (cb_reads s)\<rparr>, Inr ())"

definition write_hdu_row :: "(real option \<Rightarrow> string) \<Rightarrow> string \<Rightarrow> string \<Rightarrow> bool \<Rightarrow> int \<Rightarrow> string \<Rightarrow> int \<Rightarrow> int \<Rightarrow> ('f cbench, unit) lio" where
  "write_hdu_row shown input test_case lossy pix algo bytes zbytes s =
     Some (case chrono_last (cb_chrono s) of
             Inl e \<Rightarrow> (s, Inl e)
           | Inr ms \<Rightarrow> (s\<lparr>cb_rows := csv_write_row
               [input, test_case, if lossy then ''1'' else ''0'', to_string pix, algo, to_string bytes, to_string zbytes, shown (quotient bytes zbytes), to_string ms,
                shown (map_option (\<lambda>x. x / 1000) (quotient bytes ms))] (cb_rows s)\<rparr>, Inr ()))"

definition push_hdu_values :: "int \<Rightarrow> string \<Rightarrow> int \<Rightarrow> int \<Rightarrow> ('f cbench, unit) lio" where
  "push_hdu_values pix algo bytes zbytes s =
     Some (s\<lparr>cb_bitpixs := cb_bitpixs s @ [pix], cb_sizes := cb_sizes s @ [bytes], cb_zsizes := cb_zsizes s @ [zbytes],
             cb_ratios := cb_ratios s @ [quotient bytes zbytes], cb_algos := cb_algos s @ [algo], cb_counter := cb_counter s + 1\<rparr>, Inr ())"

definition as_image :: "('f, 'a) hio \<Rightarrow> ('f, 'a) hio" where
  "as_image m = io_then (\<lambda>(f, h). ((f, h), cast_handler ClassImageHdu h)) m"

definition copy_hdu ::
  "('w, 'f) runtime \<Rightarrow> ('f \<Rightarrow> 'f \<Rightarrow> 'f \<times> int) \<Rightarrow> (string \<Rightarrow> real result) \<Rightarrow> string \<Rightarrow> string \<Rightarrow> bool \<Rightarrow> nat \<Rightarrow> ('f cbench, unit) lio" where
  "copy_hdu rt copy stod input test_case lossy j =
     (let api = rt_cfitsio rt; px = rt_pixels rt in
      lio_bind (on_files (on_raw (with_hdu j (\<lambda>(f, h). ((f, h), Inr (m_type h)))))) (\<lambda>ty.
      lio_then (start_timer (rt_clock rt))
     (lio_bind (on_files (with_raw_hdu j (mef_append api px copy api px (rt_compression rt) (rt_zero rt) stod ClassHdu))) (\<lambda>k.
      lio_then (stop_timer (rt_clock rt))
     (lio_bind (if ty = Bintable then lio_lift (Inr 0) else on_files (on_raw (with_hdu j (as_image (bitpix_among api raster_types))))) (\<lambda>pix.
      lio_bind (on_files (on_raw (with_hdu j (size_in_file api)))) (\<lambda>bytes.
      lio_bind (on_files (on_compressed (with_hdu k (size_in_file api)))) (\<lambda>zbytes.
      lio_bind (if ty = Bintable then lio_lift (Inr ''NONE'')
                else lio_then (on_files (on_compressed (with_hdu k (as_image (io_return ())))))
                    (lio_bind (on_output_loop k (read_algo_name api)) (\<lambda>algo.
                     lio_then (write_hdu_row (rt_insert rt) input test_case lossy pix algo bytes zbytes) (lio_lift (Inr algo))))) (\<lambda>algo.
      push_hdu_values pix algo bytes zbytes)))))))))"

text \<open>The range-based loop over the input, as \<open>hdu_loop\<close>: its body works on both files.\<close>

fun copy_visit :: "nat \<Rightarrow> nat \<Rightarrow> 'f cfitsio \<Rightarrow> (nat \<Rightarrow> ('f cbench, unit) lio) \<Rightarrow> int \<Rightarrow> int option \<Rightarrow> ('f cbench, unit) lio" where
  "copy_visit n fuel api body stop None s = Some (s, Inl Undefined)"
| "copy_visit 0 fuel api body stop (Some it) s = Some (s, Inl Undefined)"
| "copy_visit (Suc n) fuel api body stop (Some it) s =
     (if it = stop then Some (s, Inr ())
      else lio_then (body (nat it)) (lio_bind (on_files (on_raw (hdu_next fuel api (filter_of Any) it))) (copy_visit n fuel api body stop)) s)"

definition copy_loop :: "'f cfitsio \<Rightarrow> (nat \<Rightarrow> ('f cbench, unit) lio) \<Rightarrow> ('f cbench, unit) lio" where
  "copy_loop api body s =
     (let f = fst (cb_files s); fuel = Suc (length (m_hdus f)) in
      lio_bind (on_files (on_raw (hdu_next fuel api (filter_of Any) (- 1)))) (copy_visit fuel fuel api body (mef_hdu_count f)) s)"

text \<open>The program up to the closing of the files, from the opening of the input on.\<close>

definition copy_file ::
  "('w, 'f) runtime \<Rightarrow> ('f \<Rightarrow> 'f \<Rightarrow> 'f \<times> int) \<Rightarrow> (string \<Rightarrow> real result) \<Rightarrow> string \<Rightarrow> string \<Rightarrow> bool \<Rightarrow> 'f mef_file \<times> 'f mef_file \<Rightarrow> csv \<Rightarrow>
     ('f cbench \<times> unit result) option" where
  "copy_file rt copy stod input test_case lossy files rows =
     lio_then (on_files (on_compressed (set_strategy test_case lossy)))
       (copy_loop (rt_cfitsio rt) (copy_hdu rt copy stod input test_case lossy))
       \<lparr>cb_files = files, cb_chrono = chrono_init 0, cb_reads = 1, cb_rows = rows, cb_algos = [], cb_bitpixs = [], cb_sizes = [], cb_zsizes = [], cb_ratios = [],
        cb_counter = 0\<rparr>"

definition file_header :: "string list" where
  "file_header =
     [''Filename'', ''Case'', ''Lossy'', ''ExtGZIP'', ''File size (bytes)'', ''Compressed size (bytes)'', ''Compression ratio'', ''Walltime (ms)'', ''HDU count'',
      ''HDU bitpixs'', ''Comptypes'', ''HDU sizes (bytes)'', ''HDU compressed sizes (bytes)'', ''HDU ratios'', ''Elapsed (ms)'']"

definition hdu_header :: "string list" where
  "hdu_header =
     [''Filename'', ''Case'', ''Lossy'', ''Bitpix'', ''Comptype'', ''HDU size (bytes)'', ''HDU compressed size (bytes)'', ''Compression ratio'', ''Elapsed (ms)'',
      ''Throughput (MB/s)'']"

text \<open>\<^verbatim>\<open>std::to_string\<close> of a quotient, by a function on those that are not finite as well.\<close>

definition file_row ::
  "('w, 'f) runtime \<Rightarrow> (real option \<Rightarrow> string) \<Rightarrow> string \<Rightarrow> string \<Rightarrow> bool \<Rightarrow> bool \<Rightarrow> int \<Rightarrow> int \<Rightarrow> int \<Rightarrow> 'f cbench \<Rightarrow> string list result" where
  "file_row rt ratio_text input test_case lossy ext_gzip input_size output_size walltime s =
     rbind (join_string (map to_string (cb_bitpixs s)) '','') (\<lambda>pixs.
     rbind (join_string (cb_algos s) '','') (\<lambda>algos.
     rbind (join_string (map to_string (cb_sizes s)) '','') (\<lambda>sizes.
     rbind (join_string (map to_string (cb_zsizes s)) '','') (\<lambda>zsizes.
     rbind (join_string (map ratio_text (cb_ratios s)) '','') (\<lambda>ratios.
     rbind (join (rt_to_string rt) (c_incs (cb_chrono s)) '','') (\<lambda>times.
     Inr [input, test_case, if lossy then ''1'' else ''0'', if ext_gzip then ''1'' else ''0'', to_string input_size, to_string output_size,
          rt_insert rt (quotient input_size output_size), to_string walltime, to_string (cb_counter s), pixs, algos, sizes, zsizes, ratios, times]))))))"

definition close_both :: "('w, 'f) runtime \<Rightarrow> 'w \<Rightarrow> 'f cbench \<Rightarrow> 'w \<times> unit result" where
  "close_both rt w s =
     (case cb_files s of (f, g) \<Rightarrow>
      case mef_close_impl (rt_storage rt) (rt_cfitsio rt) (w, f) of
        ((w1, _), Inl e) \<Rightarrow> (w1, Inl e)
      | ((w1, _), Inr _) \<Rightarrow> (case mef_close_impl (rt_storage rt) (rt_cfitsio rt) (w1, g) of ((w2, _), r) \<Rightarrow> (w2, r)))"

text \<open>The texts of both tables, as the program leaves them, with its outcome.\<close>

definition run_compression_benchmark ::
  "('w, 'f) runtime \<Rightarrow> ('f \<Rightarrow> 'f \<Rightarrow> 'f \<times> int) \<Rightarrow> (string \<Rightarrow> real result) \<Rightarrow> (real option \<Rightarrow> string) \<Rightarrow> string \<Rightarrow> string \<Rightarrow> string \<Rightarrow> bool \<Rightarrow> bool \<Rightarrow>
     string \<Rightarrow> string \<Rightarrow> 'w \<Rightarrow> ((string \<times> string) \<times> unit result) option" where
  "run_compression_benchmark rt copy stod ratio_text input output0 test_case lossy ext_gzip file_text hdu_text w =
     (let output = (if ext_gzip then output0 @ ''.gz'' else output0);
          writer = csv_init file_text file_header [CHR 0x09]; rows = csv_init hdu_text hdu_header [CHR 0x09];
          walltime = chrono_start (rt_clock rt 0) (chrono_init 0) in
      case mef_init (rt_storage rt) (rt_cfitsio rt) (rt_date rt) input Read [] w of
        ((w1, f), Inl e) \<Rightarrow> Some ((csv_text writer, csv_text rows), Inl e)
      | ((w1, f), Inr _) \<Rightarrow>
     (case mef_init (rt_storage rt) (rt_cfitsio rt) (rt_date rt) output Overwrite [] w1 of
        ((w2, g), Inl e) \<Rightarrow> Some ((csv_text writer, csv_text rows), Inl e)
      | ((w2, g), Inr _) \<Rightarrow>
     map_option (\<lambda>(s, r). case rbind r (\<lambda>_. case close_both rt w2 s of (w3, rc) \<Rightarrow> rbind rc (\<lambda>_.
           rbind (chrono_last (fst (chrono_stop 1000000 (rt_clock rt (cb_reads s)) walltime))) (\<lambda>ms.
           rbind (rt_file_size rt input w3) (\<lambda>input_size. rbind (rt_file_size rt output w3) (\<lambda>output_size.
           file_row rt ratio_text input test_case lossy ext_gzip input_size output_size ms s))))) of
         Inl e \<Rightarrow> ((csv_text writer, csv_text (cb_rows s)), Inl e)
       | Inr vs \<Rightarrow> ((csv_text (csv_write_row vs writer), csv_text (cb_rows s)), Inr ()))
       (copy_file rt copy stod input test_case lossy (f, g) rows)))"

section \<open>The test cases\<close>

definition test_cases :: "string list" where
  "test_cases = [''NONE'', ''FULL'', ''AUTO'', ''GZIP'', ''SHUFFLEDGZIP'', ''RICE'', ''HCOMPRESS'', ''PLIO'']"

lemmas strategy_defs = scaling_divide_def scaling_times_def scaling_init_def tile_rms_def scaling_default_def quantization_of_def quantization_init_def
  set_dithering_def compression_init_def hcompress_init_def set_quantization_def out_of_bounds_may_throw_def tile_rowwise_def is_identity_def scaling_bool_def

definition bench_quantization :: "bool \<Rightarrow> quantization" where
  "bench_quantization lossy = \<lparr>q_level = \<lparr>sc_type = if lossy then Inverse else Absolute, sc_value = if lossy then 16 else 0\<rparr>,
     q_dithering = if lossy then EveryPixel else NoDithering\<rparr>"

definition bench_algorithm :: "bool \<Rightarrow> algorithm \<Rightarrow> compression" where
  "bench_algorithm lossy a = \<lparr>c_algo = a, c_tiling = [- 1, if a = HCompress then 16 else 1], c_quantization = bench_quantization lossy,
     c_scale = if a = HCompress \<and> lossy then \<lparr>sc_type = Factor, sc_value = 5 / 2\<rparr> else \<lparr>sc_type = Absolute, sc_value = 0\<rparr>, c_smooth = False\<rparr>"

lemma strategy_items_run:
  "strategy_items test_case lossy =
     (let items = \<lambda>as. Inr (map (\<lambda>a. ItemAlgorithm (bench_algorithm lossy a)) as) in
      if test_case = ''AUTO'' then Inr [ItemCompression (CompressAuto (if lossy then Lossy else Lossless))]
      else if test_case = ''FULL'' then items [Plio, HCompress, Rice, ShuffledGzip]
      else if test_case = ''GZIP'' then items [Gzip]
      else if test_case = ''SHUFFLEDGZIP'' then items [ShuffledGzip]
      else if test_case = ''RICE'' then items [Rice, ShuffledGzip]
      else if test_case = ''HCOMPRESS'' then items [HCompress, ShuffledGzip]
      else if test_case = ''PLIO'' then items [Plio, ShuffledGzip]
      else if test_case \<noteq> ''NONE'' then Inl (FitsError (''Unknown test case: '' @ test_case))
      else Inr [])"
  by (cases lossy) (simp_all add: strategy_items_def strategy_defs bench_algorithm_def bench_quantization_def)

text \<open>What an item of the strategy may lose: nothing, unless the option says so.\<close>

fun item_keeps :: "bool \<Rightarrow> strategy_item \<Rightarrow> bool" where
  "item_keeps lossy (ItemAlgorithm c) \<longleftrightarrow> is_lossless c = (\<not> lossy)"
| "item_keeps lossy (ItemCompression (CompressAuto m)) \<longleftrightarrow> m = (if lossy then Lossy else Lossless)"
| "item_keeps lossy i \<longleftrightarrow> False"

lemma bench_algorithm_keeps: "is_lossless (bench_algorithm lossy a) = (\<not> lossy)"
  by (simp add: bench_algorithm_def bench_quantization_def is_lossless_def scaling_bool_def quantization_bool_def)


section \<open>One row for each HDU\<close>

text \<open>What runs that succeed add: HDUs to the output, increments to the chronometer, and elements to the vectors.\<close>

definition tallies :: "'f cbench \<Rightarrow> int list" where
  "tallies s = cb_counter s # map int [length (cb_algos s), length (cb_bitpixs s), length (cb_sizes s), length (cb_zsizes s), length (cb_ratios s)]"

fun advances :: "nat \<times> nat \<times> nat \<Rightarrow> 'f cbench \<Rightarrow> 'f cbench \<Rightarrow> bool" where
  "advances (a, t, p) s s' \<longleftrightarrow> raw_count (cb_files s') = raw_count (cb_files s) \<and> compressed_count (cb_files s') = compressed_count (cb_files s) + a \<and>
     length (c_incs (cb_chrono s')) = length (c_incs (cb_chrono s)) + t \<and> tallies s' = map ((+) (int p)) (tallies s)"

fun add3 :: "nat \<times> nat \<times> nat \<Rightarrow> nat \<times> nat \<times> nat \<Rightarrow> nat \<times> nat \<times> nat" where
  "add3 (a, t, p) (b, u, q) = (a + b, t + u, p + q)"

lemma advances_sum: "advances a s s1 \<Longrightarrow> advances b s1 s2 \<Longrightarrow> advances (add3 a b) s s2"
  by (cases a; cases b) (auto simp: tallies_def)

interpretation copying: counted_runs advances "(0, 0, 0)" add3
  by unfold_locales (simp add: tallies_def, rule advances_sum)

lemma advances_files:
  "rises raw_count 0 m \<Longrightarrow> rises compressed_count n m \<Longrightarrow> succeeds_in (advances (n, 0, 0)) (on_files m)"
  by (fastforce simp: succeeds_in_def on_files_def rises_def tallies_def split: prod.splits)

lemma advances_timers: "succeeds_in (advances (0, 0, 0)) (start_timer clock)" "succeeds_in (advances (0, 1, 0)) (stop_timer clock)"
  by (auto simp: succeeds_in_def start_timer_def stop_timer_def chrono_start_def chrono_stop_def tallies_def Let_def)

lemma advances_push: "succeeds_in (advances (0, 0, 1)) (push_hdu_values pix algo bytes zbytes)"
  by (auto simp: succeeds_in_def push_hdu_values_def tallies_def)

lemma advances_row: "succeeds_in (advances (0, 0, 0)) (write_hdu_row shown input test_case lossy pix algo bytes zbytes)"
  by (auto simp: succeeds_in_def write_hdu_row_def tallies_def split: sum.splits)

lemma advances_output_loop: "succeeds_in (advances (0, 0, 0)) (on_output_loop k m)"
  by (auto simp: succeeds_in_def on_output_loop_def tallies_def split: prod.splits dest: with_hdu_loop_count)

lemma advances_sides:
  "grows 0 m \<Longrightarrow> succeeds_in (advances (0, 0, 0)) (on_files (on_raw m))" "grows 0 m \<Longrightarrow> succeeds_in (advances (0, 0, 0)) (on_files (on_compressed m))"
  by (intro advances_files rises_sides; assumption)+

lemma advances_append:
  "moves_documented api \<Longrightarrow> succeeds_in (advances (1, 0, 0)) (on_files (with_raw_hdu j (mef_append api px copy api px cp zero stod cls)))"
  by (intro advances_files rises_sides rises_with_raw_hdu rises_append)

lemma advances_copy_hdu:
  assumes "moves_documented (rt_cfitsio rt)"
  shows "succeeds_in (advances (1, 1, 1)) (copy_hdu rt copy stod input test_case lossy j)"
proof -
  let ?o = "(0, 0, 0) :: nat \<times> nat \<times> nat"
  have "succeeds_in (advances (add3 ?o (add3 ?o (add3 (1, 0, 0) (add3 (0, 1, 0) (add3 ?o (add3 ?o (add3 ?o (add3 ?o (0, 0, 1)))))))))) 
     (copy_hdu rt copy stod input test_case lossy j)"
    unfolding copy_hdu_def Let_def
  proof (intro copying.counted_bind copying.counted_then copying.counted_if copying.counted_lift advances_sides grows_with_hdu advances_timers advances_push
      advances_append assms)
    have "succeeds_in (advances (add3 ?o (add3 ?o (add3 ?o ?o)))) (lio_then (on_files (on_compressed (with_hdu k (as_image (io_return ())))))
        (lio_bind (on_output_loop k (read_algo_name (rt_cfitsio rt))) (\<lambda>algo.
         lio_then (write_hdu_row (rt_insert rt) input test_case lossy pix algo bytes zbytes) (lio_lift (Inr algo)))))" for k pix bytes zbytes
      by (intro copying.counted_bind copying.counted_then copying.counted_lift advances_sides grows_with_hdu advances_output_loop advances_row)
    then show "succeeds_in (advances ?o) (lio_then (on_files (on_compressed (with_hdu k (as_image (io_return ())))))
        (lio_bind (on_output_loop k (read_algo_name (rt_cfitsio rt))) (\<lambda>algo.
         lio_then (write_hdu_row (rt_insert rt) input test_case lossy pix algo bytes zbytes) (lio_lift (Inr algo)))))" for k pix bytes zbytes
      by (simp only: add3.simps add_0_right)
  qed
  then show ?thesis
    by (simp only: add3.simps add_0_left add_0_right)
qed

text \<open>The iterator without a filter stops at every HDU.\<close>

lemma isInstance_category_init: "isInstance c Any"
proof -
  have "transform2 restrictFlag c (replicate n Unconstrained) = (None, c)" for n
  proof (induction n arbitrary: c)
    case 0
    then show ?case
      by (cases c) simp_all
  next
    case (Suc n)
    then show ?case
      by (cases c) (auto simp: restrictFlag_def)
  qed
  then show ?thesis
    by (simp add: isInstance_def cat_restrict_def cat_restrict_assign_def Any_def category_init_def)
qed

lemma matches_any: "hdu_matches api (filter_of Any) fh = (fh', Inr b) \<Longrightarrow> b"
  by (auto simp: hdu_matches_def io_bind_success accepts_def filter_of_def isInstance_category_init)

lemma next_any:
  assumes "hdu_next (Suc fuel) api (filter_of Any) index s = (s', Inr r)"
  shows "r = Some (if index + 1 \<ge> mef_hdu_count s then mef_hdu_count s else index + 1)" "length (m_hdus s') = length (m_hdus s)"
proof -
  have b: "with_hdu i (hdu_matches api (filter_of Any)) s1 = (s2, Inr b) \<Longrightarrow> b" for i s1 s2 b
    by (auto simp: with_hdu_def split: option.splits prod.splits if_splits dest: matches_any)
  have len: "length (m_hdus s1) = length (m_hdus s)" if "mef_subscript api k s = (s1, x)" for k s1 x
    using keeps_mefD [OF keeps_subscript, of api k s] that by simp
  show "r = Some (if index + 1 \<ge> mef_hdu_count s then mef_hdu_count s else index + 1)" "length (m_hdus s') = length (m_hdus s)"
    using assms b len risesD [OF grows_with_hdu] by (auto simp: io_bind_success split: if_splits; fastforce)+
qed

lemma on_raw_next:
  assumes "on_files (on_raw (hdu_next (Suc fuel) api (filter_of Any) index)) s = Some (s', Inr r)"
  shows "r = Some (if index + 1 \<ge> int (raw_count (cb_files s)) then int (raw_count (cb_files s)) else index + 1)" "advances (0, 0, 0) s s'"
proof -
  have "grows 0 (hdu_next (Suc fuel) api (filter_of Any) index)"
    unfolding rises_def add_0_right using next_any(2) by blast
  from succeeds_inD [OF advances_sides(1) [OF this] assms] show "advances (0, 0, 0) s s'" .
  show "r = Some (if index + 1 \<ge> int (raw_count (cb_files s)) then int (raw_count (cb_files s)) else index + 1)"
    using assms by (cases "cb_files s") (auto simp: on_files_def on_raw_def mef_hdu_count_def simp del: hdu_next.simps split: prod.splits dest: next_any(1))
qed

lemma advances_visit:
  assumes body: "\<And>j. succeeds_in (advances (1, 1, 1)) (body j)"
  shows "copy_visit n (Suc fuel) api body stop (Some it) s = Some (s', Inr ()) \<Longrightarrow> stop = int (raw_count (cb_files s)) \<Longrightarrow> it \<le> stop \<Longrightarrow>
    advances (nat (stop - it), nat (stop - it), nat (stop - it)) s s'"
proof (induction n arbitrary: it s)
  case (Suc n)
  show ?case
  proof (cases "it = stop")
    case True
    then show ?thesis
      using Suc.prems(1) copying.stay by simp
  next
    case False
    then obtain s1 s2 r where 1: "body (nat it) s = Some (s1, Inr ())" and 2: "on_files (on_raw (hdu_next (Suc fuel) api (filter_of Any) it)) s1 = Some (s2, Inr r)"
        and 3: "copy_visit n (Suc fuel) api body stop r s2 = Some (s', Inr ())"
      using Suc.prems(1) by (auto simp: lio_then_def lio_bind_success simp del: hdu_next.simps)
    have here: "advances (1, 1, 1) s s1" "advances (0, 0, 0) s1 s2"
      using succeeds_inD [OF body 1] on_raw_next(2) [OF 2] by simp_all
    then have count: "stop = int (raw_count (cb_files s1))" "stop = int (raw_count (cb_files s2))"
      using Suc.prems(2) by simp_all
    have r: "r = Some (it + 1)"
      using on_raw_next(1) [OF 2] count(1) Suc.prems(3) False by auto
    have "advances (nat (stop - (it + 1)), nat (stop - (it + 1)), nat (stop - (it + 1))) s2 s'"
      using Suc.IH [OF 3 [unfolded r] count(2)] Suc.prems(3) False by simp
    moreover have "nat (stop - it) = 1 + nat (stop - (it + 1))"
      using Suc.prems(3) False by simp
    ultimately show ?thesis
      using advances_sum [OF advances_sum [OF here]] by fastforce
  qed
qed simp

lemma advances_copy_file:
  assumes "moves_documented (rt_cfitsio rt)" and run: "copy_file rt copy stod input test_case lossy (f, g) rows = Some (s, Inr ())"
  shows "compressed_count (cb_files s) = length (m_hdus g) + length (m_hdus f) \<and> length (c_incs (cb_chrono s)) = length (m_hdus f) \<and>
    tallies s = replicate 6 (int (length (m_hdus f)))"
proof -
  define s0 where "s0 = \<lparr>cb_files = (f, g), cb_chrono = chrono_init 0, cb_reads = 1, cb_rows = rows, cb_algos = [], cb_bitpixs = [], cb_sizes = [], cb_zsizes = [],
    cb_ratios = [], cb_counter = 0\<rparr>"
  let ?api = "rt_cfitsio rt" and ?body = "copy_hdu rt copy stod input test_case lossy" and ?n = "length (m_hdus f)"
  obtain s1 where 1: "on_files (on_compressed (set_strategy test_case lossy)) s0 = Some (s1, Inr ())" and 2: "copy_loop ?api ?body s1 = Some (s, Inr ())"
    using run unfolding copy_file_def s0_def [symmetric] lio_then_def lio_bind_success by auto
  have a: "advances (0, 0, 0) s0 s1"
    by (rule succeeds_inD [OF advances_sides(2) 1]) (auto simp: rises_def set_strategy_def io_bind_success strategy_append_handlers)
  then have count: "raw_count (cb_files s1) = ?n"
    by (simp add: s0_def)
  obtain f1 g1 where files: "cb_files s1 = (f1, g1)"
    by fastforce
  then have len: "length (m_hdus f1) = ?n"
    using count by simp
  obtain s2 r where 3: "on_files (on_raw (hdu_next (Suc ?n) ?api (filter_of Any) (- 1))) s1 = Some (s2, Inr r)"
      and 4: "copy_visit (Suc ?n) (Suc ?n) ?api ?body (int ?n) r s2 = Some (s, Inr ())"
    using 2 len files by (auto simp: copy_loop_def Let_def lio_bind_success mef_hdu_count_def simp del: hdu_next.simps copy_visit.simps)
  have b: "advances (0, 0, 0) s1 s2" and r: "r = Some 0"
    using on_raw_next [OF 3] count by auto
  have "int ?n = int (raw_count (cb_files s2))"
    using b count by simp
  from advances_visit [OF advances_copy_hdu [OF assms(1)] 4 [unfolded r] this]
  have "advances (?n, ?n, ?n) s2 s"
    by (simp del: advances.simps)
  from advances_sum [OF advances_sum [OF a b] this]
  have "advances (?n, ?n, ?n) s0 s"
    by (simp del: advances.simps)
  then show ?thesis
    by (simp add: s0_def tallies_def chrono_init_def chrono_reset_def eval_nat_numeral)
qed

lemma join_string_cons: "vs \<noteq> [] \<Longrightarrow> \<exists>t. join_string vs sep = Inr t"
  by (cases vs) (simp_all add: join_string_def)

lemma join_cons: "vs \<noteq> [] \<Longrightarrow> \<exists>t. join shown vs sep = Inr t"
  by (cases vs) (simp_all add: join_def)

text \<open>
  C32: If the compression benchmark copies a file with HDUs without an exception, the output has one more HDU for each of the input, the chronometer has as many increments, the counter
  and the vectors as many elements, whatever the compression; then the row of the file can be written, with a value for each title of the table.\<close>

theorem compression_benchmark_measures_every_hdu:
  assumes "moves_documented (rt_cfitsio rt)" and "m_hdus f \<noteq> []"
    and "copy_file rt copy stod input test_case lossy (f, g) rows = Some (s, Inr ())"
  shows "length (m_hdus (snd (cb_files s))) = length (m_hdus g) + length (m_hdus f) \<and> length (c_incs (cb_chrono s)) = length (m_hdus f) \<and>
    tallies s = replicate 6 (int (length (m_hdus f))) \<and>
    (\<exists>row. file_row rt ratio_text input test_case lossy ext_gzip input_size output_size walltime s = Inr row \<and> length row = length file_header)"
proof -
  let ?n = "length (m_hdus f)"
  have all: "compressed_count (cb_files s) = length (m_hdus g) + ?n" "length (c_incs (cb_chrono s)) = ?n" "tallies s = replicate 6 (int ?n)"
    using advances_copy_file [OF assms(1,3)] by simp_all
  have n: "?n \<noteq> 0"
    using assms(2) by simp
  then have "cb_algos s \<noteq> []" "cb_bitpixs s \<noteq> []" "cb_sizes s \<noteq> []" "cb_zsizes s \<noteq> []" "cb_ratios s \<noteq> []" "c_incs (cb_chrono s) \<noteq> []"
    using all(2,3) by (auto simp: tallies_def eval_nat_numeral)
  then have "\<exists>row. file_row rt ratio_text input test_case lossy ext_gzip input_size output_size walltime s = Inr row \<and> length row = length file_header"
    using join_string_cons [of "map to_string (cb_bitpixs s)" "'',''"] join_string_cons [of "cb_algos s" "'',''"] join_string_cons [of "map to_string (cb_sizes s)" "'',''"]
      join_string_cons [of "map to_string (cb_zsizes s)" "'',''"] join_string_cons [of "map ratio_text (cb_ratios s)" "'',''"]
      join_cons [of "c_incs (cb_chrono s)" "rt_to_string rt" "'',''"]
    by (auto simp: file_row_def file_header_def)
  then show ?thesis
    using all by (auto split: prod.splits)
qed

text \<open>A copy of an empty primary followed by a table, on files that are the number of their current HDU.\<close>

definition tape_runtime :: "('w, int) storage \<Rightarrow> (int, payload) pixel_api \<Rightarrow> int compression_api \<Rightarrow> int bintable_api \<Rightarrow> ('w, int) runtime" where
  "tape_runtime fs px cp bt =
     \<lparr>rt_storage = fs, rt_cfitsio = tape_api, rt_pixels = px, rt_compression = cp, rt_bintable = bt, rt_zero = IntVal 0,
      rt_clock = (\<lambda>k. 1000000 * int k), rt_rounding = (\<lambda>t x. x), rt_uniform = (\<lambda>seed a b k. 1), rt_seeds = (\<lambda>i j. 0), rt_date = ''today'',
      rt_file_size = (\<lambda>n w. Inr 5760), rt_insert = (\<lambda>x. ''t''), rt_to_string = (\<lambda>x. ''t'')\<rparr>"

lemma tape_copied:
  "map_option snd (copy_file (tape_runtime fs px cp bt) (\<lambda>g f. (f, 0)) stod ''a'' ''NONE'' False (tape_file [None, None], tape_file [None])
     (csv_init [] hdu_header [CHR 0x09])) = Some (Inr ())"
  by code_simp

theorem compression_benchmark_measures_every_hdu_witness:
  "\<forall>fs px cp bt stod. \<exists>s. copy_file (tape_runtime fs px cp bt) (\<lambda>g f. (f, 0)) stod ''a'' ''NONE'' False (tape_file [None, None], tape_file [None])
     (csv_init [] hdu_header [CHR 0x09]) = Some (s, Inr ()) \<and> length (m_hdus (snd (cb_files s))) = 3 \<and> tallies s = [2, 2, 2, 2, 2, 2]"
proof (intro allI)
  fix fs :: "('w, int) storage" and px cp bt stod
  obtain s where run: "copy_file (tape_runtime fs px cp bt) (\<lambda>g f. (f, 0)) stod ''a'' ''NONE'' False (tape_file [None, None], tape_file [None])
     (csv_init [] hdu_header [CHR 0x09]) = Some (s, Inr ())"
    using tape_copied [of fs px cp bt stod] by auto
  have "moves_documented (rt_cfitsio (tape_runtime fs px cp bt))" "m_hdus (tape_file [None, None]) \<noteq> []"
    by (simp_all add: moves_documented_def tape_runtime_def tape_api_def tape_file_def)
  from compression_benchmark_measures_every_hdu [OF this run]
  have "length (m_hdus (snd (cb_files s))) = 3 \<and> tallies s = [2, 2, 2, 2, 2, 2]"
    by (simp add: tape_file_def eval_nat_numeral)
  with run show "\<exists>s. copy_file (tape_runtime fs px cp bt) (\<lambda>g f. (f, 0)) stod ''a'' ''NONE'' False (tape_file [None, None], tape_file [None])
     (csv_init [] hdu_header [CHR 0x09]) = Some (s, Inr ()) \<and> length (m_hdus (snd (cb_files s))) = 3 \<and> tallies s = [2, 2, 2, 2, 2, 2]"
    by blast
qed

end
