(* ===== verification/Fits_AstroObj.thy ===== *)
theory Fits_AstroObj
  imports Fits_Programs Fits_RunBenchmark
begin

text \<open>
  The program \<^verbatim>\<open>EleFitsGenerateAstroObj\<close>: it writes tables of random columns of one to three dimensions, and inserts columns of quality flags on demand.
\<close>

section \<open>The model\<close>

record astro_obj_info =
  comb_size :: int
  dith_count :: int
  dith1d_size :: int
  dith2d_shape :: position

text \<open>A product of several \<^verbatim>\<open>long\<close>, from left to right.\<close>

definition long_times :: "int \<Rightarrow> int \<Rightarrow> int result" where
  "long_times a b = (if - (2 ^ 63) \<le> a * b \<and> a * b < 2 ^ 63 then Inr (a * b) else Inl Undefined)"

fun long_product :: "int \<Rightarrow> int list \<Rightarrow> int result" where
  "long_product a [] = Inr a"
| "long_product a (b # bs) = rbind (long_times a b) (\<lambda>c. long_product c bs)"

definition lio_once :: "('s, 'a) io \<Rightarrow> ('s, 'a) lio" where
  "lio_once m s = Some (m s)"

definition primary_records :: "int \<Rightarrow> variant fits_record list" where
  "primary_records nobj =
     [record_init ''N_OBJ'' (Variant TLong (IntVal nobj)) [] ''number of objects in the package'',
      record_init ''TELESCOP'' (Variant TString (StrVal ''EUCLID'')) [] ''telescope name'',
      record_init ''INSTRUME'' (Variant TString (StrVal ''NISP'')) [] ''instrument name'']"

definition write_primary_header :: "'f cfitsio \<Rightarrow> int \<Rightarrow> ('f, unit) hio" where
  "write_primary_header api nobj = header_write_seq api CreateOrUpdate (primary_records nobj)"

text \<open>A column to be generated: its type, its information, and the lengths whose product with the number of rows is the number of its values.\<close>

type_synonym column_spec = "value_type \<times> column_info \<times> int list"

definition scalar_spec :: "value_type \<Rightarrow> string \<Rightarrow> string \<Rightarrow> column_spec result" where
  "scalar_spec t n u = rbind (column_info_init False 1 n u 1) (\<lambda>info. Inr (t, info, []))"

definition vector_spec :: "value_type \<Rightarrow> string \<Rightarrow> string \<Rightarrow> int \<Rightarrow> column_spec result" where
  "vector_spec t n u rep = rbind (column_info_init False 1 n u rep) (\<lambda>info. Inr (t, info, [rep]))"

definition shaped_spec :: "value_type \<Rightarrow> string \<Rightarrow> string \<Rightarrow> position \<Rightarrow> column_spec result" where
  "shaped_spec t n u shape = Inr (t, make_column_info False n u shape, shape)"

definition ext_specs :: "astro_obj_info \<Rightarrow> column_spec list result" where
  "ext_specs info =
     rbind (rd (dith2d_shape info) 0) (\<lambda>width. rbind (rd (dith2d_shape info) 1) (\<lambda>height.
     rmap id
       [scalar_spec TLong ''OBJECT_ID'' [], scalar_spec TComplexFloat ''RA_DEC'' ''deg'', scalar_spec TFloat ''EXPTIME'' ''s'',
        vector_spec TFloat ''COMBINED1D_SIGNAL'' ''erg'' (comb_size info), vector_spec TFloat ''COMBINED1D_VAR'' ''erg^2'' (comb_size info),
        vector_spec TLong ''PTGID'' [] (dith_count info),
        shaped_spec TFloat ''DITH1D_SIGNAL'' ''erg'' [dith1d_size info, dith_count info],
        shaped_spec TFloat ''DITH1D_VAR'' ''erg^2'' [dith1d_size info, dith_count info],
        shaped_spec TFloat ''DITH2D_SIGNAL'' ''erg'' [width, height, dith_count info],
        shaped_spec TFloat ''DITH2D_VAR'' ''erg^2'' [width, height, dith_count info]]))"

definition quality_specs :: "astro_obj_info \<Rightarrow> column_spec list result" where
  "quality_specs info =
     rbind (rd (dith2d_shape info) 0) (\<lambda>width. rbind (rd (dith2d_shape info) 1) (\<lambda>height.
     rmap id
       [vector_spec TInt ''COMBINED1D_QUALITY'' [] (comb_size info), shaped_spec TInt ''DITH1D_QUALITY'' [] [dith1d_size info, dith_count info],
        shaped_spec TInt ''DITH2D_QUALITY'' [] [width, height, dith_count info]]))"

text \<open>The number of a call stands for the time at which it reads the clock.\<close>

definition random_values :: "('w, 'f) runtime \<Rightarrow> nat \<Rightarrow> value_type \<Rightarrow> int \<Rightarrow> payload list result" where
  "random_values rt call t n =
     rbind (half_min (rt_rounding rt) t) (\<lambda>mn. rbind (half_max (rt_rounding rt) t) (\<lambda>mx.
     generate_random_vector (rt_rounding rt) (rt_uniform rt) (rt_seeds rt call) t n mn mx))"

definition value_count :: "int list \<Rightarrow> int \<Rightarrow> int result" where
  "value_count ns rows = (case ns of [] \<Rightarrow> Inr rows | n # ms \<Rightarrow> long_product n (ms @ [rows]))"

definition random_spec :: "('w, 'f) runtime \<Rightarrow> nat \<Rightarrow> int \<Rightarrow> column_spec \<Rightarrow> typed_column result" where
  "random_spec rt call rows = (\<lambda>(t, info, ns).
     rbind (value_count ns rows) (\<lambda>n. rbind (random_values rt call t n) (\<lambda>vs. Inr (t, make_column info vs))))"

definition astro_columns :: "('w, 'f) runtime \<Rightarrow> nat \<Rightarrow> int \<Rightarrow> column_spec list \<Rightarrow> typed_column list result" where
  "astro_columns rt call rows specs = rmap (\<lambda>(k, spec). random_spec rt (call + k) rows spec) (enumerate 0 specs)"

definition write_ext :: "('w, 'f) runtime \<Rightarrow> nat \<Rightarrow> string \<Rightarrow> astro_obj_info \<Rightarrow> int \<Rightarrow> ('f mef_file, nat) lio" where
  "write_ext rt call n info rows =
     lio_bind (lio_lift (rbind (ext_specs info) (astro_columns rt call rows))) (append_bintable (rt_cfitsio rt) (rt_bintable rt) n [])"

definition init_before :: "'f cfitsio \<Rightarrow> 'f bintable_api \<Rightarrow> string \<times> column_spec \<Rightarrow> ('f, unit) hio" where
  "init_before api bt = (\<lambda>(n, t, info, ns). io_bind (columns_read_index api bt n) (columns_init api bt t info))"

definition insert_columns :: "('w, 'f) runtime \<Rightarrow> nat \<Rightarrow> astro_obj_info \<Rightarrow> nat \<Rightarrow> ('f mef_file, unit) lio" where
  "insert_columns rt call info i =
     (let api = rt_cfitsio rt; bt = rt_bintable rt in
      lio_bind (lio_lift (quality_specs info)) (\<lambda>specs.
      lio_bind (lio_once (with_hdu i (columns_read_row_count api))) (\<lambda>rows.
      lio_bind (lio_lift (astro_columns rt call rows specs)) (\<lambda>columns.
      lio_then (lio_once (with_hdu i (io_foreach (init_before api bt) (zip [''COMBINED1D_VAR'', ''DITH1D_VAR'', ''DITH2D_VAR''] specs))))
        (with_hdu_loop i (write_seq api bt columns))))))"

text \<open>What is done for each table; ten vectors are generated for it, and three more for the quality flags.\<close>

definition write_astro_obj :: "('w, 'f) runtime \<Rightarrow> astro_obj_info \<Rightarrow> int \<Rightarrow> bool \<Rightarrow> int \<Rightarrow> ('f mef_file, unit) lio" where
  "write_astro_obj rt info nobj qual i =
     lio_bind (write_ext rt (13 * nat i) (to_string (i + 1)) info nobj) (\<lambda>ext.
     if qual then insert_columns rt (13 * nat i + 10) info ext else lio_lift (Inr ()))"

definition fill_file :: "('w, 'f) runtime \<Rightarrow> astro_obj_info \<Rightarrow> int \<Rightarrow> int \<Rightarrow> bool \<Rightarrow> ('f mef_file, unit) lio" where
  "fill_file rt info nobj nhdu qual =
     lio_then (lio_once (io_bind (mef_primary (rt_cfitsio rt)) (\<lambda>p. io_bind (io_lift (long_times nobj nhdu)) (\<lambda>n.
                 with_hdu p (write_primary_header (rt_cfitsio rt) n)))))
       (lio_foreach (write_astro_obj rt info nobj qual) [0..nhdu - 1])"

definition astro_main ::
  "('w, 'f) runtime \<Rightarrow> string \<Rightarrow> int \<Rightarrow> int \<Rightarrow> int \<Rightarrow> int \<Rightarrow> int \<Rightarrow> bool \<Rightarrow> 'w \<Rightarrow> ('w \<times> unit result) option" where
  "astro_main rt filename nobj nhdu nbin ndith height qual w =
     (let info = \<lparr>comb_size = nbin, dith_count = ndith, dith1d_size = nbin, dith2d_shape = [nbin, height]\<rparr> in
      case mef_init (rt_storage rt) (rt_cfitsio rt) (rt_date rt) filename Overwrite [] w of
        ((w1, f), Inl e) \<Rightarrow> Some (w1, Inl e)
      | ((w1, f), Inr _) \<Rightarrow>
          map_option (\<lambda>(f', r). case mef_close_impl (rt_storage rt) (rt_cfitsio rt) (w1, f') of ((w2, _), rc) \<Rightarrow> (w2, rbind r (\<lambda>_. rc)))
            (fill_file rt info nobj nhdu qual f))"

section \<open>The columns\<close>

lemma prod_list_ge_1: "\<forall>b \<in> set bs. (1 :: int) \<le> b \<Longrightarrow> 1 \<le> prod_list bs"
proof (induction bs)
  case (Cons b bs)
  then have "1 * 1 \<le> b * prod_list bs"
    by (intro mult_mono) auto
  then show ?case
    by simp
qed simp

lemma long_product_positive:
  "1 \<le> a \<Longrightarrow> \<forall>b \<in> set bs. 1 \<le> b \<Longrightarrow> a * prod_list bs < 2 ^ 63 \<Longrightarrow> long_product a bs = Inr (a * prod_list bs)"
proof (induction bs arbitrary: a)
  case (Cons b bs)
  have "1 * 1 \<le> a * b"
    using Cons.prems(1,2) by (intro mult_mono) auto
  then have "1 \<le> a * b" "a * b * 1 \<le> a * b * prod_list bs"
    using prod_list_ge_1 [of bs] Cons.prems(2) by (simp, intro mult_left_mono) auto
  moreover have "a * b * prod_list bs < 2 ^ 63"
    using Cons.prems(3) by (simp add: mult.assoc)
  ultimately show ?case
    using Cons.IH [of "a * b"] Cons.prems(2) by (simp add: long_times_def mult.assoc)
qed simp

text \<open>The number of values that is computed for a column is the number of its elements in all rows.\<close>

definition spec_fits :: "int \<Rightarrow> column_spec \<Rightarrow> bool" where
  "spec_fits rows = (\<lambda>(t, info, ns). t \<noteq> TCStr \<and> 0 \<le> element_count info * rows \<and> value_count ns rows = Inr (element_count info * rows))"

definition column_fits :: "int \<Rightarrow> column_spec \<Rightarrow> typed_column \<Rightarrow> bool" where
  "column_fits rows = (\<lambda>(t, info, ns) (t', c). t' = t \<and> m_info c = info \<and> int (length (c_data c)) = element_count info * rows)"

lemma random_spec_fits:
  assumes "uniform_documented (rt_uniform rt)" and "spec_fits rows spec"
  shows "\<exists>c. random_spec rt call rows spec = Inr c \<and> column_fits rows spec c"
proof -
  obtain t info ns where s: "spec = (t, info, ns)"
    by (cases spec)
  let ?n = "element_count info * rows"
  have n: "t \<noteq> TCStr" "0 \<le> ?n" "value_count ns rows = Inr ?n"
    using assms(2) by (auto simp: s spec_fits_def)
  obtain vs where "random_values rt call t ?n = Inr vs" "length vs = nat ?n"
    using random_default [OF assms(1) n(2,1), of "rt_rounding rt" "rt_seeds rt call"] by (auto simp: random_values_def)
  then show ?thesis
    using n by (auto simp: s random_spec_def column_fits_def make_column_def)
qed

lemma astro_columns_fit:
  assumes "uniform_documented (rt_uniform rt)" and "\<forall>spec \<in> set specs. spec_fits rows spec"
  shows "\<exists>cols. astro_columns rt call rows specs = Inr cols \<and> list_all2 (column_fits rows) specs cols"
proof -
  let ?f = "\<lambda>(k, spec). random_spec rt (call + k) rows spec"
  have "\<exists>c. ?f x = Inr c \<and> column_fits rows (snd x) c" if "x \<in> set (enumerate 0 specs)" for x
  proof -
    have "snd x \<in> set specs"
      using that by (metis imageI list.set_map map_snd_enumerate)
    then show ?thesis
      using random_spec_fits [OF assms(1)] assms(2) by (simp add: case_prod_beta)
  qed
  then obtain cols where "astro_columns rt call rows specs = Inr cols" "list_all2 (\<lambda>x. column_fits rows (snd x)) (enumerate 0 specs) cols"
    unfolding astro_columns_def using rmap_ex [of "enumerate 0 specs" ?f "\<lambda>x. column_fits rows (snd x)"] by blast
  then show ?thesis
    by (auto simp: list_all2_conv_all_nth nth_enumerate_eq)
qed

lemma column_info_vector: "column_info_init False 1 n u rep = Inr (make_column_info False n u [rep])"
  by (simp add: column_info_init_def make_column_info_def pos_one_def wr_def)

lemma spec_fits_shape:
  assumes "\<forall>n \<in> set shape. 1 \<le> n" "shape \<noteq> []" "1 \<le> rows" "prod_list shape * rows < 2 ^ 63" and "t \<noteq> TCStr"
  shows "spec_fits rows (t, make_column_info False n u shape, shape)"
proof -
  obtain a bs where s: "shape = a # bs"
    using assms(2) by (cases shape) auto
  have "0 \<le> prod_list shape * rows"
    using prod_list_ge_1 [of shape] assms(1,3) by (intro mult_nonneg_nonneg) auto
  then show ?thesis
    using long_product_positive [of a "bs @ [rows]"] assms
    by (auto simp: spec_fits_def value_count_def element_count_def make_column_info_def repeat_count_def shapeSize_prod s mult.assoc)
qed

lemma spec_fits_scalar: "0 \<le> rows \<Longrightarrow> t \<noteq> TCStr \<Longrightarrow> spec_fits rows (t, make_column_info False n u [1], [])"
  by (simp add: spec_fits_def value_count_def element_count_def make_column_info_def repeat_count_def shapeSize_def)

lemmas spec_defs = scalar_spec_def vector_spec_def shaped_spec_def column_info_vector

definition ext_names :: "string list" where
  "ext_names = [''OBJECT_ID'', ''RA_DEC'', ''EXPTIME'', ''COMBINED1D_SIGNAL'', ''COMBINED1D_VAR'', ''PTGID'', ''DITH1D_SIGNAL'', ''DITH1D_VAR'', ''DITH2D_SIGNAL'', ''DITH2D_VAR'']"

definition quality_names :: "string list" where
  "quality_names = [''COMBINED1D_QUALITY'', ''DITH1D_QUALITY'', ''DITH2D_QUALITY'']"

lemma specs_fit:
  assumes "1 \<le> nbin" "1 \<le> ndith" "1 \<le> height" "1 \<le> rows" "nbin * height * ndith * rows < 2 ^ 63"
    and "info = \<lparr>comb_size = nbin, dith_count = ndith, dith1d_size = nbin, dith2d_shape = [nbin, height]\<rparr>"
  shows "\<exists>specs. ext_specs info = Inr specs \<and> (\<forall>spec \<in> set specs. spec_fits rows spec) \<and> map (\<lambda>(t, i, ns). ci_name i) specs = ext_names"
    and "\<exists>specs. quality_specs info = Inr specs \<and> (\<forall>spec \<in> set specs. spec_fits rows spec) \<and>
      map (\<lambda>(t, i, ns). ci_name i) specs = quality_names"
proof -
  have less: "a * b \<le> c * d" if "1 \<le> a" "1 \<le> b" "a \<le> c" "b \<le> d" for a b c d :: int
    using that by (intro mult_mono) auto
  have hd: "1 \<le> height * ndith" "1 \<le> ndith * rows"
    using less [of 1 1 height ndith] less [of 1 1 ndith rows] assms(1-4) by simp_all
  have ge: "1 * ndith \<le> height * ndith" "nbin * 1 \<le> nbin * (height * ndith)" "nbin * (1 * ndith) \<le> nbin * (height * ndith)"
      "1 * ndith \<le> nbin * height * ndith"
    using less [of 1 1 nbin height] hd assms(1-4) by (intro mult_mono; simp)+
  have "nbin * rows \<le> nbin * (height * ndith) * rows" "nbin * ndith * rows \<le> nbin * (height * ndith) * rows" "ndith * rows \<le> nbin * height * ndith * rows"
    using ge assms(1-4) by (intro mult_right_mono; simp)+
  then have small: "nbin * rows < 2 ^ 63" "nbin * ndith * rows < 2 ^ 63" "ndith * rows < 2 ^ 63" "nbin * height * ndith * rows < 2 ^ 63"
    using assms(5) by (simp_all add: mult.assoc)
  have shapes: "spec_fits rows (t, make_column_info False n u [nbin], [nbin])" "spec_fits rows (t, make_column_info False n u [ndith], [ndith])"
      "spec_fits rows (t, make_column_info False n u [nbin, ndith], [nbin, ndith])"
      "spec_fits rows (t, make_column_info False n u [nbin, height, ndith], [nbin, height, ndith])"
      "spec_fits rows (t, make_column_info False n u [1], [])" if "t \<noteq> TCStr" for t n u
    using that assms(1-4) small by (auto intro!: spec_fits_shape spec_fits_scalar simp: mult.assoc)
  show "\<exists>specs. ext_specs info = Inr specs \<and> (\<forall>spec \<in> set specs. spec_fits rows spec) \<and> map (\<lambda>(t, i, ns). ci_name i) specs = ext_names"
    by (simp add: ext_specs_def assms(6) spec_defs shapes rd_def) (simp add: make_column_info_def ext_names_def quality_names_def)
  show "\<exists>specs. quality_specs info = Inr specs \<and> (\<forall>spec \<in> set specs. spec_fits rows spec) \<and>
      map (\<lambda>(t, i, ns). ci_name i) specs = quality_names"
    by (simp add: quality_specs_def assms(6) spec_defs shapes rd_def) (simp add: make_column_info_def ext_names_def quality_names_def)
qed

lemma fits_names:
  "list_all2 (column_fits rows) specs cols \<Longrightarrow>
     map (\<lambda>(t, c). ci_name (m_info c)) cols = map (\<lambda>(t, i, ns). ci_name i) specs \<and> (\<forall>(t, c) \<in> set cols. int (length (c_data c)) = element_count (m_info c) * rows)"
  by (induction rule: list_all2_induct) (auto simp: column_fits_def)


text \<open>\<^verbatim>\<open>init\<close> writes the length of a field but not its shape, which is that of a vector when the column is read.\<close>

lemma init_forgets_shape:
  assumes "ci_name i = ci_name j" "ci_unit i = ci_unit j" "repeat_count i = repeat_count j"
  shows "columns_init api bt t i k = columns_init api bt t j k"
  unfolding columns_init_def assms ..

section \<open>The file\<close>

interpretation filling: counted_runs "\<lambda>n s s'. length (m_hdus s') = length (m_hdus s) + n" 0 "(+)"
  by unfold_locales simp_all

abbreviation fills :: "nat \<Rightarrow> ('f mef_file, 'a) lio \<Rightarrow> bool" where
  "fills n \<equiv> succeeds_in (\<lambda>s s'. length (m_hdus s') = length (m_hdus s) + n)"

lemma fills_once: "grows n m \<Longrightarrow> fills n (lio_once m)"
  by (simp add: succeeds_in_def lio_once_def rises_def)

lemma fills_with_hdu_loop: "fills 0 (with_hdu_loop i m)"
  by (auto simp: succeeds_in_def dest: with_hdu_loop_count)

lemma fills_append: "fills 1 (append_bintable api bt n records tcs)"
proof -
  have "grows (0 + (1 + (0 + (0 + 0)))) (append_bintable_header api bt n records infos)" for infos
    unfolding append_bintable_header_def
    by (intro rises_then rises_bind grows_push rises_return grows_with_hdu grows_keeps keeps_notified keeps_file)
  then have header: "grows 1 (append_bintable_header api bt n records infos)" for infos
    by simp
  show ?thesis
    unfolding succeeds_in_def
  proof (intro allI impI)
    fix s s' x
    assume run: "append_bintable api bt n records tcs s = Some (s', Inr x)"
    obtain s1 r where 1: "append_bintable_header api bt n records (map (\<lambda>(t, c). (t, m_info c)) tcs) s = (s1, r)"
      by fastforce
    with run obtain i r2 where "r = Inr i" "with_hdu_loop i (write_seq api bt tcs) s1 = Some (s', r2)"
      by (cases r) (auto simp: append_bintable_def)
    then show "length (m_hdus s') = length (m_hdus s) + 1"
      using risesD [OF header] 1 with_hdu_loop_count by metis
  qed
qed

lemma fills_write_astro_obj: "fills 1 (write_astro_obj rt info nobj qual i)"
proof -
  have "fills (0 + (0 + (0 + (0 + 0)))) (insert_columns rt call info ext)" for call ext
    unfolding insert_columns_def Let_def by (intro filling.counted fills_once grows_with_hdu fills_with_hdu_loop)
  then have "fills ((0 + 1) + 0) (write_astro_obj rt info nobj qual i)"
    unfolding write_astro_obj_def write_ext_def by (intro filling.counted fills_append) simp
  then show ?thesis
    by simp
qed

text \<open>
  If the program ends without an exception, the file it has created has one more HDU for each of the tables that are asked for, and no other; a negative number asks for none.\<close>

theorem astro_file_tables:
  assumes "fill_file rt info nobj nhdu qual f = Some (f', Inr ())"
  shows "mef_hdu_count f' = mef_hdu_count f + max 0 nhdu"
proof -
  have "fills ((0 + (0 + 0)) + (((+) 1 ^^ length [0..nhdu - 1]) 0)) (fill_file rt info nobj nhdu qual)"
    unfolding fill_file_def
    by (intro filling.counted_then filling.counted_foreach fills_write_astro_obj fills_once rises_bind rises_return grows_with_hdu grows_keeps keeps_file)
  from succeeds_inD [OF this assms] show ?thesis
    using plus_funpow [of "nat nhdu"] by (simp add: mef_hdu_count_def)
qed

text \<open>A table of one object, on files that are the number of their current HDU, with tables that take everything.\<close>

definition tape_table :: "int bintable_api" where
  "tape_table =
     \<lparr>bt_get_colnum = \<lambda>n f. (1, 0), bt_get_bcolparms = \<lambda>i f. ((''A'', [], 1), 0), bt_set_hdustruc = \<lambda>f. (f, 0),
      bt_read_tdim = \<lambda>i n f. ((1, [1]), 0), bt_write_tdim = \<lambda>i s f. (f, 0), bt_get_rowsize = \<lambda>f. (1, 0),
      bt_insert_col = \<lambda>i n s f. (f, 0), bt_insert_cols = \<lambda>i ns f. (f, 0), bt_delete_col = \<lambda>i f. (f, 0),
      bt_read_col = \<lambda>t i a n f. ([], 0), bt_write_col = \<lambda>t i a vs f. (f, 0), bt_insert_rows = \<lambda>a n f. (f, 0), bt_write_nullrows = \<lambda>a n f. (f, 0),
      bt_create_tbl = \<lambda>cs n f. (f, 0)\<rparr>"

definition astro_runtime :: "('w, int) storage \<Rightarrow> (int, payload) pixel_api \<Rightarrow> int compression_api \<Rightarrow> ('w, int) runtime" where
  "astro_runtime fs px cp =
     \<lparr>rt_storage = fs, rt_cfitsio = tape_api, rt_pixels = px, rt_compression = cp, rt_bintable = tape_table, rt_zero = IntVal 0,
      rt_clock = (\<lambda>k. 0), rt_rounding = (\<lambda>t x. x), rt_uniform = (\<lambda>seed a b k. 1), rt_seeds = (\<lambda>i j. 0), rt_date = ''today'',
      rt_file_size = (\<lambda>n w. Inr 5760), rt_insert = (\<lambda>x. ''t''), rt_to_string = (\<lambda>x. ''t'')\<rparr>"

definition astro_info :: astro_obj_info where
  "astro_info = \<lparr>comb_size = 1, dith_count = 1, dith1d_size = 1, dith2d_shape = [1, 1]\<rparr>"

definition astro_value :: "value_type \<Rightarrow> payload" where
  "astro_value t = (if t = TComplexFloat then ComplexVal 1 1 else if t = TFloat then RealVal 1 else IntVal 1)"

definition astro_table :: "typed_column list" where
  "astro_table = map (\<lambda>(t, n, u, shape). (t, make_column (make_column_info False n u shape) [astro_value t]))
     [(TLong, ''OBJECT_ID'', [], [1]), (TComplexFloat, ''RA_DEC'', ''deg'', [1]), (TFloat, ''EXPTIME'', ''s'', [1]),
      (TFloat, ''COMBINED1D_SIGNAL'', ''erg'', [1]), (TFloat, ''COMBINED1D_VAR'', ''erg^2'', [1]), (TLong, ''PTGID'', [], [1]),
      (TFloat, ''DITH1D_SIGNAL'', ''erg'', [1, 1]), (TFloat, ''DITH1D_VAR'', ''erg^2'', [1, 1]),
      (TFloat, ''DITH2D_SIGNAL'', ''erg'', [1, 1, 1]), (TFloat, ''DITH2D_VAR'', ''erg^2'', [1, 1, 1])]"

lemma astro_values:
  "random_values (astro_runtime fs px cp) call TLong 1 = Inr [astro_value TLong]" "random_values (astro_runtime fs px cp) call TFloat 1 = Inr [astro_value TFloat]"
  "random_values (astro_runtime fs px cp) call TComplexFloat 1 = Inr [astro_value TComplexFloat]"
  by (simp_all add: random_values_def astro_runtime_def half_min_def half_max_def any_bound_def scalar_bound_def generate_random_vector_def
      generate_random_scalars_def generate_random_complexes_def component_type_def to_real_def is_complex_type_def cast_real_def trunc_real_def astro_value_def is_real_type_def)

lemma astro_table_made: "rbind (ext_specs astro_info) (astro_columns (astro_runtime fs px cp) call 1) = Inr astro_table"
  by (simp add: ext_specs_def astro_info_def spec_defs rd_def astro_columns_def random_spec_def value_count_def long_times_def astro_values astro_table_def)

definition tape_filled :: "(int mef_file, unit) lio" where
  "tape_filled =
     lio_then (lio_once (io_bind (mef_primary tape_api) (\<lambda>p. io_bind (io_lift (long_times 1 1)) (\<lambda>n. with_hdu p (write_primary_header tape_api n)))))
       (lio_foreach (\<lambda>i. lio_bind (append_bintable tape_api tape_table (to_string (i + 1)) [] astro_table) (\<lambda>ext. lio_lift (Inr ()))) [0..0])"

declare write_seq_loop.simps [code]

lemma tape_filled_run: "map_option snd (tape_filled (tape_file [None])) = Some (Inr ())"
  by code_simp

lemma astro_filled: "fill_file (astro_runtime fs px cp) astro_info 1 1 False = tape_filled"
proof -
  have "lio_bind (lio_lift (Inr x)) k = k x" for x and k :: "typed_column list \<Rightarrow> (int mef_file, nat) lio"
    by (simp add: fun_eq_iff lio_bind_def lio_lift_def)
  then have "write_astro_obj (astro_runtime fs px cp) astro_info 1 False =
      (\<lambda>i. lio_bind (append_bintable tape_api tape_table (to_string (i + 1)) [] astro_table) (\<lambda>ext. lio_lift (Inr ())))"
    by (intro ext [of "write_astro_obj _ _ _ _"]) (simp add: write_astro_obj_def write_ext_def astro_table_made, simp add: astro_runtime_def)
  then show ?thesis
    by (simp add: fill_file_def tape_filled_def) (simp add: astro_runtime_def)
qed

theorem astro_file_tables_witness:
  "\<forall>fs px cp. \<exists>f'. fill_file (astro_runtime fs px cp) astro_info 1 1 False (tape_file [None]) = Some (f', Inr ()) \<and> mef_hdu_count f' = 2"
proof (intro allI)
  fix fs :: "('w, int) storage" and px cp
  obtain f' where run: "fill_file (astro_runtime fs px cp) astro_info 1 1 False (tape_file [None]) = Some (f', Inr ())"
    using tape_filled_run unfolding astro_filled by auto
  then show "\<exists>f'. fill_file (astro_runtime fs px cp) astro_info 1 1 False (tape_file [None]) = Some (f', Inr ()) \<and> mef_hdu_count f' = 2"
    using astro_file_tables [OF run] by (simp add: mef_hdu_count_def tape_file_def)
qed


end
