(* ===== verification/Fits_Structure.thy ===== *)
theory Fits_Structure
  imports Fits_Programs Fits_Loop "HOL-Library.List_Lexorder" "HOL-Library.Char_ord"
begin

text \<open>
  The program \<^verbatim>\<open>EleFitsReadStructure\<close>: it lists the HDUs of a file, with the type, shape and compression of images, the shape and columns of tables, and
  keywords of given categories.
\<close>

section \<open>The model\<close>

text \<open>
  The lines of the log, before the file handler.  A line is logged once it is complete.
\<close>

type_synonym ('f, 'a) sio = "(string list \<times> 'f mef_file, 'a) lio"

definition info :: "string \<Rightarrow> ('f, unit) sio" where
  "info l = (\<lambda>(ls, s). Some ((ls @ [l], s), Inr ()))"

definition on_loop :: "('f mef_file \<Rightarrow> ('f mef_file \<times> 'a result) option) \<Rightarrow> ('f, 'a) sio" where
  "on_loop m = (\<lambda>(ls, s). map_option (\<lambda>(s', r). ((ls, s'), r)) (m s))"

definition on_handler :: "nat \<Rightarrow> ('f, 'a) hio \<Rightarrow> ('f, 'a) sio" where
  "on_handler h m = on_loop (\<lambda>s. Some (with_hdu h m s))"

definition info_all :: "string list \<Rightarrow> ('f, unit) sio" where
  "info_all ls s = lio_foreach info ls s"

text \<open>The lengths of all axes but the last are inserted as \<^verbatim>\<open>int\<close>.\<close>

definition int_of_long :: "int \<Rightarrow> int" where
  "int_of_long d = (d + 2 ^ 31) mod 2 ^ 32 - 2 ^ 31"

definition shape_text :: "int list \<Rightarrow> string" where
  "shape_text shape = concat (map (\<lambda>d. to_string (int_of_long d) @ '' x '') (butlast shape)) @ to_string (last shape)"

definition list_image :: "'f cfitsio \<Rightarrow> nat \<Rightarrow> ('f, unit) sio" where
  "list_image api h =
     lio_bind (on_handler h (raster_read_shape api)) (\<lambda>shape.
     if length shape > 0
     then lio_then (info ''  Image HDU:'')
          (lio_bind (on_handler h (read_type_name api)) (\<lambda>t. lio_then (info (''    Type: '' @ t))
          (lio_then (info (''    Shape: '' @ shape_text shape @ '' px''))
          (lio_bind (on_loop (with_hdu_loop h (read_compression_name api))) (\<lambda>c. info (''    Compression: '' @ c))))))
     else info ''  Metadata HDU'')"

definition list_bintable :: "'f cfitsio \<Rightarrow> 'f bintable_api \<Rightarrow> int \<Rightarrow> nat \<Rightarrow> ('f, unit) sio" where
  "list_bintable api bt max_column_count h =
     lio_then (on_handler h (\<lambda>(f, hd). ((f, hd), cast_handler ClassBintableHdu hd)))
     (lio_bind (on_handler h (columns_read_column_count api)) (\<lambda>columns.
     lio_bind (on_handler h (columns_read_row_count api)) (\<lambda>rows.
     lio_then (info ''  Binary table HDU:'') (lio_then (info (''    Shape: '' @ to_string columns @ '' columns x '' @ to_string rows @ '' rows''))
     (if max_column_count \<noteq> 0
      then lio_bind (on_handler h (read_all_names api bt)) (\<lambda>names.
           lio_then (info ''    Columns:'') (info_all (map (\<lambda>n. ''      '' @ n) (listed_columns max_column_count columns names))))
      else info_all [])))))"

text \<open>The keywords and values of some categories, in the order in which a \<^verbatim>\<open>std::map\<close> is iterated.\<close>

definition sorted_keywords_values :: "'f cfitsio \<Rightarrow> keyword_category \<Rightarrow> 'f \<Rightarrow> (string \<times> string) list" where
  "sorted_keywords_values api categories f =
     map (\<lambda>k. (k, the (list_keywords_values api categories f k))) (sort (remdups (list_keywords api categories f)))"

definition record_line :: "string \<times> string \<Rightarrow> string" where
  "record_line = (\<lambda>(k, v). if v = [] then ''    '' @ k else ''    '' @ k @ replicate (8 - length k) (CHR '' '') @ '' = '' @ v)"

definition list_records :: "'f cfitsio \<Rightarrow> keyword_category \<Rightarrow> nat \<Rightarrow> ('f, unit) sio" where
  "list_records api categories h =
     (if kc_eq categories NoCategory then info_all []
      else lio_bind (on_handler h (io_then (touch api) (on_file (io_read (\<lambda>f. Inr (sorted_keywords_values api categories f)))))) (\<lambda>records.
           if records = [] then info ''  No keywords''
           else lio_then (info ''  Keywords:'') (info_all (map record_line records))))"

definition list_details :: "'f cfitsio \<Rightarrow> 'f bintable_api \<Rightarrow> keyword_category \<Rightarrow> int \<Rightarrow> nat \<Rightarrow> ('f, unit) sio" where
  "list_details api bt categories max_column_count h =
     lio_bind (on_handler h (\<lambda>(f, hd). ((f, hd), Inr (m_type hd)))) (\<lambda>hdu_type.
     lio_then (if hdu_type = Image then list_image api h else list_bintable api bt max_column_count h) (list_records api categories h))"

definition list_hdu :: "'f cfitsio \<Rightarrow> 'f bintable_api \<Rightarrow> keyword_category \<Rightarrow> int \<Rightarrow> int \<Rightarrow> ('f, unit) sio" where
  "list_hdu api bt categories max_column_count i =
     lio_then (info []) (lio_bind (on_loop (\<lambda>s. Some (mef_subscript api i s))) (\<lambda>h.
     lio_bind (on_handler h (read_name api)) (\<lambda>name. lio_then (info (''HDU #'' @ to_string i @ '': '' @ name))
     (lio_bind (on_handler h (size_in_file api)) (\<lambda>bytes. lio_then (info (''  Size: '' @ to_string bytes @ '' bytes''))
     (list_details api bt categories max_column_count h))))))"

definition list_hdus :: "'f cfitsio \<Rightarrow> 'f bintable_api \<Rightarrow> keyword_category \<Rightarrow> int \<Rightarrow> ('f, unit) sio" where
  "list_hdus api bt categories max_column_count = (\<lambda>(ls, s).
     lio_then (info (''HDU count: '' @ to_string (mef_hdu_count s)))
       (lio_foreach (list_hdu api bt categories max_column_count) [0..mef_hdu_count s - 1]) (ls, s))"

text \<open>The file is closed when its handler is destroyed.\<close>

definition structure_main ::
  "('w, 'f) storage \<Rightarrow> 'f cfitsio \<Rightarrow> 'f bintable_api \<Rightarrow> string \<Rightarrow> string \<Rightarrow> string \<Rightarrow> int \<Rightarrow> 'w \<Rightarrow> (('w \<times> string list) \<times> unit result) option" where
  "structure_main fs api bt date filename keyword_filter max_column_count w =
     (case parse_keyword_categories keyword_filter of
        Inl e \<Rightarrow> Some ((w, []), Inl e)
      | Inr categories \<Rightarrow>
     (case mef_init fs api date filename Read [] w of
        ((w1, s), Inl e) \<Rightarrow> Some ((w1, []), Inl e)
      | ((w1, s), Inr _) \<Rightarrow>
     map_option (\<lambda>((ls, s'), r). case mef_close_impl fs api (w1, s') of ((w2, s''), rc) \<Rightarrow> ((w2, ls), rbind r (\<lambda>_. rc)))
       (list_hdus api bt categories max_column_count ([], s))))"

section \<open>What is listed\<close>

text \<open>The keys of the map of keywords are those that are listed.\<close>

lemma keywords_values_dom: "dom (list_keywords_values api categories f) = set (list_keywords api categories f)"
proof -
  let ?kv = "\<lambda>i records. case fst (api_read_keyn api (int i + 1) f) of (keyword, v) \<Rightarrow>
             if belongsCategories keyword categories then records(keyword \<mapsto> v) else records"
  have "dom (fold ?kv is m) = set (list_keywords_loop api categories f is ks)" if "dom m = set ks" for "is" m ks
    using that
  proof (induction "is" arbitrary: m ks)
    case (Cons i "is")
    obtain keyword v where k: "fst (api_read_keyn api (int i + 1) f) = (keyword, v)"
      by fastforce
    have "dom (m(keyword \<mapsto> v)) = set (ks @ [keyword])"
      using Cons.prems by auto
    from Cons.IH [OF this] show ?case
      using Cons.IH [OF Cons.prems] k by (simp add: Let_def fun_upd_def)
  qed simp
  from this [of Map.empty "[]"] show ?thesis
    by (simp add: list_keywords_values_def list_keywords_def)
qed

text \<open>Runs only add lines to the log.\<close>

definition extended :: "string list \<times> 'f mef_file \<Rightarrow> string list \<times> 'f mef_file \<Rightarrow> bool" where
  "extended p q \<longleftrightarrow> (\<exists>more. fst q = fst p @ more)"

interpretation logging: composed_runs extended
  by unfold_locales (auto simp: extended_def)

lemma extends_info: "ends_in extended (info l)"
  by (auto simp: ends_in_def extended_def info_def)

lemma extends_loop: "ends_in extended (on_loop m)"
  by (auto simp: ends_in_def extended_def on_loop_def)

lemma extends_handler: "ends_in extended (on_handler h m)"
  unfolding on_handler_def by (rule extends_loop)

lemma info_all_runs: "info_all ls = lio_foreach info ls"
  by (rule ext) (simp add: info_all_def)

lemma extends_info_all: "ends_in extended (info_all ls)"
  unfolding info_all_runs by (intro logging.ends_foreach extends_info)

lemmas extending = extends_info extends_loop extends_handler extends_info_all logging.ends

lemma extends_parts: "ends_in extended (list_image api h)" "ends_in extended (list_bintable api bt mx h)" "ends_in extended (list_records api categories h)"
  unfolding list_image_def list_bintable_def list_records_def by (intro extending)+

text \<open>The lines of an HDU.\<close>

definition hdu_block :: "int \<Rightarrow> string list \<Rightarrow> bool" where
  "hdu_block i block \<longleftrightarrow> (\<exists>name bytes details. block = [[], ''HDU #'' @ to_string i @ '': '' @ name, ''  Size: '' @ to_string bytes @ '' bytes''] @ details)"

lemma info_success: "info l (ls, s) = Some (p, Inr u) \<longleftrightarrow> p = (ls @ [l], s)"
  by (auto simp: info_def)

lemma on_success: "on_loop m (ls, s) = Some (p, Inr x) \<longleftrightarrow> (\<exists>s'. p = (ls, s') \<and> m s = Some (s', Inr x))"
  by (auto simp: on_loop_def)

lemma list_hdu_block:
  assumes "list_hdu api bt categories mx i (ls, s) = Some ((ls', s'), Inr ())"
  shows "\<exists>block. hdu_block i block \<and> ls' = ls @ block"
proof -
  obtain name bytes h s1 where run: "list_details api bt categories mx h
      (ls @ [[], ''HDU #'' @ to_string i @ '': '' @ name, ''  Size: '' @ to_string bytes @ '' bytes''], s1) = Some ((ls', s'), Inr ())"
    using assms unfolding list_hdu_def lio_then_def
    by (auto simp: lio_bind_success info_success on_success on_handler_def)
  have "ends_in extended (list_details api bt categories mx h)"
    unfolding list_details_def by (intro extending extends_parts)
  then obtain details where "ls' = (ls @ [[], ''HDU #'' @ to_string i @ '': '' @ name, ''  Size: '' @ to_string bytes @ '' bytes'']) @ details"
    using run unfolding ends_in_def extended_def by fastforce
  then show ?thesis
    by (auto simp: hdu_block_def)
qed

lemma list_each_block:
  assumes "lio_foreach (list_hdu api bt categories mx) is (ls, s) = Some ((ls', s'), Inr ())"
  shows "\<exists>blocks. list_all2 hdu_block is blocks \<and> ls' = ls @ concat blocks"
  using assms
proof (induction "is" arbitrary: ls s)
  case (Cons i "is")
  then obtain ls1 s1 where 1: "list_hdu api bt categories mx i (ls, s) = Some ((ls1, s1), Inr ())"
      and 2: "lio_foreach (list_hdu api bt categories mx) is (ls1, s1) = Some ((ls', s'), Inr ())"
    by (auto simp: lio_then_def lio_bind_success)
  obtain block where "hdu_block i block" "ls1 = ls @ block"
    using list_hdu_block [OF 1] by blast
  moreover obtain blocks where "list_all2 hdu_block is blocks" "ls' = ls1 @ concat blocks"
    using Cons.IH [OF 2] by blast
  ultimately show ?case
    by (intro exI [of _ "block # blocks"]) simp
qed simp


text \<open>A file with an image and a table.\<close>

definition tape :: "(unit, int) storage" where
  "tape =
     \<lparr>fs_readable = \<lambda>n w. True, fs_create_file = \<lambda>n w. ((w, 1), 0), fs_open_file = \<lambda>n m w. ((w, 1), 0), fs_close_file = \<lambda>f w. (w, 0),
      fs_delete_file = \<lambda>f w. (w, 0)\<rparr>"

lemma tape_listing:
  "structure_main tape tape_api bt ''today'' ''a'' ''mu'' 0 () =
     Some (((), [''HDU count: 2'', [], ''HDU #0: '', ''  Size: 0 bytes'', ''  Image HDU:'', ''    Type: uchar'', ''    Shape: 0 px'', ''    Compression: None'',
       ''  No keywords'', [], ''HDU #1: '', ''  Size: 2880 bytes'', ''  Binary table HDU:'', ''    Shape: 0 columns x 0 rows'', ''  No keywords'']), Inr ())"
  by code_simp


text \<open>A length that does not fit in an \<^verbatim>\<open>int\<close> is printed as another number.\<close>

lemma long_axis_narrowed: "shape_text [3000000000, n] = to_string (- 1294967296) @ '' x '' @ to_string n"
  by (simp add: shape_text_def int_of_long_def)

end
